(* ===== verification/JS_Prelude.thy ===== *)
theory JS_Prelude
  imports Complex_Main
begin

text \<open>
  The JavaScript value model shared by every component of the cleaner
  (\<^verbatim>\<open>src/cleaner.js\<close>). A JavaScript string is a sequence of UTF-16 code units,
  modelled as a list of naturals (\<open>jstr\<close>); an ASCII literal of the source is
  written \<open>js ''...''\<close>. A JavaScript number is modelled exactly: a rational for
  a finite value, and the three special values \<open>+Infinity\<close>, \<open>-Infinity\<close> and
  \<open>NaN\<close>. A property value read from a row is a string or a number, and a read
  of a missing property is \<open>None\<close> (JavaScript's \<open>undefined\<close>). A thrown
  exception is an \<open>Inl\<close> of \<open>js_error\<close>. The theory also holds the generic list
  lemmas the components share and the collection \<open>js_eval\<close> of the equations
  that evaluate the builtins on literals.
\<close>

named_theorems js_eval "equations that evaluate the modelled JavaScript builtins"

subsection \<open>Strings, numbers, values, errors\<close>

type_synonym jstr = "nat list"

definition js :: "string \<Rightarrow> jstr" where
  "js s = map of_char s"

datatype jsnum = Fin rat | PosInf | NegInf | NaN

datatype jsval = VStr jstr | VNum jsnum

datatype js_error = TypeError string

text \<open>
  Truthiness (ECMAScript ToBoolean) of a property read: \<open>undefined\<close>, the empty
  string, \<open>0\<close> and \<open>NaN\<close> are falsy.
\<close>

fun num_truthy :: "jsnum \<Rightarrow> bool" where
  "num_truthy (Fin r) = (r \<noteq> 0)"
| "num_truthy NaN = False"
| "num_truthy PosInf = True"
| "num_truthy NegInf = True"

fun truthy :: "jsval option \<Rightarrow> bool" where
  "truthy None = False"
| "truthy (Some (VStr s)) = (s \<noteq> [])"
| "truthy (Some (VNum n)) = num_truthy n"

text \<open>Destructuring \<open>const [a, b, c] = xs\<close>: a position past the end is \<open>undefined\<close>.\<close>

definition js_idx :: "'a list \<Rightarrow> nat \<Rightarrow> 'a option" where
  "js_idx xs i = (if i < length xs then Some (xs ! i) else None)"

subsection \<open>Evaluation of literals\<close>

lemma js_Nil [simp, js_eval]: "js [] = []"
  and js_Cons [simp, js_eval]: "js (c # cs) = of_char c # js cs"
  by (simp_all add: js_def)

lemma js_append [simp]: "js (a @ b) = js a @ js b"
  by (simp add: js_def)

lemma js_idx_simps [simp, js_eval]:
  "js_idx [] i = None"
  "js_idx (x # xs) 0 = Some x"
  "js_idx (x # xs) (Suc i) = js_idx xs i"
  by (simp_all add: js_idx_def)

lemma js_idx_numeral [simp, js_eval]:
  "js_idx (x # xs) (numeral n) = js_idx xs (pred_numeral n)"
  by (simp add: js_idx_def numeral_eq_Suc)

lemma js_idx_Some: "js_idx xs i = Some x \<Longrightarrow> x \<in> set xs"
  by (auto simp: js_idx_def split: if_splits)

subsection \<open>Generic list lemmas\<close>

lemma dropWhile_hd_not:
  "dropWhile P xs = y # ys \<Longrightarrow> \<not> P y"
  by (induction xs) (auto split: if_splits)

lemma set_dropWhile_sub: "set (dropWhile P xs) \<subseteq> set xs"
  by (induction xs) auto

lemma concat_map_singleton_id:
  "(\<And>x. x \<in> set xs \<Longrightarrow> f x = [x]) \<Longrightarrow> concat (map f xs) = xs"
  by (induction xs) auto

end
