(* ===== verification/JS_String.thy ===== *)
theory JS_String
  imports JS_Prelude
begin

text \<open>
  The \<open>String.prototype\<close> methods the cleaner calls, on UTF-16 code-unit
  lists: \<open>split\<close> with a one-unit separator (\<open>js_split\<close>), \<open>trim\<close>
  (\<open>js_trim\<close>, over ECMAScript's WhiteSpace and LineTerminator units),
  \<open>replace\<close> with a one-unit string pattern, which replaces the first
  occurrence only (\<open>js_replace_first\<close>), \<open>toLowerCase\<close>
  (\<open>js_toLowerCase\<close>, the Unicode lower-case mapping on Basic Latin, Latin-1
  and Latin Extended-A, U+0000 to U+017F; other code units are left as they are)
  and \<open>padStart\<close> with a one-unit filler. Lemmas: split and join are inverse,
  the parts of a split hold no separator; trim leaves no white space at either end
  and is idempotent; lower-casing is idempotent and keeps the ASCII punctuation.
\<close>

subsection \<open>split and join\<close>

fun js_split :: "nat \<Rightarrow> jstr \<Rightarrow> jstr list" where
  "js_split c [] = [[]]"
| "js_split c (x # xs) =
     (let r = js_split c xs in if x = c then [] # r else (x # hd r) # tl r)"

fun js_join :: "nat \<Rightarrow> jstr list \<Rightarrow> jstr" where
  "js_join c [] = []"
| "js_join c [w] = w"
| "js_join c (w # ws) = w @ c # js_join c ws"

lemma js_split_not_Nil [simp]: "js_split c s \<noteq> []"
  by (induction s) (auto simp: Let_def)

lemma js_join_Cons_ne: "r \<noteq> [] \<Longrightarrow> js_join c (w # r) = w @ c # js_join c r"
  by (cases r) auto

lemma js_join_cons_hd: "r \<noteq> [] \<Longrightarrow> js_join c ((x # hd r) # tl r) = x # js_join c r"
  by (cases r; cases "tl r") auto

lemma js_join_split [simp]: "js_join c (js_split c s) = s"
  by (induction s) (auto simp: Let_def js_join_cons_hd js_join_Cons_ne)

lemma js_split_no_sep: "w \<in> set (js_split c s) \<Longrightarrow> c \<notin> set w"
proof (induction s arbitrary: w)
  case Nil
  then show ?case by simp
next
  case (Cons x xs)
  then show ?case
    by (cases "js_split c xs") (auto simp: Let_def split: if_splits)
qed

lemma length_js_split: "length (js_split c s) = Suc (count_list s c)"
  by (induction s) (auto simp: Let_def)

lemma js_split_no_sep_id: "c \<notin> set s \<Longrightarrow> js_split c s = [s]"
  by (induction s) (auto simp: Let_def)

lemma js_split_append_sep:
  "c \<notin> set a \<Longrightarrow> js_split c (a @ c # b) = a # js_split c b"
  by (induction a) (auto simp: Let_def)

lemma js_split_join:
  "ws \<noteq> [] \<Longrightarrow> (\<forall>w\<in>set ws. c \<notin> set w) \<Longrightarrow> js_split c (js_join c ws) = ws"
proof (induction c ws rule: js_join.induct)
  case (3 c w v vs)
  then show ?case by (simp add: js_split_append_sep)
qed (auto simp: js_split_no_sep_id)

lemma js_split2:
  "c \<notin> set a \<Longrightarrow> c \<notin> set b \<Longrightarrow> js_split c (a @ c # b) = [a, b]"
  by (simp add: js_split_append_sep js_split_no_sep_id)

lemma js_split3:
  "c \<notin> set a \<Longrightarrow> c \<notin> set b \<Longrightarrow> c \<notin> set r \<Longrightarrow>
   js_split c (a @ c # b @ c # r) = [a, b, r]"
  by (simp add: js_split_append_sep js_split_no_sep_id)

subsection \<open>trim\<close>

definition js_ws :: "nat \<Rightarrow> bool" where
  "js_ws u \<longleftrightarrow>
     u \<in> {9, 10, 11, 12, 13, 32, 160, 5760, 8232, 8233, 8239, 8287, 12288, 65279}
     \<or> (8192 \<le> u \<and> u \<le> 8202)"

definition js_trim :: "jstr \<Rightarrow> jstr" where
  "js_trim s = rev (dropWhile js_ws (rev (dropWhile js_ws s)))"

lemma js_trim_no_lead: "js_trim s = u # t \<Longrightarrow> \<not> js_ws u"
  by (cases "dropWhile js_ws s")
     (auto simp: js_trim_def dropWhile_append3 dest: dropWhile_hd_not
           split: if_splits)

lemma js_trim_no_trail: "js_trim s = t @ [u] \<Longrightarrow> \<not> js_ws u"
proof -
  assume "js_trim s = t @ [u]"
  then have "dropWhile js_ws (rev (dropWhile js_ws s)) = u # rev t"
    by (metis js_trim_def rev_rev_ident rev_append rev_singleton_conv
        append.left_neutral append_Cons)
  then show ?thesis by (rule dropWhile_hd_not)
qed

lemma js_ws_code [js_eval]:
  "js_ws u = (u = 9 \<or> u = 10 \<or> u = 11 \<or> u = 12 \<or> u = 13 \<or> u = 32 \<or> u = 160
     \<or> u = 5760 \<or> u = 8232 \<or> u = 8233 \<or> u = 8239 \<or> u = 8287 \<or> u = 12288
     \<or> u = 65279 \<or> (8192 \<le> u \<and> u \<le> 8202))"
  by (auto simp: js_ws_def)

lemma js_trim_id:
  "xs = [] \<or> \<not> js_ws (hd xs) \<and> \<not> js_ws (last xs) \<Longrightarrow> js_trim xs = xs"
proof -
  assume a: "xs = [] \<or> \<not> js_ws (hd xs) \<and> \<not> js_ws (last xs)"
  then have "dropWhile js_ws xs = xs" by (auto simp: dropWhile_eq_self_iff)
  moreover from a have "dropWhile js_ws (rev xs) = rev xs"
    by (auto simp: dropWhile_eq_self_iff hd_rev)
  ultimately show ?thesis by (simp add: js_trim_def)
qed

lemma js_trim_idem [simp]: "js_trim (js_trim s) = js_trim s"
proof (cases "js_trim s")
  case Nil
  have "js_trim [] = []" by (simp add: js_trim_def)
  with Nil show ?thesis by simp
next
  case (Cons u t)
  then have "\<not> js_ws (hd (js_trim s))" using js_trim_no_lead by simp
  moreover have "\<not> js_ws (last (js_trim s))"
    using Cons js_trim_no_trail by (metis append_butlast_last_id list.distinct(1))
  ultimately show ?thesis by (intro js_trim_id) simp
qed

lemma set_js_trim: "set (js_trim s) \<subseteq> set s"
  unfolding js_trim_def
  using set_dropWhile_sub [of js_ws "rev (dropWhile js_ws s)"] set_dropWhile_sub [of js_ws s]
  by auto

subsection \<open>replace with a one-unit pattern\<close>

text \<open>\<open>s.replace(',', '.')\<close>: a string pattern replaces its first occurrence only.\<close>

fun js_replace_first :: "nat \<Rightarrow> nat \<Rightarrow> jstr \<Rightarrow> jstr" where
  "js_replace_first a b [] = []"
| "js_replace_first a b (x # xs) =
     (if x = a then b # xs else x # js_replace_first a b xs)"

lemma js_replace_first_absent: "a \<notin> set s \<Longrightarrow> js_replace_first a b s = s"
  by (induction s) auto

lemma js_replace_first_split:
  "a \<notin> set p \<Longrightarrow> js_replace_first a b (p @ a # q) = p @ b # q"
  by (induction p) auto

lemma count_js_replace_first:
  "a \<noteq> b \<Longrightarrow> count_list (js_replace_first a b s) a = count_list s a - 1"
  by (induction s) auto

subsection \<open>toLowerCase\<close>

text \<open>
  The lower-case mapping of one code unit, from the Unicode data for
  U+0000 to U+017F: ASCII and Latin-1 capitals move by 32 (except U+00D7, the
  multiplication sign); Latin Extended-A pairs capitals with the next code unit,
  on even units in U+0100..U+012F, U+0132..U+0137 and U+014A..U+0177 and on odd
  units in U+0139..U+0148 and U+0179..U+017E; U+0130 becomes \<open>i\<close> followed by
  U+0307; U+0178 becomes U+00FF.
\<close>

definition lower_cu :: "nat \<Rightarrow> jstr" where
  "lower_cu u =
     (if 65 \<le> u \<and> u \<le> 90 then [u + 32]
      else if 192 \<le> u \<and> u \<le> 222 \<and> u \<noteq> 215 then [u + 32]
      else if u = 304 then [105, 775]
      else if u = 376 then [255]
      else if (256 \<le> u \<and> u \<le> 303 \<or> 306 \<le> u \<and> u \<le> 311 \<or> 330 \<le> u \<and> u \<le> 375)
              \<and> even u then [u + 1]
      else if (313 \<le> u \<and> u \<le> 328 \<or> 377 \<le> u \<and> u \<le> 382) \<and> odd u then [u + 1]
      else [u])"

definition js_toLowerCase :: "jstr \<Rightarrow> jstr" where
  "js_toLowerCase s = concat (map lower_cu s)"

lemma lower_cu_fixed: "v \<in> set (lower_cu u) \<Longrightarrow> lower_cu v = [v]"
  unfolding lower_cu_def
  by (simp split: if_splits; elim disjE conjE; simp; presburger)

lemma js_toLowerCase_idem [simp]: "js_toLowerCase (js_toLowerCase s) = js_toLowerCase s"
proof -
  have "\<And>v. v \<in> set (js_toLowerCase s) \<Longrightarrow> lower_cu v = [v]"
    by (auto simp: js_toLowerCase_def intro: lower_cu_fixed)
  then show ?thesis
    by (subst (1) js_toLowerCase_def) (rule concat_map_singleton_id)
qed

lemma lower_cu_ascii_punct:
  "u < 65 \<Longrightarrow> lower_cu u = [u]"
  by (simp add: lower_cu_def)

lemma lower_cu_keeps:
  "c < 65 \<Longrightarrow> c \<in> set (lower_cu u) \<longleftrightarrow> u = c"
  unfolding lower_cu_def by (auto split: if_splits)

lemma js_toLowerCase_member:
  "c < 65 \<Longrightarrow> c \<in> set (js_toLowerCase s) \<longleftrightarrow> c \<in> set s"
  by (auto simp: js_toLowerCase_def lower_cu_keeps)

subsection \<open>padStart with a one-unit filler\<close>

definition js_padStart :: "nat \<Rightarrow> nat \<Rightarrow> jstr \<Rightarrow> jstr" where
  "js_padStart n f s = replicate (n - length s) f @ s"

lemma length_js_padStart: "length (js_padStart n f s) = max n (length s)"
  by (simp add: js_padStart_def)

end
