(* ===== verification/JS_Number.thy ===== *)
theory JS_Number
  imports JS_String
begin

text \<open>
  The number builtins the cleaner calls: the conversion \<open>Number(s)\<close> of a string
  (ECMAScript StringToNumber: white space trimmed, the empty string is 0, decimal
  literals with fraction and exponent, \<open>Infinity\<close> with a sign, and
  \<open>0x\<close>/\<open>0o\<close>/\<open>0b\<close> literals; anything else is NaN), the arithmetic of
  \<open>convertToMinutes\<close> (\<open>+\<close>, \<open>*\<close>, \<open>/\<close>, \<open>Math.floor\<close>, \<open>Math.min\<close>), the
  relational comparison \<open>\<le>\<close>, and \<open>String(x)\<close> (Number::toString). Finite
  values are exact rationals: IEEE rounding is not modelled, which agrees with
  the double arithmetic whenever the values stay exactly representable (every
  integer below 2^53, so every field of an \<open>H:M:S\<close> of up to 15 digits), and the
  sign of a zero is not kept (it never shows in the cleaner's output). Lemmas:
  \<open>Number\<close> of a decimal digit string is its value, and \<open>String\<close> of a natural
  below 10^21 is its decimal digits, so the two are inverse on naturals.
\<close>

subsection \<open>Digits\<close>

definition is_dec_digit :: "nat \<Rightarrow> bool" where
  "is_dec_digit u \<longleftrightarrow> 48 \<le> u \<and> u \<le> 57"

definition digit_val :: "nat \<Rightarrow> nat \<Rightarrow> nat option" where
  "digit_val b u =
     (if 48 \<le> u \<and> u \<le> 57 \<and> u - 48 < b then Some (u - 48)
      else if 97 \<le> u \<and> u \<le> 122 \<and> u - 87 < b then Some (u - 87)
      else if 65 \<le> u \<and> u \<le> 90 \<and> u - 55 < b then Some (u - 55)
      else None)"

fun radix_val :: "nat \<Rightarrow> nat \<Rightarrow> jstr \<Rightarrow> nat option" where
  "radix_val b acc [] = Some acc"
| "radix_val b acc (u # us) =
     (case digit_val b u of None \<Rightarrow> None | Some d \<Rightarrow> radix_val b (acc * b + d) us)"

definition digval :: "jstr \<Rightarrow> nat" where
  "digval ds = foldl (\<lambda>acc u. acc * 10 + (u - 48)) 0 ds"

fun nat_digits :: "nat \<Rightarrow> jstr" where
  "nat_digits n = (if n < 10 then [48 + n] else nat_digits (n div 10) @ [48 + n mod 10])"

declare nat_digits.simps [simp del]

subsection \<open>Number(s)\<close>

definition pow10 :: "int \<Rightarrow> rat" where
  "pow10 e = (if 0 \<le> e then 10 ^ nat e else 1 / 10 ^ nat (- e))"

definition nonempty_radix :: "nat \<Rightarrow> jstr \<Rightarrow> nat option" where
  "nonempty_radix b ds = (if ds = [] then None else radix_val b 0 ds)"

text \<open>The optional exponent part \<open>e\<close>/\<open>E\<close>, an optional sign, one or more digits.\<close>

definition parse_exponent :: "jstr \<Rightarrow> int option" where
  "parse_exponent s =
     (if s = [] then Some 0
      else if hd s = 101 \<or> hd s = 69 then
        (let r = tl s in
         if r \<noteq> [] \<and> hd r = 43 then map_option int (nonempty_radix 10 (tl r))
         else if r \<noteq> [] \<and> hd r = 45 then map_option (\<lambda>n. - int n) (nonempty_radix 10 (tl r))
         else map_option int (nonempty_radix 10 r))
      else None)"

text \<open>StrUnsignedDecimalLiteral: \<open>Infinity\<close>, or digits with an optional fraction
  (at least one digit on either side of the point) and an optional exponent.\<close>

definition parse_unsigned_decimal :: "jstr \<Rightarrow> jsnum" where
  "parse_unsigned_decimal s =
     (if s = js ''Infinity'' then PosInf
      else
        let ip = takeWhile is_dec_digit s; r1 = dropWhile is_dec_digit s;
            fp = (if r1 \<noteq> [] \<and> hd r1 = 46 then takeWhile is_dec_digit (tl r1) else []);
            r2 = (if r1 \<noteq> [] \<and> hd r1 = 46 then dropWhile is_dec_digit (tl r1) else r1)
        in if ip = [] \<and> fp = [] then NaN
           else case parse_exponent r2 of
                  None \<Rightarrow> NaN
                | Some e \<Rightarrow> Fin (of_nat (digval (ip @ fp)) / 10 ^ length fp * pow10 e))"

definition non_decimal_radix :: "jstr \<Rightarrow> nat option" where
  "non_decimal_radix t =
     (if 2 \<le> length t \<and> t ! 0 = 48 then
        (if t ! 1 = 120 \<or> t ! 1 = 88 then Some 16
         else if t ! 1 = 111 \<or> t ! 1 = 79 then Some 8
         else if t ! 1 = 98 \<or> t ! 1 = 66 then Some 2
         else None)
      else None)"

fun js_neg :: "jsnum \<Rightarrow> jsnum" where
  "js_neg (Fin r) = Fin (- r)"
| "js_neg PosInf = NegInf"
| "js_neg NegInf = PosInf"
| "js_neg NaN = NaN"

definition js_string_to_number :: "jstr \<Rightarrow> jsnum" where
  "js_string_to_number s =
     (let t = js_trim s in
      if t = [] then Fin 0
      else case non_decimal_radix t of
        Some b \<Rightarrow> (case nonempty_radix b (drop 2 t) of None \<Rightarrow> NaN | Some n \<Rightarrow> Fin (of_nat n))
      | None \<Rightarrow>
          (if hd t = 43 then parse_unsigned_decimal (tl t)
           else if hd t = 45 then js_neg (parse_unsigned_decimal (tl t))
           else parse_unsigned_decimal t))"

subsection \<open>Evaluation tests\<close>

lemma js_string_to_number_tests:
  "js_string_to_number (js ''42'') = Fin 42"
  "js_string_to_number (js '' 07 '') = Fin 7"
  "js_string_to_number [] = Fin 0"
  "js_string_to_number (js ''1.5e1'') = Fin 15"
  "js_string_to_number (js ''-Infinity'') = NegInf"
  "js_string_to_number (js ''0x1A'') = Fin 26"
  "js_string_to_number (js ''abc'') = NaN"
  "js_string_to_number (js ''.'') = NaN"
  "js_string_to_number (js ''5e-1'') = Fin (1/2)"
  by (simp_all add: js_string_to_number_def js_trim_def js_ws_code non_decimal_radix_def
      parse_unsigned_decimal_def is_dec_digit_def parse_exponent_def nonempty_radix_def
      digit_val_def digval_def pow10_def)

declare is_dec_digit_def [js_eval] digit_val_def [js_eval] digval_def [js_eval]
  pow10_def [js_eval] nonempty_radix_def [js_eval] parse_exponent_def [js_eval]
  parse_unsigned_decimal_def [js_eval] non_decimal_radix_def [js_eval]
  js_string_to_number_def [js_eval] js_trim_def [js_eval]

subsection \<open>Arithmetic, Math.floor, Math.min, comparison\<close>

fun js_add :: "jsnum \<Rightarrow> jsnum \<Rightarrow> jsnum" where
  "js_add (Fin a) (Fin b) = Fin (a + b)"
| "js_add NaN y = NaN"
| "js_add x NaN = NaN"
| "js_add PosInf NegInf = NaN"
| "js_add NegInf PosInf = NaN"
| "js_add PosInf y = PosInf"
| "js_add NegInf y = NegInf"
| "js_add (Fin a) y = y"

fun js_mul :: "jsnum \<Rightarrow> jsnum \<Rightarrow> jsnum" where
  "js_mul (Fin a) (Fin b) = Fin (a * b)"
| "js_mul NaN y = NaN"
| "js_mul x NaN = NaN"
| "js_mul (Fin a) y = (if a = 0 then NaN else if 0 < a then y else js_neg y)"
| "js_mul x (Fin b) = (if b = 0 then NaN else if 0 < b then x else js_neg x)"
| "js_mul x y = (if x = y then PosInf else NegInf)"

text \<open>Division; the divisor of \<open>convertToMinutes\<close> is the constant 60.\<close>

fun js_div :: "jsnum \<Rightarrow> jsnum \<Rightarrow> jsnum" where
  "js_div (Fin a) (Fin b) =
     (if b \<noteq> 0 then Fin (a / b) else if a = 0 then NaN else if 0 < a then PosInf else NegInf)"
| "js_div NaN y = NaN"
| "js_div x NaN = NaN"
| "js_div (Fin a) y = Fin 0"
| "js_div x (Fin b) = (if 0 \<le> b then x else js_neg x)"
| "js_div x y = NaN"

fun js_floor :: "jsnum \<Rightarrow> jsnum" where
  "js_floor (Fin r) = Fin (of_int \<lfloor>r\<rfloor>)"
| "js_floor x = x"

text \<open>Abstract relational comparison \<open>x \<le> y\<close> on numbers: false when either is NaN.\<close>

fun js_le :: "jsnum \<Rightarrow> jsnum \<Rightarrow> bool" where
  "js_le NaN y = False"
| "js_le x NaN = False"
| "js_le NegInf y = True"
| "js_le x PosInf = True"
| "js_le (Fin a) (Fin b) = (a \<le> b)"
| "js_le x y = False"

fun js_lt :: "jsnum \<Rightarrow> jsnum \<Rightarrow> bool" where
  "js_lt NaN y = False"
| "js_lt x NaN = False"
| "js_lt (Fin a) (Fin b) = (a < b)"
| "js_lt NegInf y = (y \<noteq> NegInf)"
| "js_lt x PosInf = (x \<noteq> PosInf)"
| "js_lt x y = False"

text \<open>\<open>Math.min(x, y)\<close>: NaN if either argument is NaN, else the smaller.\<close>

definition js_min :: "jsnum \<Rightarrow> jsnum \<Rightarrow> jsnum" where
  "js_min x y = (if x = NaN \<or> y = NaN then NaN else if js_lt y x then y else x)"

declare js_min_def [js_eval]

lemma floor_rat_eval [js_eval]:
  "\<lfloor>(numeral a :: rat) / numeral b\<rfloor> = numeral a div numeral b"
  "\<lfloor>(1 :: rat) / numeral b\<rfloor> = 1 div numeral b"
  "\<lfloor>(- numeral a :: rat) / numeral b\<rfloor> = - numeral a div numeral b"
  using floor_divide_of_int_eq [of "numeral a" "numeral b", where 'a = rat]
    floor_divide_of_int_eq [of 1 "numeral b", where 'a = rat]
    floor_divide_of_int_eq [of "- numeral a" "numeral b", where 'a = rat]
  by simp_all

lemma js_min_le: "js_min x y = NaN \<or> js_le (js_min x y) y"
  by (cases x; cases y) (auto simp: js_min_def)

lemma js_min_NaN_iff: "js_min x y = NaN \<longleftrightarrow> x = NaN \<or> y = NaN"
  by (cases x; cases y) (auto simp: js_min_def)

lemma js_min_Fin [simp]: "js_min (Fin a) (Fin b) = Fin (min a b)"
  by (simp add: js_min_def min_def)

subsection \<open>String(x): Number::toString\<close>

function pow_count :: "nat \<Rightarrow> nat \<Rightarrow> nat" where
  "pow_count p n = (if 1 < p \<and> 0 < n \<and> n mod p = 0 then Suc (pow_count p (n div p)) else 0)"
  by pat_completeness auto
termination
  by (relation "measure (\<lambda>(p, n). n)") auto

declare pow_count.simps [simp del]

text \<open>
  A positive rational as \<open>N / 10^e\<close>: exactly when its denominator has no prime
  factor but 2 and 5 (every double, and every value the cleaner prints, is such a
  decimal); any other rational is cut after 20 decimal places.
\<close>

definition num_scaled :: "rat \<Rightarrow> nat \<times> nat" where
  "num_scaled r =
     (let (p, q) = quotient_of r; q' = nat q; a = pow_count 2 q'; b = pow_count 5 q'
      in if q' = 2 ^ a * 5 ^ b then (nat p * 10 ^ max a b div q', max a b)
         else (nat p * 10 ^ 20 div q', 20))"

text \<open>
  The layout of Number::toString (ECMA-262, step 5 onward) for the significant digits
  \<open>ds\<close> (\<open>k\<close> of them) and the decimal exponent \<open>n\<close>, the value being
  \<open>0.ds \<times> 10^n\<close>.
\<close>

definition num_format :: "jstr \<Rightarrow> int \<Rightarrow> jstr" where
  "num_format ds n =
     (let k = int (length ds) in
      if k \<le> n \<and> n \<le> 21 then ds @ replicate (nat (n - k)) 48
      else if 0 < n \<and> n \<le> 21 then take (nat n) ds @ 46 # drop (nat n) ds
      else if - 6 < n \<and> n \<le> 0 then 48 # 46 # replicate (nat (- n)) 48 @ ds
      else
        let e = n - 1;
            es = (if 0 \<le> e then 43 else 45) # nat_digits (nat \<bar>e\<bar>)
        in if k = 1 then ds @ 101 # es else hd ds # 46 # tl ds @ 101 # es)"

definition pos_to_string :: "rat \<Rightarrow> jstr" where
  "pos_to_string r =
     (let (N, e) = num_scaled r; t = pow_count 10 N; ds = nat_digits (N div 10 ^ t)
      in num_format ds (int (length ds) + int t - int e))"

fun js_number_to_string :: "jsnum \<Rightarrow> jstr" where
  "js_number_to_string NaN = js ''NaN''"
| "js_number_to_string PosInf = js ''Infinity''"
| "js_number_to_string NegInf = js ''-Infinity''"
| "js_number_to_string (Fin r) =
     (if r = 0 then js ''0'' else if r < 0 then 45 # pos_to_string (- r) else pos_to_string r)"

subsection \<open>Evaluation on numerals\<close>

text \<open>The recursive equations of \<open>nat_digits\<close> and \<open>pow_count\<close> restricted to
  numerals, so that evaluation by the simplifier stops on symbolic arguments.\<close>

lemma nat_digits_eval [js_eval]:
  "nat_digits 0 = [48]"
  "nat_digits (Suc 0) = [49]"
  "nat_digits (numeral k) =
     (if numeral k < (10::nat) then [48 + numeral k]
      else nat_digits (numeral k div 10) @ [48 + numeral k mod 10])"
  by (subst nat_digits.simps; simp)+

lemma pow_count_eval [js_eval]:
  "pow_count p 0 = 0"
  "pow_count p (Suc 0) = 0"
  "pow_count p (numeral k) =
     (if 1 < p \<and> numeral k mod p = 0 then Suc (pow_count p (numeral k div p)) else 0)"
  by (subst pow_count.simps; simp)+

subsection \<open>Decimal digits\<close>

lemma nat_digits_small [simp]: "n < 10 \<Longrightarrow> nat_digits n = [48 + n]"
  by (simp add: nat_digits.simps)

lemma nat_digits_times10: "0 < m \<Longrightarrow> nat_digits (m * 10) = nat_digits m @ [48]"
  by (subst nat_digits.simps) simp

lemma nat_digits_pow10:
  "0 < s \<Longrightarrow> nat_digits (s * 10 ^ t) = nat_digits s @ replicate t 48"
proof (induction t)
  case 0
  then show ?case by simp
next
  case (Suc t)
  have eq: "s * 10 ^ Suc t = (s * 10 ^ t) * 10" by simp
  have "nat_digits (s * 10 ^ Suc t) = nat_digits (s * 10 ^ t) @ [48]"
    unfolding eq by (rule nat_digits_times10) (simp add: Suc.prems)
  with Suc show ?case by (simp add: replicate_append_same)
qed

lemma length_nat_digits: "n < 10 ^ k \<Longrightarrow> 0 < k \<Longrightarrow> length (nat_digits n) \<le> k"
proof (induction n arbitrary: k rule: nat_digits.induct)
  case (1 n)
  show ?case
  proof (cases "n < 10")
    case False
    then obtain k' where k: "k = Suc k'" and "0 < k'"
      using "1.prems" by (cases k; cases "k - 1") auto
    with "1.prems" have "n div 10 < 10 ^ k'" by (simp add: less_mult_imp_div_less mult.commute)
    with False "1.IH" \<open>0 < k'\<close> k show ?thesis by (subst nat_digits.simps) simp
  qed (use "1.prems" in simp)
qed

lemma nat_digits_are_digits: "u \<in> set (nat_digits n) \<Longrightarrow> is_dec_digit u"
proof (induction n rule: nat_digits.induct)
  case (1 n)
  then show ?case
    by (cases "n < 10") (auto simp: is_dec_digit_def nat_digits.simps [of n])
qed

lemma nat_digits_not_Nil [simp]: "nat_digits n \<noteq> []"
  by (subst nat_digits.simps) simp

lemma digval_snoc: "digval (xs @ [u]) = digval xs * 10 + (u - 48)"
  by (simp add: digval_def)

lemma digval_nat_digits [simp]: "digval (nat_digits n) = n"
proof (induction n rule: nat_digits.induct)
  case (1 n)
  then show ?case
    by (cases "n < 10") (simp_all add: nat_digits.simps [of n] digval_snoc digval_def)
qed

lemma pow_count_dvd: "p ^ pow_count p n dvd n"
proof (induction p n rule: pow_count.induct)
  case (1 p n)
  then show ?case
    by (subst pow_count.simps) (auto simp: mult_dvd_mono dvd_mult_div_cancel
        intro: dvd_trans [of _ "p * (n div p)"] )
qed

subsection \<open>String and Number are inverse on naturals\<close>

lemma num_scaled_nat: "num_scaled (of_nat n) = (n, 0)"
proof -
  have "pow_count 2 1 = 0" "pow_count 5 1 = 0" by (simp_all add: pow_count.simps)
  then show ?thesis by (simp add: num_scaled_def)
qed

lemma pos_to_string_nat:
  assumes "0 < n" "n < 10 ^ 21"
  shows "pos_to_string (of_nat n) = nat_digits n"
proof -
  define t where "t = pow_count 10 n"
  define s where "s = n div 10 ^ t"
  have n_eq: "n = s * 10 ^ t"
    using pow_count_dvd [of 10 n] by (simp add: s_def t_def)
  with assms(1) have "0 < s" by (cases s) auto
  then have ds: "nat_digits n = nat_digits s @ replicate t 48"
    using n_eq nat_digits_pow10 by simp
  have "length (nat_digits n) \<le> 21"
    using assms(2) by (rule length_nat_digits) simp
  with ds have "length (nat_digits s) + t \<le> 21" by simp
  then have "num_format (nat_digits s) (int (length (nat_digits s)) + int t - int 0)
        = nat_digits s @ replicate t 48"
    by (simp add: num_format_def Let_def)
  with ds show ?thesis
    by (simp add: pos_to_string_def num_scaled_nat s_def t_def Let_def)
qed

text \<open>\<open>String(n)\<close> of a natural below 10^21 is its decimal digits.\<close>

theorem js_number_to_string_nat:
  "n < 10 ^ 21 \<Longrightarrow> js_number_to_string (Fin (of_nat n)) = nat_digits n"
  by (cases "n = 0") (simp_all add: pos_to_string_nat)

text \<open>\<open>Number(ds)\<close> of a non-empty decimal digit string is its value.\<close>

lemma is_dec_digit_not_ws: "is_dec_digit u \<Longrightarrow> \<not> js_ws u"
  by (auto simp: is_dec_digit_def js_ws_def)

lemma js_string_to_number_digits:
  assumes "ds \<noteq> []" "\<forall>u\<in>set ds. is_dec_digit u"
  shows "js_string_to_number ds = Fin (of_nat (digval ds))"
proof -
  have hd: "is_dec_digit (hd ds)" and lst: "is_dec_digit (last ds)"
    using assms by simp_all
  then have trim: "js_trim ds = ds"
    using assms(1) by (intro js_trim_id) (simp add: is_dec_digit_not_ws)
  have "2 \<le> length ds \<Longrightarrow> is_dec_digit (ds ! Suc 0)"
    using assms(2) nth_mem [of "Suc 0" ds] by auto
  then have "non_decimal_radix ds = None"
    by (auto simp: non_decimal_radix_def is_dec_digit_def)
  moreover have "hd ds \<noteq> 43" "hd ds \<noteq> 45" using hd by (auto simp: is_dec_digit_def)
  moreover have "ds \<noteq> js ''Infinity''" using hd by (auto simp: is_dec_digit_def)
  moreover have tw: "takeWhile is_dec_digit ds = ds" and dw: "dropWhile is_dec_digit ds = []"
    using assms(2) by simp_all
  ultimately show ?thesis
    using assms(1) trim
    by (simp add: js_string_to_number_def parse_unsigned_decimal_def parse_exponent_def
        pow10_def Let_def tw dw)
qed

lemma nat_digits_no_sep: "c < 48 \<or> 57 < c \<Longrightarrow> c \<notin> set (nat_digits n)"
  using nat_digits_are_digits [of c n] by (auto simp: is_dec_digit_def)

lemma length_nat_digits_ge: "10 ^ k \<le> n \<Longrightarrow> k < length (nat_digits n)"
proof (induction n arbitrary: k rule: nat_digits.induct)
  case (1 n)
  show ?case
  proof (cases k)
    case 0
    then show ?thesis by simp
  next
    case (Suc k')
    then have "10 ^ Suc k' \<le> n" using "1.prems" by simp
    moreover have "10 \<le> (10::nat) ^ Suc k'" by simp
    ultimately have big: "\<not> n < 10" by linarith
    have "10 ^ k' \<le> n div 10"
      using \<open>10 ^ Suc k' \<le> n\<close> by (simp add: less_eq_div_iff_mult_less_eq mult.commute)
    with big "1.IH" Suc show ?thesis by (subst nat_digits.simps) simp
  qed
qed

lemma length_nat_digits_eq:
  "10 ^ k \<le> n \<Longrightarrow> n < 10 ^ Suc k \<Longrightarrow> length (nat_digits n) = Suc k"
  using length_nat_digits [of n "Suc k"] length_nat_digits_ge [of k n] by simp

lemma digval_zeros: "digval (replicate k 48 @ ds) = digval ds"
proof -
  have "foldl (\<lambda>acc u. acc * 10 + (u - 48)) 0 (replicate k (48::nat)) = 0"
    by (induction k) simp_all
  then show ?thesis by (simp add: digval_def)
qed

text \<open>\<open>String(n).padStart(2, '0')\<close> for \<open>n < 100\<close>: two digits, of value \<open>n\<close>.\<close>

lemma pad2_nat:
  assumes "n < 100"
  shows "length (js_padStart 2 48 (nat_digits n)) = 2"
    and "list_all is_dec_digit (js_padStart 2 48 (nat_digits n))"
    and "digval (js_padStart 2 48 (nat_digits n)) = n"
proof -
  have "length (nat_digits n) \<le> 2" using assms by (intro length_nat_digits) simp_all
  then show "length (js_padStart 2 48 (nat_digits n)) = 2"
    by (simp add: js_padStart_def)
  show "list_all is_dec_digit (js_padStart 2 48 (nat_digits n))"
    by (auto simp: js_padStart_def list_all_iff is_dec_digit_def
        dest: nat_digits_are_digits)
  show "digval (js_padStart 2 48 (nat_digits n)) = n"
    by (simp add: js_padStart_def digval_zeros)
qed

end
