(* ===== verification/Minutes.thy ===== *)
theory Minutes
  imports JS_Number
begin

text \<open>
  \<open>convertToMinutes\<close> (\<^verbatim>\<open>src/cleaner.js\<close>, lines 11 to 25): a falsy argument
  gives 0; otherwise the string is split at \<open>:\<close>, every part converted with
  \<open>Number\<close>, three parts read as hours, minutes, seconds and two as minutes,
  seconds, any other count as 0 minutes; the result is capped by \<open>Math.min(.., 60)\<close>.
  A truthy argument that is not a string has no \<open>split\<close> method, and the call
  throws a TypeError. Lemmas: the result on a string is never an error and never
  above 60 (it may be NaN); on digit fields it is \<open>min (H*60 + M + S div 60) 60\<close>
  and \<open>min (M + S div 60) 60\<close>.
\<close>

definition minutes_of_parts :: "jsnum list \<Rightarrow> jsnum" where
  "minutes_of_parts parts =
     (if length parts = 3 then
        js_add (js_add (js_mul (parts ! 0) (Fin 60)) (parts ! 1))
               (js_floor (js_div (parts ! 2) (Fin 60)))
      else if length parts = 2 then
        js_add (parts ! 0) (js_floor (js_div (parts ! 1) (Fin 60)))
      else Fin 0)"

definition convertToMinutes :: "jsval option \<Rightarrow> js_error + jsnum" where
  "convertToMinutes timeString =
     (if \<not> truthy timeString then Inr (Fin 0)
      else case timeString of
        Some (VStr s) \<Rightarrow>
          Inr (js_min (minutes_of_parts (map js_string_to_number (js_split 58 s))) (Fin 60))
      | _ \<Rightarrow> Inl (TypeError ''timeString.split is not a function''))"

declare minutes_of_parts_def [js_eval] convertToMinutes_def [js_eval]

text \<open>The reference of spec section 4.1, step 3: three fields \<open>H*60 + M + S div 60\<close>,
  two fields \<open>M + S div 60\<close>, any other count 0, capped at 60.\<close>

definition spec_minutes :: "nat list \<Rightarrow> nat" where
  "spec_minutes ns =
     min (case ns of [h, m, s] \<Rightarrow> h * 60 + m + s div 60 | [m, s] \<Rightarrow> m + s div 60 | _ \<Rightarrow> 0) 60"

subsection \<open>Lemmas\<close>

lemma convertToMinutes_VStr:
  "convertToMinutes (Some (VStr s)) =
     Inr (if s = [] then Fin 0
          else js_min (minutes_of_parts (map js_string_to_number (js_split 58 s))) (Fin 60))"
  by (simp add: convertToMinutes_def)

lemma digits_no_colon: "\<forall>u\<in>set ds. is_dec_digit u \<Longrightarrow> 58 \<notin> set ds"
  by (auto simp: is_dec_digit_def)

lemma floor_div60_nat [simp]:
  "rat_of_int \<lfloor>rat_of_nat s / 60\<rfloor> = rat_of_nat (s div 60)"
proof -
  have "\<lfloor>(of_nat s :: rat) / of_nat 60\<rfloor> = of_nat (s div 60)"
    by (rule floor_divide_of_nat_eq)
  then show ?thesis by simp
qed

lemma min60_nat: "js_min (Fin (of_nat m)) (Fin 60) = Fin (of_nat (min m 60))"
  by (simp add: min_def)

text \<open>The arithmetic of lines 16 to 24 on natural fields is the reference.\<close>

lemma minutes_of_parts_nat:
  "js_min (minutes_of_parts (map (\<lambda>n. Fin (of_nat n)) ns)) (Fin 60) = Fin (of_nat (spec_minutes ns))"
proof (cases ns)
  case (Cons a t)
  show ?thesis
  proof (cases t)
    case (Cons b u)
    show ?thesis
    proof (cases u)
      case (Cons c v)
      with \<open>ns = a # t\<close> \<open>t = b # u\<close> show ?thesis
        by (cases v) (simp_all add: minutes_of_parts_def spec_minutes_def min_def)
    qed (use \<open>ns = a # t\<close> \<open>t = b # u\<close> in \<open>simp add: minutes_of_parts_def spec_minutes_def min_def\<close>)
  qed (use \<open>ns = a # t\<close> in \<open>simp add: minutes_of_parts_def spec_minutes_def\<close>)
qed (simp add: minutes_of_parts_def spec_minutes_def)

lemma map_digits_to_number:
  "\<forall>f\<in>set fs. f \<noteq> [] \<and> (\<forall>u\<in>set f. is_dec_digit u) \<Longrightarrow>
   map js_string_to_number fs = map (\<lambda>n. Fin (of_nat n)) (map digval fs)"
  by (simp add: js_string_to_number_digits)

text \<open>C23: the cap. On every string the result is a number, never an error, and
  it is at most 60 unless it is NaN.\<close>

theorem convertToMinutes_string_bounded:
  "\<exists>v. convertToMinutes (Some (VStr s)) = Inr v \<and> (v = NaN \<or> js_le v (Fin 60))"
  using js_min_le by (auto simp: convertToMinutes_VStr)

text \<open>C21: \<open>convertToMinutes\<close> computes the reference of spec section 4.1 on every
  string of colon-separated non-empty decimal digit fields, whatever their count.\<close>

theorem convertToMinutes_spec:
  assumes "fs \<noteq> []" "\<forall>f\<in>set fs. f \<noteq> [] \<and> (\<forall>u\<in>set f. is_dec_digit u)"
  shows "convertToMinutes (Some (VStr (js_join 58 fs))) =
           Inr (Fin (of_nat (spec_minutes (map digval fs))))"
proof -
  have split: "js_split 58 (js_join 58 fs) = fs"
    using assms by (intro js_split_join) (auto simp: digits_no_colon)
  obtain f fs' where f: "fs = f # fs'" "f \<noteq> []" using assms by (cases fs) auto
  then have "js_join 58 fs \<noteq> []" by (cases fs') auto
  moreover have "js_min (minutes_of_parts (map js_string_to_number fs)) (Fin 60) =
      Fin (of_nat (spec_minutes (map digval fs)))"
    unfolding map_digits_to_number [OF assms(2)] by (rule minutes_of_parts_nat)
  ultimately show ?thesis by (simp add: convertToMinutes_VStr split)
qed

text \<open>The examples of spec section 8.3: \<open>01:02:30\<close> is 62 minutes capped to 60,
  \<open>00:10:00\<close> is 10, \<open>5:30\<close> is 5, and an empty or missing field is 0.\<close>

lemma convertToMinutes_spec_examples:
  "convertToMinutes (Some (VStr (js ''01:02:30''))) = Inr (Fin 60)
   \<and> convertToMinutes (Some (VStr (js ''00:10:00''))) = Inr (Fin 10)
   \<and> convertToMinutes (Some (VStr (js ''5:30''))) = Inr (Fin 5)
   \<and> convertToMinutes (Some (VStr [])) = Inr (Fin 0)
   \<and> convertToMinutes None = Inr (Fin 0)"
  by (simp add: js_eval)

text \<open>The result is not kept within 0..60 as spec section 3 says: a negative field
  gives a negative count, a non-numeric field gives NaN, and four fields give 0.\<close>

lemma convertToMinutes_outside_spec:
  "convertToMinutes (Some (VStr (js ''-5:00''))) = Inr (Fin (- 5))
   \<and> convertToMinutes (Some (VStr (js ''ab:cd''))) = Inr NaN
   \<and> convertToMinutes (Some (VStr (js ''1:2:3:4''))) = Inr (Fin 0)"
  by (simp add: js_eval)

end
