(* ===== verification/Email.thy ===== *)
theory Email
  imports JS_String
begin

text \<open>
  \<open>cleanEmail\<close> (\<^verbatim>\<open>src/cleaner.js\<close>, lines 28 to 33) and the regular expression
  \<^verbatim>\<open>/^[^@]+@[^@]+\.[^@]+$/\<close> it tests. The regular expression is data: a list of
  pieces, each a one-unit atom (a literal or a negated class) taken once or one or
  more times (\<open>+\<close>); \<open>^\<close> and \<open>$\<close> without the \<open>m\<close> flag anchor the
  whole string, so \<open>test\<close> is membership of the whole string in the pattern's
  language, decided by the backtracking matcher \<open>rx_match\<close>. Lemmas: the matcher
  accepts exactly the strings \<open>a @ b . c\<close> with non-empty \<open>@\<close>-free \<open>a\<close>,
  \<open>b\<close>, \<open>c\<close>; \<open>cleanEmail\<close> returns the normalised string or \<open>None\<close>, never
  anything for a non-string; what it returns has one \<open>@\<close>, is lower case and
  trimmed, and cleaning it again (when no comma is left) returns it unchanged.
\<close>

subsection \<open>The regular expression\<close>

datatype atom = Lit nat | NotIn "nat list"

datatype piece = One atom | Plus atom

fun atom_ok :: "atom \<Rightarrow> nat \<Rightarrow> bool" where
  "atom_ok (Lit c) u = (u = c)"
| "atom_ok (NotIn cs) u = (u \<notin> set cs)"

fun rx_match :: "piece list \<Rightarrow> jstr \<Rightarrow> bool" where
  "rx_match [] s = (s = [])"
| "rx_match (One a # ps) [] = False"
| "rx_match (One a # ps) (u # s) = (atom_ok a u \<and> rx_match ps s)"
| "rx_match (Plus a # ps) [] = False"
| "rx_match (Plus a # ps) (u # s) =
     (atom_ok a u \<and> (rx_match ps s \<or> rx_match (Plus a # ps) s))"

text \<open>\<^verbatim>\<open>/^[^@]+@[^@]+\.[^@]+$/\<close>; 64 is \<open>@\<close>, 46 is \<open>.\<close>.\<close>

definition email_regex :: "piece list" where
  "email_regex = [Plus (NotIn [64]), One (Lit 64), Plus (NotIn [64]), One (Lit 46),
                  Plus (NotIn [64])]"

subsection \<open>cleanEmail\<close>

definition normalise_email :: "jstr \<Rightarrow> jstr" where
  "normalise_email e = js_toLowerCase (js_trim (js_replace_first 44 46 e))"

definition cleanEmail :: "jsval option \<Rightarrow> jstr option" where
  "cleanEmail email =
     (case email of
        Some (VStr e) \<Rightarrow>
          (let cleaned = normalise_email e in
           if rx_match email_regex cleaned then Some cleaned else None)
      | _ \<Rightarrow> None)"

declare email_regex_def [js_eval] normalise_email_def [js_eval] cleanEmail_def [js_eval]
  js_toLowerCase_def [js_eval] lower_cu_def [js_eval]

text \<open>The language of the pattern, stated without the matcher.\<close>

definition email_shape :: "jstr \<Rightarrow> bool" where
  "email_shape s \<longleftrightarrow>
     (\<exists>a b c. a \<noteq> [] \<and> b \<noteq> [] \<and> c \<noteq> [] \<and> 64 \<notin> set a \<and> 64 \<notin> set b \<and> 64 \<notin> set c
        \<and> s = a @ 64 # b @ 46 # c)"

subsection \<open>The matcher decides the pattern's language\<close>

lemma rx_match_One:
  "rx_match (One x # ps) s \<longleftrightarrow> (\<exists>u r. s = u # r \<and> atom_ok x u \<and> rx_match ps r)"
  by (cases s) auto

lemma rx_match_Plus:
  "rx_match (Plus x # ps) s \<longleftrightarrow>
     (\<exists>a r. a \<noteq> [] \<and> (\<forall>u\<in>set a. atom_ok x u) \<and> s = a @ r \<and> rx_match ps r)"
proof (induction s)
  case Nil
  then show ?case by simp
next
  case (Cons u s)
  show ?case
  proof
    assume "rx_match (Plus x # ps) (u # s)"
    then have ok: "atom_ok x u" and d: "rx_match ps s \<or> rx_match (Plus x # ps) s"
      by simp_all
    from d show "\<exists>a r. a \<noteq> [] \<and> (\<forall>u\<in>set a. atom_ok x u) \<and> u # s = a @ r \<and> rx_match ps r"
    proof
      assume "rx_match ps s"
      with ok show ?thesis by (intro exI [of _ "[u]"] exI [of _ s]) simp
    next
      assume "rx_match (Plus x # ps) s"
      with Cons.IH obtain a r where "a \<noteq> []" "\<forall>u\<in>set a. atom_ok x u" "s = a @ r"
        "rx_match ps r" by blast
      with ok show ?thesis by (intro exI [of _ "u # a"] exI [of _ r]) simp
    qed
  next
    assume "\<exists>a r. a \<noteq> [] \<and> (\<forall>u\<in>set a. atom_ok x u) \<and> u # s = a @ r \<and> rx_match ps r"
    then obtain a r where a: "a \<noteq> []" "\<forall>u\<in>set a. atom_ok x u" "u # s = a @ r"
      and r: "rx_match ps r" by blast
    show "rx_match (Plus x # ps) (u # s)"
    proof (cases a)
      case (Cons v a')
      with a have v: "s = a' @ r" "atom_ok x u" "\<forall>w\<in>set a'. atom_ok x w" by auto
      show ?thesis
      proof (cases "a' = []")
        case True
        with v r show ?thesis by simp
      next
        case False
        with v r Cons.IH have "rx_match (Plus x # ps) s" by blast
        with v show ?thesis by simp
      qed
    qed (use a in simp)
  qed
qed

text \<open>\<open>regex.test\<close> for \<^verbatim>\<open>/^[^@]+@[^@]+\.[^@]+$/\<close> accepts exactly
  the strings \<open>a @ b . c\<close> whose three parts are non-empty and free of \<open>@\<close>.\<close>

theorem email_regex_language: "rx_match email_regex s \<longleftrightarrow> email_shape s"
  unfolding email_regex_def email_shape_def
  by (simp add: rx_match_One rx_match_Plus) blast

lemma email_shape_one_at: "email_shape s \<Longrightarrow> count_list s 64 = 1"
  by (auto simp: email_shape_def count_list_0_iff)

lemma lower_cu_not_Nil [simp]: "lower_cu u \<noteq> []"
  by (simp add: lower_cu_def)

lemma lower_cu_ws: "v \<in> set (lower_cu u) \<Longrightarrow> js_ws v \<Longrightarrow> v = u"
  unfolding lower_cu_def js_ws_def by (auto split: if_splits)

lemma hd_js_toLowerCase:
  "t \<noteq> [] \<Longrightarrow> hd (js_toLowerCase t) \<in> set (lower_cu (hd t))"
  by (cases t) (auto simp: js_toLowerCase_def)

lemma last_js_toLowerCase:
  "t \<noteq> [] \<Longrightarrow> last (js_toLowerCase t) \<in> set (lower_cu (last t))"
  by (induction t) (auto simp: js_toLowerCase_def)

lemma js_toLowerCase_Nil [simp]: "js_toLowerCase [] = []"
  by (simp add: js_toLowerCase_def)

lemma js_toLowerCase_Nil_iff [simp]: "js_toLowerCase t = [] \<longleftrightarrow> t = []"
  by (simp add: js_toLowerCase_def)

text \<open>Lower-casing a trimmed string leaves it trimmed.\<close>

lemma js_trim_lower_trim: "js_trim (js_toLowerCase (js_trim s)) = js_toLowerCase (js_trim s)"
proof (cases "js_trim s")
  case Nil
  have "js_trim [] = []" by (simp add: js_trim_def)
  with Nil show ?thesis by simp
next
  case (Cons u t)
  then have ne: "js_trim s \<noteq> []" by simp
  have nl: "\<not> js_ws (hd (js_trim s))" using Cons js_trim_no_lead by simp
  have nt: "\<not> js_ws (last (js_trim s))"
    using Cons js_trim_no_trail by (metis append_butlast_last_id list.distinct(1))
  have "\<not> js_ws (hd (js_toLowerCase (js_trim s)))"
    using hd_js_toLowerCase [OF ne] nl lower_cu_ws by metis
  moreover have "\<not> js_ws (last (js_toLowerCase (js_trim s)))"
    using last_js_toLowerCase [OF ne] nt lower_cu_ws by metis
  ultimately show ?thesis by (intro js_trim_id) simp
qed

lemma normalise_email_trimmed: "js_trim (normalise_email e) = normalise_email e"
  by (simp add: normalise_email_def js_trim_lower_trim)

lemma normalise_email_lower: "js_toLowerCase (normalise_email e) = normalise_email e"
  by (simp add: normalise_email_def)

subsection \<open>cleanEmail\<close>

text \<open>C18: on a string, \<open>cleanEmail\<close> replaces the first comma by a period,
  trims, lower-cases, and returns the result exactly when it has the shape
  \<open>a@b.c\<close>; on anything else (a missing field or a number) it returns null.\<close>

theorem cleanEmail_spec:
  "cleanEmail (Some (VStr e)) =
     (if email_shape (normalise_email e) then Some (normalise_email e) else None)
   \<and> cleanEmail None = None \<and> cleanEmail (Some (VNum n)) = None"
  by (simp add: cleanEmail_def email_regex_language)

lemma cleanEmail_Some:
  "cleanEmail x = Some c \<Longrightarrow>
   \<exists>e. x = Some (VStr e) \<and> c = normalise_email e \<and> email_shape c"
  by (auto simp: cleanEmail_def email_regex_language Let_def
      split: option.splits jsval.splits if_splits)

text \<open>C19: what \<open>cleanEmail\<close> returns has one \<open>@\<close>, the pattern's shape, and is
  its own lower-case form and its own trim.\<close>

theorem cleanEmail_result:
  "cleanEmail x = Some c \<Longrightarrow>
     email_shape c \<and> count_list c 64 = 1 \<and> js_toLowerCase c = c \<and> js_trim c = c"
  by (auto dest!: cleanEmail_Some simp: normalise_email_trimmed normalise_email_lower
      email_shape_one_at)

text \<open>C20: cleaning a cleaned address that holds no comma returns it unchanged.\<close>

theorem cleanEmail_idem:
  "cleanEmail x = Some c \<Longrightarrow> 44 \<notin> set c \<Longrightarrow> cleanEmail (Some (VStr c)) = Some c"
proof -
  assume r: "cleanEmail x = Some c" and nc: "44 \<notin> set c"
  from r obtain e where shape: "email_shape c" and c: "c = normalise_email e"
    by (blast dest: cleanEmail_Some)
  then have low: "js_toLowerCase c = c" and tr: "js_trim c = c"
    by (simp_all add: normalise_email_lower normalise_email_trimmed)
  have "normalise_email c = c"
    using nc low tr by (simp add: normalise_email_def js_replace_first_absent)
  with shape show ?thesis by (simp add: cleanEmail_def email_regex_language)
qed

end
