(* ===== verification/Calendar.thy ===== *)
theory Calendar
  imports JS_Number "HOL-Library.Product_Lexorder"
begin

text \<open>
  The part of the JavaScript \<open>Date\<close> the cleaner uses. Time values are
  milliseconds since 1970-01-01T00:00Z, computed as ECMA-262 does: \<open>DayFromYear\<close>,
  the day of the year of a month's first day, \<open>MakeDay\<close> (which lets a day number
  run over into the next month, as \<open>new Date\<close> does for \<open>31\<close> in a 30-day month),
  \<open>MakeTime\<close>, \<open>MakeDate\<close> and \<open>TimeClip\<close>. The local time zone is a parameter
  \<open>tz\<close>: the offset in milliseconds of local time from UTC at a given local time
  value (ECMA-262's LocalTZA), so that daylight saving time is covered. The
  constructor \<open>new Date(str)\<close> is modelled for the strings
  \<open>Y-M-DTHH:MM:SS\<close> the cleaner builds. V8 reads them with its ECMA-262 Date Time
  String Format parser: a four-digit year, a two-digit month and day, two-digit
  hour, minute and second, month 1..12, day 1..31, hour 0..23 with minute and
  second 0..59, or 24:00:00; such a string without offset is local time. Where
  that parser stops (a month or day of one digit, a year of other than four), V8
  falls back to its legacy parser, which rejects the word \<open>T\<close> after a number:
  every such string is an invalid date (time value NaN). Lemmas: \<open>DayFromYear\<close> steps by the length of the year, and on
  calendar dates the time value is strictly monotone in the lexicographic order of
  (year, month, day, hour, minute).
\<close>

subsection \<open>Days\<close>

definition leap :: "int \<Rightarrow> bool" where
  "leap y \<longleftrightarrow> (y mod 4 = 0 \<and> y mod 100 \<noteq> 0) \<or> y mod 400 = 0"

definition day_from_year :: "int \<Rightarrow> int" where
  "day_from_year y =
     365 * (y - 1970) + (y - 1969) div 4 - (y - 1901) div 100 + (y - 1601) div 400"

definition days_in_month :: "int \<Rightarrow> nat \<Rightarrow> nat" where
  "days_in_month y m =
     (if m = 2 then (if leap y then 29 else 28)
      else if m = 4 \<or> m = 6 \<or> m = 9 \<or> m = 11 then 30 else 31)"

text \<open>Days of the year \<open>y\<close> before the first of month \<open>m\<close> (1-based).\<close>

definition month_start :: "int \<Rightarrow> nat \<Rightarrow> nat" where
  "month_start y m = sum_list (map (days_in_month y) [1..<m])"

text \<open>\<open>MakeDay(year, month, date)\<close>, the month counted from 0.\<close>

definition make_day :: "int \<Rightarrow> int \<Rightarrow> int \<Rightarrow> int" where
  "make_day y mn dt =
     (let ym = y + mn div 12; m = nat (mn mod 12) in
      day_from_year ym + int (month_start ym (m + 1)) + dt - 1)"

definition ms_per_day :: int where
  "ms_per_day = 86400000"

definition make_time :: "int \<Rightarrow> int \<Rightarrow> int \<Rightarrow> int \<Rightarrow> int" where
  "make_time h m s ms = h * 3600000 + m * 60000 + s * 1000 + ms"

definition make_date :: "int \<Rightarrow> int \<Rightarrow> int" where
  "make_date day time = day * ms_per_day + time"

definition time_clip :: "int \<Rightarrow> jsnum" where
  "time_clip t = (if \<bar>t\<bar> \<le> 8640000000000000 then Fin (of_int t) else NaN)"

declare leap_def [js_eval] day_from_year_def [js_eval] days_in_month_def [js_eval]
  month_start_def [js_eval] make_day_def [js_eval] ms_per_day_def [js_eval]
  make_time_def [js_eval] make_date_def [js_eval] time_clip_def [js_eval]
  upt_conv_Cons [js_eval]

subsection \<open>Years\<close>

lemma div_succ:
  fixes a k :: int
  assumes k: "1 < k"
  shows "(a + 1) div k = a div k + (if (a + 1) mod k = 0 then 1 else 0)"
proof -
  have r: "0 \<le> a mod k" "a mod k < k" using k by simp_all
  have d: "(a + 1) div k = a div k + (a mod k + 1) div k"
    using k by (simp add: div_add1_eq [of a 1 k] mod_pos_pos_trivial div_pos_pos_trivial)
  have m: "(a + 1) mod k = (a mod k + 1) mod k"
    by (simp add: mod_add_left_eq)
  show ?thesis
  proof (cases "a mod k + 1 = k")
    case True
    then show ?thesis using d m k by simp
  next
    case False
    then have "a mod k + 1 < k" using r by simp
    then have "(a mod k + 1) div k = 0" "(a mod k + 1) mod k = a mod k + 1"
      using r by (simp_all add: div_pos_pos_trivial mod_pos_pos_trivial)
    then show ?thesis using d m r by simp
  qed
qed

lemma mod_shift:
  fixes y c k :: int
  shows "(y + c * k) mod k = y mod k"
  by (rule mod_mult_self1)

text \<open>The year after \<open>y\<close> starts 365 days later, or 366 after a leap year.\<close>

theorem day_from_year_step:
  "day_from_year (y + 1) = day_from_year y + (if leap y then 366 else 365)"
proof -
  have e4: "(y - 1969 + 1) mod 4 = y mod 4"
    using mod_shift [of y "- 492" 4] by simp
  have e100: "(y - 1901 + 1) mod 100 = y mod 100"
    using mod_shift [of y "- 19" 100] by simp
  have e400: "(y - 1601 + 1) mod 400 = y mod 400"
    using mod_shift [of y "- 4" 400] by simp
  have f1: "(y + 1 - 1969) div 4 = (y - 1969) div 4 + (if y mod 4 = 0 then 1 else 0)"
    using div_succ [of 4 "y - 1969"] e4 by (simp add: algebra_simps)
  have f2: "(y + 1 - 1901) div 100 = (y - 1901) div 100 + (if y mod 100 = 0 then 1 else 0)"
    using div_succ [of 100 "y - 1901"] e100 by (simp add: algebra_simps)
  have f3: "(y + 1 - 1601) div 400 = (y - 1601) div 400 + (if y mod 400 = 0 then 1 else 0)"
    using div_succ [of 400 "y - 1601"] e400 by (simp add: algebra_simps)
  have step: "day_from_year (y + 1) = day_from_year y + 365 + (if y mod 4 = 0 then 1 else 0)
      - (if y mod 100 = 0 then 1 else 0) + (if y mod 400 = 0 then 1 else 0)"
    unfolding day_from_year_def f1 f2 f3 by (simp add: algebra_simps)
  have "y mod 400 = 0 \<Longrightarrow> y mod 100 = 0"
    using dvd_trans [of 100 400 y] by (simp add: dvd_eq_mod_eq_0)
  moreover have "y mod 100 = 0 \<Longrightarrow> y mod 4 = 0"
    using dvd_trans [of 4 100 y] by (simp add: dvd_eq_mod_eq_0)
  ultimately show ?thesis
    unfolding step leap_def by auto
qed

subsection \<open>Calendar dates\<close>

definition days_in_year :: "int \<Rightarrow> nat" where
  "days_in_year y = (if leap y then 366 else 365)"

definition valid_date :: "int \<Rightarrow> nat \<Rightarrow> nat \<Rightarrow> bool" where
  "valid_date y m d \<longleftrightarrow> 1 \<le> m \<and> m \<le> 12 \<and> 1 \<le> d \<and> d \<le> days_in_month y m"

text \<open>The day number of the calendar date \<open>y-m-d\<close> (month from 1), as
  \<open>new Date\<close> computes it: \<open>MakeDay(y, m - 1, d)\<close>.\<close>

definition civil_day :: "int \<Rightarrow> nat \<Rightarrow> nat \<Rightarrow> int" where
  "civil_day y m d = make_day y (int m - 1) (int d)"

lemma month_start_Suc:
  "1 \<le> m \<Longrightarrow> month_start y (Suc m) = month_start y m + days_in_month y m"
  by (simp add: month_start_def upt_Suc_append)

lemma month_start_13: "month_start y 13 = days_in_year y"
  by (simp add: month_start_def days_in_month_def days_in_year_def upt_conv_Cons)

lemma month_start_mono: "m \<le> m' \<Longrightarrow> month_start y m \<le> month_start y m'"
proof (rule lift_Suc_mono_le [of "month_start y"])
  show "month_start y n \<le> month_start y (Suc n)" for n
    by (cases "1 \<le> n") (simp_all add: month_start_Suc month_start_def)
qed

lemma civil_day_eq:
  "1 \<le> m \<Longrightarrow> m \<le> 12 \<Longrightarrow> civil_day y m d = day_from_year y + int (month_start y m) + int d - 1"
proof -
  assume m: "1 \<le> m" "m \<le> 12"
  then have "(int m - 1) div 12 = 0" "(int m - 1) mod 12 = int m - 1" by simp_all
  moreover have "Suc (nat (int m - 1)) = m" using m by simp
  ultimately show ?thesis by (simp add: civil_day_def make_day_def)
qed

lemma day_from_year_next:
  "day_from_year (y + 1) = day_from_year y + int (days_in_year y)"
  by (simp add: day_from_year_step days_in_year_def)

lemma day_from_year_gap:
  "y < y' \<Longrightarrow> day_from_year y + int (days_in_year y) \<le> day_from_year y'"
proof -
  have "day_from_year y + int (days_in_year y) \<le> day_from_year (y + 1 + int n)" for n
  proof (induction n)
    case 0
    then show ?case by (simp add: day_from_year_next)
  next
    case (Suc n)
    have "day_from_year (y + 1 + int (Suc n)) = day_from_year (y + 1 + int n)
        + int (days_in_year (y + 1 + int n))"
      using day_from_year_next [of "y + 1 + int n"] by (simp add: add.assoc)
    with Suc show ?case by simp
  qed
  moreover assume "y < y'"
  then have "y' = y + 1 + int (nat (y' - y - 1))" by simp
  ultimately show ?thesis by metis
qed

lemma civil_day_bounds:
  assumes "valid_date y m d"
  shows "day_from_year y \<le> civil_day y m d"
    and "civil_day y m d < day_from_year y + int (days_in_year y)"
    and "civil_day y m d < day_from_year y + int (month_start y (Suc m))"
proof -
  from assms have m: "1 \<le> m" "m \<le> 12" and d: "1 \<le> d" "d \<le> days_in_month y m"
    by (auto simp: valid_date_def)
  have c: "civil_day y m d = day_from_year y + int (month_start y m) + int d - 1"
    using m by (rule civil_day_eq)
  have s: "month_start y (Suc m) = month_start y m + days_in_month y m"
    using m(1) by (rule month_start_Suc)
  have "month_start y (Suc m) \<le> month_start y 13"
    using m by (intro month_start_mono) simp
  then show "day_from_year y \<le> civil_day y m d"
    and "civil_day y m d < day_from_year y + int (days_in_year y)"
    and "civil_day y m d < day_from_year y + int (month_start y (Suc m))"
    using c s d by (simp_all add: month_start_13)
qed

text \<open>On calendar dates, a lexicographically earlier date has a smaller day number.\<close>

lemma civil_day_strict_mono:
  assumes v: "valid_date y m d" "valid_date y' m' d'"
    and lt: "(y, m, d) < (y', m', d')"
  shows "civil_day y m d < civil_day y' m' d'"
proof -
  have m': "1 \<le> m'" "m' \<le> 12" "1 \<le> d'" using v(2) by (auto simp: valid_date_def)
  from lt have "y < y' \<or> y = y' \<and> m < m' \<or> y = y' \<and> m = m' \<and> d < d'"
    by (auto simp: le_less)
  then consider (y) "y < y'" | (m) "y = y'" "m < m'" | (d) "y = y'" "m = m'" "d < d'"
    by blast
  then show ?thesis
  proof cases
    case y
    then show ?thesis
      using civil_day_bounds(2) [OF v(1)] civil_day_bounds(1) [OF v(2)]
        day_from_year_gap [of y y'] by linarith
  next
    case m
    have "month_start y (Suc m) \<le> month_start y m'"
      using m by (intro month_start_mono) simp
    then show ?thesis
      using m civil_day_bounds(3) [OF v(1)] civil_day_eq [of m' y' d'] m' by simp
  next
    case d
    then show ?thesis
      using m' by (simp add: civil_day_eq)
  qed
qed

text \<open>Comparing \<open>a * K + t\<close> with \<open>t\<close> in \<open>[0, K)\<close> is comparing \<open>(a, t)\<close>.\<close>

lemma mixed_radix_less:
  fixes a a' t t' K :: int
  assumes "0 \<le> t" "t < K" "0 \<le> t'" "t' < K"
  shows "a * K + t < a' * K + t' \<longleftrightarrow> a < a' \<or> a = a' \<and> t < t'"
proof
  assume h: "a * K + t < a' * K + t'"
  show "a < a' \<or> a = a' \<and> t < t'"
  proof (rule ccontr)
    assume "\<not> (a < a' \<or> a = a' \<and> t < t')"
    then have "a' < a \<or> a = a' \<and> t' \<le> t" by auto
    then show False
    proof
      assume "a' < a"
      then have "(a' + 1) * K \<le> a * K" using assms by (intro mult_right_mono) simp_all
      with h assms show False by (simp add: algebra_simps)
    qed (use h in simp)
  qed
next
  assume "a < a' \<or> a = a' \<and> t < t'"
  then show "a * K + t < a' * K + t'"
  proof
    assume "a < a'"
    then have "(a + 1) * K \<le> a' * K" using assms by (intro mult_right_mono) simp_all
    with assms show ?thesis by (simp add: algebra_simps)
  qed simp
qed

theorem civil_day_less_iff:
  assumes v: "valid_date y m d" "valid_date y' m' d'"
  shows "civil_day y m d < civil_day y' m' d' \<longleftrightarrow> (y, m, d) < (y', m', d')"
proof
  assume c: "civil_day y m d < civil_day y' m' d'"
  show "(y, m, d) < (y', m', d')"
  proof (rule ccontr)
    assume "\<not> (y, m, d) < (y', m', d')"
    then have "(y', m', d') = (y, m, d) \<or> (y', m', d') < (y, m, d)" by auto
    with c civil_day_strict_mono [OF v(2) v(1)] show False by auto
  qed
qed (rule civil_day_strict_mono [OF v])

lemma civil_day_eq_iff:
  assumes v: "valid_date y m d" "valid_date y' m' d'"
  shows "civil_day y m d = civil_day y' m' d' \<longleftrightarrow> (y, m, d) = (y', m', d')"
  using civil_day_less_iff [OF v] civil_day_less_iff [OF v(2) v(1)]
  by (metis less_irrefl not_less_iff_gr_or_eq)

subsection \<open>Local time values\<close>

text \<open>The local time value of \<open>y-m-dTh:mi:00\<close>: \<open>MakeDate(MakeDay(y, m - 1, d),
  MakeTime(h, mi, 0, 0))\<close>.\<close>

definition local_time :: "int \<Rightarrow> nat \<Rightarrow> nat \<Rightarrow> nat \<Rightarrow> nat \<Rightarrow> int" where
  "local_time y m d h mi = make_date (civil_day y m d) (make_time (int h) (int mi) 0 0)"

lemma local_time_split:
  "local_time y m d h mi = civil_day y m d * 86400000 + (int h * 60 + int mi) * 60000"
  by (simp add: local_time_def make_date_def make_time_def ms_per_day_def algebra_simps)

text \<open>On calendar dates and clock times (hour 0..23, minute 0..59) the local time
  value orders instants as the lexicographic order of (year, month, day) and
  (hour, minute) does.\<close>

theorem local_time_less_iff:
  assumes v: "valid_date y m d" "valid_date y' m' d'"
    and t: "h \<le> 23" "h' \<le> 23" "mi \<le> 59" "mi' \<le> 59"
  shows "local_time y m d h mi < local_time y' m' d' h' mi' \<longleftrightarrow>
           ((y, m, d), (h, mi)) < ((y', m', d'), (h', mi'))"
proof -
  have hm: "int h * 60 + int mi < int h' * 60 + int mi' \<longleftrightarrow> (h, mi) < (h', mi')"
    using mixed_radix_less [of "int mi" 60 "int mi'" "int h" "int h'"] t by auto
  have A: "local_time y m d h mi < local_time y' m' d' h' mi' \<longleftrightarrow>
      civil_day y m d < civil_day y' m' d' \<or> civil_day y m d = civil_day y' m' d'
      \<and> (int h * 60 + int mi) * 60000 < (int h' * 60 + int mi') * 60000"
    unfolding local_time_split by (rule mixed_radix_less) (use t in simp_all)
  have B: "(int h * 60 + int mi) * 60000 < (int h' * 60 + int mi') * 60000 \<longleftrightarrow>
      int h * 60 + int mi < int h' * 60 + int mi'"
    by (simp only: mult_less_cancel_right) simp
  show ?thesis
    unfolding A B hm civil_day_less_iff [OF v] civil_day_eq_iff [OF v]
    by (auto simp: le_less)
qed

subsection \<open>new Date(str) on the strings the cleaner builds\<close>

definition digits_of_len :: "nat \<Rightarrow> nat \<Rightarrow> jstr \<Rightarrow> nat option" where
  "digits_of_len lo hi s =
     (if lo \<le> length s \<and> length s \<le> hi \<and> list_all is_dec_digit s then Some (digval s) else None)"

text \<open>The fields of \<open>YYYY-MM-DDTHH:MM:SS\<close>; 84 is \<open>T\<close>, 45 is \<open>-\<close>, 58 is \<open>:\<close>.\<close>

definition date_fields :: "jstr \<Rightarrow> (nat \<times> nat \<times> nat \<times> nat \<times> nat \<times> nat) option" where
  "date_fields str =
     (case js_split 84 str of
        [dp, tp] \<Rightarrow>
          (case (js_split 45 dp, js_split 58 tp) of
             ([ys, ms, ds], [hs, mis, ss]) \<Rightarrow>
               (case (digits_of_len 4 4 ys, digits_of_len 2 2 ms, digits_of_len 2 2 ds,
                      digits_of_len 2 2 hs, digits_of_len 2 2 mis, digits_of_len 2 2 ss) of
                  (Some y, Some m, Some d, Some h, Some mi, Some s) \<Rightarrow> Some (y, m, d, h, mi, s)
                | _ \<Rightarrow> None)
           | _ \<Rightarrow> None)
      | _ \<Rightarrow> None)"

definition fields_ok :: "nat \<Rightarrow> nat \<Rightarrow> nat \<Rightarrow> nat \<Rightarrow> nat \<Rightarrow> nat \<Rightarrow> bool" where
  "fields_ok y m d h mi s \<longleftrightarrow>
     1 \<le> m \<and> m \<le> 12 \<and> 1 \<le> d \<and> d \<le> 31
     \<and> (h \<le> 23 \<and> mi \<le> 59 \<and> s \<le> 59 \<or> h = 24 \<and> mi = 0 \<and> s = 0)"

text \<open>The time value of \<open>new Date(str)\<close> in the zone \<open>tz\<close>: local time, so
  \<open>UTC(t) = t - LocalTZA(t)\<close>; NaN for an invalid date.\<close>

definition js_new_date :: "(int \<Rightarrow> int) \<Rightarrow> jstr \<Rightarrow> jsnum" where
  "js_new_date tz str =
     (case date_fields str of
        Some (y, m, d, h, mi, s) \<Rightarrow>
          (if fields_ok y m d h mi s then
             (let lt = make_date (make_day (int y) (int m - 1) (int d))
                                 (make_time (int h) (int mi) (int s) 0)
              in time_clip (lt - tz lt))
           else NaN)
      | None \<Rightarrow> NaN)"

declare digits_of_len_def [js_eval] date_fields_def [js_eval] fields_ok_def [js_eval]
  js_new_date_def [js_eval]

subsection \<open>Consecutive days\<close>

text \<open>1 January follows 31 December: the day numbers of \<open>MakeDay\<close> run on
  across every year boundary, leap years included.\<close>

lemma civil_day_new_year: "civil_day (y + 1) 1 1 = civil_day y 12 31 + 1"
proof -
  have "month_start y 13 = month_start y 12 + 31"
    using month_start_Suc [of 12 y] by (simp add: days_in_month_def)
  then have "int (month_start y 12) = int (days_in_year y) - 31"
    by (simp add: month_start_13)
  moreover have "month_start (y + 1) 1 = 0" by (simp add: month_start_def)
  ultimately show ?thesis
    by (simp add: civil_day_eq day_from_year_next)
qed

text \<open>\<open>MakeDay\<close> lets day 31 run over: \<open>2021-02-31\<close> is 3 March 2021.\<close>

lemma civil_day_overflow: "civil_day 2021 2 31 = civil_day 2021 3 3"
  by (simp add: civil_day_def js_eval)

end
