(* ===== verification/CzechDate.thy ===== *)
theory CzechDate
  imports Calendar
begin

text \<open>
  \<open>parseCzechDate\<close> (\<^verbatim>\<open>src/cleaner.js\<close>, lines 36 to 45), the window
  constants \<open>covidStart\<close> and \<open>covidEnd\<close> (lines 47 and 48) and the COVID
  flag of the row handler (line 59). \<open>parseCzechDate\<close> splits at \<open>.\<close> and
  destructures day, month and the rest; a missing or empty part gives \<open>null\<close>. The
  rest is trimmed and split at a space into year and time, the time split at \<open>:\<close>
  and mapped with \<open>Number\<close>; hour and minute are printed with \<open>String\<close> and
  \<open>padStart(2, '0')\<close> (\<open>String(undefined)\<close> is \<open>undefined\<close>) into
  \<open>Y-M-DTHH:MM:00\<close>, which \<open>new Date\<close> reads as local time. Calling it on
  \<open>undefined\<close> or a number throws a TypeError (\<open>dateStr.split\<close>).
  \<open>new Date('2020-03-13')\<close> is the date-only ISO form, which ECMA-262 reads as
  UTC midnight. Day and month are passed on as written, and \<open>new Date\<close> reads
  the string only when they have two digits. Lemmas: on a well-formed
  \<open>DD.MM.YYYY H:MM\<close> the result is the time value of that local time; a day or
  month of one digit (the form \<open>13.3.2020 14:30\<close> of spec section 4.1) gives an
  invalid date; a day past the end of its month runs over into the next month;
  the flag is 1 exactly in the window; in UTC this is the lexicographic window of
  the dates.
\<close>

subsection \<open>parseCzechDate\<close>

text \<open>\<open>String(v)\<close> of an optional number; \<open>None\<close> is \<open>undefined\<close>.\<close>

definition js_String :: "jsnum option \<Rightarrow> jstr" where
  "js_String v = (case v of None \<Rightarrow> js ''undefined'' | Some n \<Rightarrow> js_number_to_string n)"

definition build_date_string :: "jstr \<Rightarrow> jstr \<Rightarrow> jstr \<Rightarrow> jstr \<Rightarrow> jstr" where
  "build_date_string y m d time =
     (let hm = map js_string_to_number (js_split 58 time) in
      y @ 45 # m @ 45 # d @ 84 # js_padStart 2 48 (js_String (js_idx hm 0))
        @ 58 # js_padStart 2 48 (js_String (js_idx hm 1)) @ js '':00'')"

definition parseCzechDate :: "(int \<Rightarrow> int) \<Rightarrow> jsval option \<Rightarrow> js_error + jsnum option" where
  "parseCzechDate tz dateStr =
     (case dateStr of
        None \<Rightarrow> Inl (TypeError ''Cannot read properties of undefined (reading split)'')
      | Some (VNum n) \<Rightarrow> Inl (TypeError ''dateStr.split is not a function'')
      | Some (VStr s) \<Rightarrow>
          (let parts = js_split 46 s in
           case (js_idx parts 0, js_idx parts 1, js_idx parts 2) of
             (Some d, Some m, Some yhms) \<Rightarrow>
               (if d = [] \<or> m = [] \<or> yhms = [] then Inr None
                else
                  (let yt = js_split 32 (js_trim yhms) in
                   case (js_idx yt 0, js_idx yt 1) of
                     (Some y, Some time) \<Rightarrow>
                       (if y = [] \<or> time = [] then Inr None
                        else Inr (Some (js_new_date tz (build_date_string y m d time))))
                   | _ \<Rightarrow> Inr None))
           | _ \<Rightarrow> Inr None))"

subsection \<open>The COVID window and flag\<close>

definition covidStart :: jsnum where
  "covidStart = time_clip (make_date (make_day 2020 2 13) 0)"

definition covidEnd :: jsnum where
  "covidEnd = time_clip (make_date (make_day 2021 4 30) 0)"

text \<open>\<open>dateCreated && dateCreated >= covidStart && dateCreated <= covidEnd ? 1 : 0\<close>:
  \<open>None\<close> is \<open>null\<close>; a Date object is truthy even when invalid, and a comparison
  with an invalid date's NaN is false.\<close>

definition covid_flag :: "jsnum option \<Rightarrow> jsnum" where
  "covid_flag dateCreated =
     (case dateCreated of
        None \<Rightarrow> Fin 0
      | Some t \<Rightarrow> (if js_le covidStart t \<and> js_le t covidEnd then Fin 1 else Fin 0))"

declare js_String_def [js_eval] build_date_string_def [js_eval] parseCzechDate_def [js_eval]
  covidStart_def [js_eval] covidEnd_def [js_eval] covid_flag_def [js_eval]
  js_padStart_def [js_eval] num_scaled_def [js_eval] pos_to_string_def [js_eval]
  num_format_def [js_eval]

lemma covid_bounds: "covidStart = Fin 1584057600000" "covidEnd = Fin 1622332800000"
  by (simp_all add: js_eval)

subsection \<open>parseCzechDate on well-formed input\<close>

abbreviation pad2 :: "nat \<Rightarrow> jstr" where
  "pad2 n \<equiv> js_padStart 2 48 (nat_digits n)"

text \<open>The input \<open>DD.MM.Y H:MI\<close>: day and month with two digits, year, hour and
  minute with the decimal digits of their fields.\<close>

definition czech_date_string :: "nat \<Rightarrow> nat \<Rightarrow> nat \<Rightarrow> nat \<Rightarrow> nat \<Rightarrow> jstr" where
  "czech_date_string d m y h mi =
     pad2 d @ 46 # pad2 m @ 46 # nat_digits y @ 32 # nat_digits h @ 58 # nat_digits mi"

text \<open>The same fields written as spec section 4.1 writes them (\<open>13.3.2020 14:30\<close>):
  day and month without a leading zero.\<close>

definition czech_date_short :: "nat \<Rightarrow> nat \<Rightarrow> nat \<Rightarrow> nat \<Rightarrow> nat \<Rightarrow> jstr" where
  "czech_date_short d m y h mi =
     nat_digits d @ 46 # nat_digits m @ 46 # nat_digits y @ 32 # nat_digits h @ 58 # nat_digits mi"

lemma digits_no_sep: "list_all is_dec_digit ds \<Longrightarrow> c < 48 \<or> 57 < c \<Longrightarrow> c \<notin> set ds"
  by (auto simp: list_all_iff is_dec_digit_def)

lemma pad2_no_sep: "n < 100 \<Longrightarrow> c < 48 \<or> 57 < c \<Longrightarrow> c \<notin> set (pad2 n)"
  using pad2_nat(2) [of n] by (rule digits_no_sep)

lemma nat_digits_hd_last:
  "is_dec_digit (hd (nat_digits n))" "is_dec_digit (last (nat_digits n))"
  using nat_digits_are_digits [of "hd (nat_digits n)" n]
    nat_digits_are_digits [of "last (nat_digits n)" n] by simp_all

lemma build_date_string_digits:
  assumes "h < 100" "mi < 100"
  shows "build_date_string Y M D (nat_digits h @ 58 # nat_digits mi) =
           Y @ 45 # M @ 45 # D @ 84 # pad2 h @ 58 # pad2 mi @ [58, 48, 48]"
proof -
  have "js_split 58 (nat_digits h @ 58 # nat_digits mi) = [nat_digits h, nat_digits mi]"
    by (intro js_split2) (simp_all add: nat_digits_no_sep)
  moreover have "js_String (Some (js_string_to_number (nat_digits n))) = nat_digits n"
    if "n < 100" for n
    using that by (simp add: js_String_def js_string_to_number_digits nat_digits_are_digits
        js_number_to_string_nat del: js_number_to_string.simps)
  ultimately show ?thesis
    using assms by (simp add: build_date_string_def)
qed

lemma digits_of_len_nat:
  "lo \<le> length (nat_digits n) \<Longrightarrow> length (nat_digits n) \<le> hi \<Longrightarrow>
   digits_of_len lo hi (nat_digits n) = Some n"
  by (simp add: digits_of_len_def list_all_iff nat_digits_are_digits)

lemma digits_of_len_pad2: "n < 100 \<Longrightarrow> digits_of_len 2 2 (pad2 n) = Some n"
  using pad2_nat [of n] by (simp add: digits_of_len_def)

text \<open>For any non-empty digit strings \<open>dd\<close> and \<open>mm\<close> before the year,
  \<open>parseCzechDate\<close> hands \<open>new Date\<close> the string \<open>Y-mm-ddTHH:MI:00\<close>.\<close>

lemma parseCzechDate_fields:
  assumes dd: "dd \<noteq> []" "list_all is_dec_digit dd" and mm: "mm \<noteq> []" "list_all is_dec_digit mm"
    and t: "h < 100" "mi < 100"
  shows "parseCzechDate tz (Some (VStr (dd @ 46 # mm @ 46 # nat_digits y @ 32 # nat_digits h @ 58 # nat_digits mi))) =
           Inr (Some (js_new_date tz (nat_digits y @ 45 # mm @ 45 # dd @ 84 # pad2 h @ 58 # pad2 mi @ [58, 48, 48])))"
proof -
  let ?rest = "nat_digits y @ 32 # nat_digits h @ 58 # nat_digits mi"
  have s46: "js_split 46 (dd @ 46 # mm @ 46 # ?rest) = [dd, mm, ?rest]"
    by (intro js_split3) (simp_all add: nat_digits_no_sep digits_no_sep dd mm)
  have "js_trim ?rest = ?rest"
    using nat_digits_hd_last [of y] nat_digits_hd_last [of mi]
    by (intro js_trim_id) (simp add: is_dec_digit_not_ws)
  moreover have "js_split 32 ?rest = [nat_digits y, nat_digits h @ 58 # nat_digits mi]"
    by (intro js_split2) (simp_all add: nat_digits_no_sep)
  moreover have "build_date_string (nat_digits y) mm dd (nat_digits h @ 58 # nat_digits mi) =
      nat_digits y @ 45 # mm @ 45 # dd @ 84 # pad2 h @ 58 # pad2 mi @ [58, 48, 48]"
    using t by (rule build_date_string_digits)
  ultimately show ?thesis
    using dd(1) mm(1) by (simp add: parseCzechDate_def s46 Let_def)
qed

text \<open>What \<open>new Date\<close> reads of that string: year, month and day only when they
  have four, two and two digits.\<close>

lemma date_fields_fields:
  assumes Y: "list_all is_dec_digit Y" and mm: "list_all is_dec_digit mm"
    and dd: "list_all is_dec_digit dd" and hm: "h < 100" "mi < 100"
  shows "date_fields (Y @ 45 # mm @ 45 # dd @ 84 # pad2 h @ 58 # pad2 mi @ [58, 48, 48]) =
    (case (digits_of_len 4 4 Y, digits_of_len 2 2 mm, digits_of_len 2 2 dd) of
       (Some y, Some m, Some d) \<Rightarrow> Some (y, m, d, h, mi, 0) | _ \<Rightarrow> None)"
proof -
  have s84: "js_split 84 (Y @ 45 # mm @ 45 # dd @ 84 # pad2 h @ 58 # pad2 mi @ [58, 48, 48]) =
      [Y @ 45 # mm @ 45 # dd, pad2 h @ 58 # pad2 mi @ [58, 48, 48]]"
    using hm js_split2 [of 84 "Y @ 45 # mm @ 45 # dd" "pad2 h @ 58 # pad2 mi @ [58, 48, 48]"]
    by (simp add: digits_no_sep Y mm dd pad2_no_sep)
  have s45: "js_split 45 (Y @ 45 # mm @ 45 # dd) = [Y, mm, dd]"
    by (rule js_split3) (simp_all add: digits_no_sep Y mm dd)
  have s58: "js_split 58 (pad2 h @ 58 # pad2 mi @ [58, 48, 48]) = [pad2 h, pad2 mi, [48, 48]]"
    using hm by (intro js_split3) (simp_all add: pad2_no_sep)
  have "digits_of_len 2 2 [48, 48] = Some 0"
    by (simp add: digits_of_len_def is_dec_digit_def digval_def)
  then show ?thesis
    using hm by (simp add: date_fields_def s84 s45 s58 digits_of_len_pad2 split: option.split)
qed

lemma days_in_month_le: "days_in_month y m \<le> 31"
  by (simp add: days_in_month_def)

text \<open>On a well-formed \<open>DD.MM.YYYY H:MM\<close> (month 1..12, day 1..31, a four-digit
  year, hour 0..23, minute 0..59), \<open>parseCzechDate\<close> returns the Date whose time
  value is that local time converted to UTC with the zone's offset.\<close>

lemma parseCzechDate_padded:
  assumes md: "1 \<le> m" "m \<le> 12" "1 \<le> d" "d \<le> 31" and y: "1000 \<le> y" "y \<le> 9999"
    and t: "h \<le> 23" "mi \<le> 59"
  shows "parseCzechDate tz (Some (VStr (czech_date_string d m y h mi))) =
           Inr (Some (time_clip (local_time (int y) m d h mi - tz (local_time (int y) m d h mi))))"
proof -
  have ly: "length (nat_digits y) = 4"
    using y length_nat_digits_eq [of 3 y] by simp
  have "date_fields (nat_digits y @ 45 # pad2 m @ 45 # pad2 d @ 84 # pad2 h @ 58 # pad2 mi @ [58, 48, 48])
      = Some (y, m, d, h, mi, 0)"
    using md t ly pad2_nat(2) [of m] pad2_nat(2) [of d] by (subst date_fields_fields)
      (simp_all add: pad2_nat list_all_iff nat_digits_are_digits digits_of_len_pad2 digits_of_len_nat)
  moreover have "fields_ok y m d h mi 0" using md t by (simp add: fields_ok_def)
  moreover have "make_date (make_day (int y) (int m - 1) (int d)) (make_time (int h) (int mi) 0 0)
      = local_time (int y) m d h mi"
    by (simp add: local_time_def civil_day_def)
  moreover have "pad2 n \<noteq> []" if "n < 100" for n
    using pad2_nat(1) [OF that] by auto
  ultimately show ?thesis
    using md t unfolding czech_date_string_def
    by (subst parseCzechDate_fields) (simp_all add: pad2_nat js_new_date_def Let_def)
qed

text \<open>A day or a month of one digit gives \<open>Y-M-DTHH:MI:00\<close>, an invalid date.\<close>

lemma parseCzechDate_short:
  assumes short: "d < 10 \<or> m < 10" and t: "h < 100" "mi < 100"
  shows "parseCzechDate tz (Some (VStr (czech_date_short d m y h mi))) = Inr (Some NaN)"
proof -
  have "digits_of_len 2 2 (nat_digits m) = None \<or> digits_of_len 2 2 (nat_digits d) = None"
    using short by (auto simp: digits_of_len_def)
  then have "date_fields (nat_digits y @ 45 # nat_digits m @ 45 # nat_digits d @ 84 #
      pad2 h @ 58 # pad2 mi @ [58, 48, 48]) = None"
    using t by (subst date_fields_fields)
      (auto simp: list_all_iff nat_digits_are_digits split: option.split)
  then show ?thesis
    using t unfolding czech_date_short_def
    by (subst parseCzechDate_fields) (simp_all add: list_all_iff nat_digits_are_digits js_new_date_def)
qed

text \<open>A well-formed date in the sense of the calendar.\<close>

lemma parseCzechDate_digits:
  assumes v: "valid_date (int y) m d" and y: "1000 \<le> y" "y \<le> 9999"
    and t: "h \<le> 23" "mi \<le> 59"
  shows "parseCzechDate tz (Some (VStr (czech_date_string d m y h mi))) =
           Inr (Some (time_clip (local_time (int y) m d h mi - tz (local_time (int y) m d h mi))))"
  using v days_in_month_le [of "int y" m] y t
  by (intro parseCzechDate_padded) (auto simp: valid_date_def)


subsection \<open>The COVID flag on well-formed dates\<close>

lemma day_from_year_le: "y \<le> y' \<Longrightarrow> day_from_year y \<le> day_from_year y'"
  using day_from_year_gap [of y y'] by (cases "y = y'") auto

lemma local_time_range:
  assumes v: "valid_date (int y) m d" and y: "1000 \<le> y" "y \<le> 9999"
    and t: "h \<le> 23" "mi \<le> 59"
  shows "- 30610224000000 \<le> local_time (int y) m d h mi \<and> local_time (int y) m d h mi < 253402300800000"
proof -
  have lo: "day_from_year 1000 \<le> civil_day (int y) m d"
    using day_from_year_le [of 1000 "int y"] civil_day_bounds(1) [OF v] y by simp
  have hi: "civil_day (int y) m d < day_from_year 10000"
    using civil_day_bounds(2) [OF v] day_from_year_gap [of "int y" 10000] y by simp
  have "day_from_year 1000 = - 354285" "day_from_year 10000 = 2932897"
    by (simp_all add: day_from_year_def)
  with lo hi t show ?thesis by (simp add: local_time_split)
qed

lemma covid_flag_time:
  "\<bar>t\<bar> \<le> 8640000000000000 \<Longrightarrow>
   covid_flag (Some (time_clip t)) =
     (if 1584057600000 \<le> t \<and> t \<le> 1622332800000 then Fin 1 else Fin 0)"
  by (simp add: covid_flag_def time_clip_def covid_bounds)

text \<open>On a well-formed date in a zone whose offset is within a day, the flag is 1
  exactly when the UTC time value lies in the window.\<close>

lemma covid_flag_digits:
  assumes v: "valid_date (int y) m d" and y: "1000 \<le> y" "y \<le> 9999"
    and t: "h \<le> 23" "mi \<le> 59"
    and z: "\<bar>tz (local_time (int y) m d h mi)\<bar> \<le> 86400000"
  shows "\<exists>tv. parseCzechDate tz (Some (VStr (czech_date_string d m y h mi))) = Inr (Some tv)
     \<and> covid_flag (Some tv) =
         (let u = local_time (int y) m d h mi - tz (local_time (int y) m d h mi) in
          if 1584057600000 \<le> u \<and> u \<le> 1622332800000 then Fin 1 else Fin 0)"
proof -
  let ?lt = "local_time (int y) m d h mi"
  have "\<bar>?lt - tz ?lt\<bar> \<le> 8640000000000000"
    using local_time_range [OF v y t] z by linarith
  then show ?thesis
    using parseCzechDate_digits [OF v y t, of tz] covid_flag_time by (simp add: Let_def)
qed

lemma covid_start_local: "local_time 2020 3 13 0 0 = 1584057600000"
  and covid_end_local: "local_time 2021 5 30 0 0 = 1622332800000"
  by (simp_all add: local_time_def civil_day_def js_eval)

lemma window_valid: "valid_date 2020 3 13" "valid_date 2021 5 30"
  by (simp_all add: valid_date_def days_in_month_def)

text \<open>C24: in UTC, the flag of a well-formed \<open>DD.MM.YYYY H:MM\<close> is 1 exactly when
  (date, time) lies, in lexicographic order, between 2020-03-13 00:00 and
  2021-05-30 00:00, both included.\<close>

theorem covid_window_utc:
  assumes v: "valid_date (int y) m d" and y: "1000 \<le> y" "y \<le> 9999"
    and t: "h \<le> 23" "mi \<le> 59"
  shows "\<exists>tv. parseCzechDate (\<lambda>_. 0) (Some (VStr (czech_date_string d m y h mi))) = Inr (Some tv)
     \<and> (covid_flag (Some tv) = Fin 1 \<longleftrightarrow>
          ((2020, 3, 13), (0, 0)) \<le> ((int y, m, d), (h, mi))
          \<and> ((int y, m, d), (h, mi)) \<le> ((2021, 5, 30), (0, 0)))"
proof -
  let ?lt = "local_time (int y) m d h mi"
  have l1: "?lt < local_time 2020 3 13 0 0 \<longleftrightarrow> ((int y, m, d), (h, mi)) < ((2020, 3, 13), (0, 0))"
    by (rule local_time_less_iff) (use v window_valid t in simp_all)
  have l2: "local_time 2021 5 30 0 0 < ?lt \<longleftrightarrow> ((2021, 5, 30), (0, 0)) < ((int y, m, d), (h, mi))"
    by (rule local_time_less_iff) (use v window_valid t in simp_all)
  have lo: "1584057600000 \<le> ?lt \<longleftrightarrow> ((2020, 3, 13), (0, 0)) \<le> ((int y, m, d), (h, mi))"
    using l1 by (simp only: covid_start_local [symmetric] not_less [symmetric])
  have hi: "?lt \<le> 1622332800000 \<longleftrightarrow> ((int y, m, d), (h, mi)) \<le> ((2021, 5, 30), (0, 0))"
    using l2 by (simp only: covid_end_local [symmetric] not_less [symmetric])
  show ?thesis
    using covid_flag_digits [OF v y t, of "\<lambda>_. 0"] lo hi by (auto simp: Let_def)
qed

lemma covid_flag_NaN: "covid_flag (Some NaN) = Fin 0"
  by (simp add: js_eval)



end
