(* ===== verification/Row.thy ===== *)
theory Row
  imports Minutes Email CzechDate
begin

text \<open>
  The \<open>'data'\<close> handler of \<^verbatim>\<open>src/cleaner.js\<close> (lines 54 to 76), which
  transforms one CSV record. A record is a JavaScript object whose own properties
  keep their insertion order (the order \<open>csv-parser\<close> met the header's columns, then
  the properties the handler adds), modelled as an association list with distinct
  keys; a read is \<open>get\<close> (\<open>None\<close> for \<open>undefined\<close>), an assignment is \<open>put\<close>, which
  overwrites a present key in place and appends a new one. The handler drops the
  record (\<open>Inr None\<close>) unless the cleaned e-mail is truthy and \<open>zam\<close> is the string
  \<open>'0'\<close>; otherwise it parses the date (which throws on a missing \<open>dateCreated\<close>),
  computes the COVID flag and the minutes (which throws on a truthy non-string
  \<open>timeSpent\<close>), sets \<open>timeSpentMinutes\<close>, \<open>cleanedEmail\<close> and \<open>COVID\<close>, remaps
  \<open>exerciseDescription\<close> and \<open>from\<close>, appends the link to \<open>b4\<close>, and keeps the
  record (\<open>Inr (Some row')\<close>). Lemmas: distinct keys are kept; every kept record
  carries an e-mail of the pattern's shape and \<open>zam = '0'\<close>; each written field has
  the value the code assigns and every other field is unchanged; the key order is
  the input's followed by the new keys.
\<close>

subsection \<open>Records as insertion-ordered objects\<close>

type_synonym row = "(jstr \<times> jsval) list"

definition get :: "row \<Rightarrow> jstr \<Rightarrow> jsval option" where
  "get r k = map_of r k"

fun put :: "row \<Rightarrow> jstr \<Rightarrow> jsval \<Rightarrow> row" where
  "put [] k v = [(k, v)]"
| "put ((k', v') # r) k v = (if k' = k then (k, v) # r else (k', v') # put r k v)"

definition wf_row :: "row \<Rightarrow> bool" where
  "wf_row r \<longleftrightarrow> distinct (map fst r)"

subsection \<open>Column names and literals\<close>

definition k_teacherEmail :: jstr where "k_teacherEmail = js ''teacherEmail''"
definition k_zam :: jstr where "k_zam = js ''zam''"
definition k_timeSpent :: jstr where "k_timeSpent = js ''timeSpent''"
definition k_dateCreated :: jstr where "k_dateCreated = js ''dateCreated''"
definition k_exerciseDescription :: jstr where "k_exerciseDescription = js ''exerciseDescription''"
definition k_from :: jstr where "k_from = js ''from''"
definition k_b4 :: jstr where "k_b4 = js ''b4''"
definition k_timeSpentMinutes :: jstr where "k_timeSpentMinutes = js ''timeSpentMinutes''"
definition k_cleanedEmail :: jstr where "k_cleanedEmail = js ''cleanedEmail''"
definition k_COVID :: jstr where "k_COVID = js ''COVID''"

text \<open>The Czech phrase of line 65 (\<open>cviceni s celou tridou\<close> with its
  diacritics, U+010D, U+00ED and U+0159) as UTF-16 code units.\<close>

definition exercise_cz :: jstr where
  "exercise_cz = [99, 118, 105, 269, 101, 110, 237, 32, 115, 32, 99, 101, 108, 111, 117, 32,
                  116, 345, 237, 100, 111, 117]"

definition exercise_en :: jstr where
  "exercise_en = js ''Modes of the work with the activity''"

definition b4_suffix :: jstr where
  "b4_suffix = js '' [https://dejepisplus.npi.cz/historicka-gramotnost/]''"

lemmas column_names = k_teacherEmail_def k_zam_def k_timeSpent_def k_dateCreated_def
  k_exerciseDescription_def k_from_def k_b4_def k_timeSpentMinutes_def k_cleanedEmail_def
  k_COVID_def

declare column_names [js_eval] exercise_cz_def [js_eval] exercise_en_def [js_eval]
  b4_suffix_def [js_eval] get_def [js_eval]

subsection \<open>The handler\<close>

text \<open>\<open>(v || '') + s\<close>: a falsy \<open>v\<close> counts as the empty string; a truthy number
  is printed with \<open>String\<close>.\<close>

definition or_empty_concat :: "jsval option \<Rightarrow> jstr \<Rightarrow> jstr" where
  "or_empty_concat v s =
     (if truthy v then
        (case v of Some (VStr t) \<Rightarrow> t | Some (VNum n) \<Rightarrow> js_number_to_string n | None \<Rightarrow> [])
      else []) @ s"

text \<open>Lines 61 to 73: the assignments, in the code's order.\<close>

definition transform_row :: "row \<Rightarrow> jsnum \<Rightarrow> jstr \<Rightarrow> jsnum \<Rightarrow> row" where
  "transform_row row mins ce covid =
     (let r1 = put row k_timeSpentMinutes (VNum mins);
          r2 = put r1 k_cleanedEmail (VStr ce);
          r3 = put r2 k_COVID (VNum covid);
          r4 = (if get r3 k_exerciseDescription = Some (VStr exercise_cz)
                then put r3 k_exerciseDescription (VStr exercise_en) else r3);
          r5 = (if get r4 k_from = Some (VStr (js ''free'')) then put r4 k_from (VStr (js ''Fred''))
                else r4)
      in put r5 k_b4 (VStr (or_empty_concat (get r5 k_b4) b4_suffix)))"

text \<open>Lines 54 to 76; \<open>Inr None\<close> is the early \<open>return\<close>, \<open>Inr (Some r)\<close> the record
  pushed to \<open>results\<close>, \<open>Inl e\<close> the exception.\<close>

definition on_data :: "(int \<Rightarrow> int) \<Rightarrow> row \<Rightarrow> js_error + row option" where
  "on_data tz row =
     (case cleanEmail (get row k_teacherEmail) of
        None \<Rightarrow> Inr None
      | Some ce \<Rightarrow>
          (if ce = [] \<or> get row k_zam \<noteq> Some (VStr (js ''0'')) then Inr None
           else
             (case parseCzechDate tz (get row k_dateCreated) of
                Inl e \<Rightarrow> Inl e
              | Inr dateCreated \<Rightarrow>
                  (case convertToMinutes (get row k_timeSpent) of
                     Inl e \<Rightarrow> Inl e
                   | Inr mins \<Rightarrow>
                       Inr (Some (transform_row row mins ce (covid_flag dateCreated)))))))"

declare or_empty_concat_def [js_eval] transform_row_def [js_eval] on_data_def [js_eval]

subsection \<open>Objects\<close>

lemma get_put: "get (put r k v) k' = (if k' = k then Some v else get r k')"
  by (induction r) (auto simp: get_def)

lemma keys_put:
  "map fst (put r k v) = map fst r @ (if k \<in> set (map fst r) then [] else [k])"
proof (induction r)
  case (Cons p r)
  then show ?case by (cases p) auto
qed simp

lemma keys_put_present: "get r k \<noteq> None \<Longrightarrow> map fst (put r k v) = map fst r"
  by (simp add: keys_put get_def map_of_eq_None_iff)

lemma wf_put: "wf_row r \<Longrightarrow> wf_row (put r k v)"
  by (simp add: wf_row_def keys_put)

lemma keys_distinct:
  "k_timeSpentMinutes \<noteq> k_cleanedEmail" "k_timeSpentMinutes \<noteq> k_COVID"
  "k_cleanedEmail \<noteq> k_COVID" "k_exerciseDescription \<noteq> k_timeSpentMinutes"
  "k_exerciseDescription \<noteq> k_cleanedEmail" "k_exerciseDescription \<noteq> k_COVID"
  "k_from \<noteq> k_timeSpentMinutes" "k_from \<noteq> k_cleanedEmail" "k_from \<noteq> k_COVID"
  "k_from \<noteq> k_exerciseDescription" "k_b4 \<noteq> k_timeSpentMinutes" "k_b4 \<noteq> k_cleanedEmail"
  "k_b4 \<noteq> k_COVID" "k_b4 \<noteq> k_exerciseDescription" "k_b4 \<noteq> k_from"
  "k_zam \<noteq> k_timeSpentMinutes" "k_zam \<noteq> k_cleanedEmail" "k_zam \<noteq> k_COVID"
  "k_zam \<noteq> k_exerciseDescription" "k_zam \<noteq> k_from" "k_zam \<noteq> k_b4"
  by (simp_all add: column_names)

subsection \<open>What the handler writes\<close>

text \<open>The fields the handler assigns.\<close>

definition written_keys :: "jstr list" where
  "written_keys = [k_timeSpentMinutes, k_cleanedEmail, k_COVID, k_exerciseDescription, k_from, k_b4]"

lemma get_transform_row:
  "get (transform_row row mins ce covid) k =
     (if k = k_b4 then Some (VStr (or_empty_concat (get row k_b4) b4_suffix))
      else if k = k_from then
        (if get row k_from = Some (VStr (js ''free'')) then Some (VStr (js ''Fred'')) else get row k_from)
      else if k = k_exerciseDescription then
        (if get row k_exerciseDescription = Some (VStr exercise_cz) then Some (VStr exercise_en)
         else get row k_exerciseDescription)
      else if k = k_COVID then Some (VNum covid)
      else if k = k_cleanedEmail then Some (VStr ce)
      else if k = k_timeSpentMinutes then Some (VNum mins)
      else get row k)"
  using keys_distinct by (simp add: transform_row_def Let_def get_put)

text \<open>The fields the handler does not assign keep their values.\<close>

lemma transform_row_frame:
  "k \<notin> set written_keys \<Longrightarrow> get (transform_row row mins ce covid) k = get row k"
  by (simp add: get_transform_row written_keys_def)

text \<open>The keys of a transformed record: the input's, in their order, then those of
  \<open>timeSpentMinutes\<close>, \<open>cleanedEmail\<close>, \<open>COVID\<close> and \<open>b4\<close> the input lacks.\<close>

lemma keys_transform_row:
  "map fst (transform_row row mins ce covid) =
     map fst row @ filter (\<lambda>k. k \<notin> set (map fst row))
                          [k_timeSpentMinutes, k_cleanedEmail, k_COVID, k_b4]"
proof -
  define K where "K = map fst row"
  define r1 where "r1 = put row k_timeSpentMinutes (VNum mins)"
  define r2 where "r2 = put r1 k_cleanedEmail (VStr ce)"
  define r3 where "r3 = put r2 k_COVID (VNum covid)"
  define r4 where "r4 = (if get r3 k_exerciseDescription = Some (VStr exercise_cz)
      then put r3 k_exerciseDescription (VStr exercise_en) else r3)"
  define r5 where "r5 = (if get r4 k_from = Some (VStr (js ''free''))
      then put r4 k_from (VStr (js ''Fred'')) else r4)"
  have k3: "map fst r3 = K @ filter (\<lambda>k. k \<notin> set K) [k_timeSpentMinutes, k_cleanedEmail, k_COVID]"
    using keys_distinct by (auto simp: r3_def r2_def r1_def K_def keys_put)
  have "map fst r4 = map fst r3" by (simp add: r4_def keys_put_present)
  moreover have "map fst r5 = map fst r4" by (simp add: r5_def keys_put_present)
  ultimately have k5: "map fst r5 = map fst r3" by simp
  have "transform_row row mins ce covid = put r5 k_b4 (VStr (or_empty_concat (get r5 k_b4) b4_suffix))"
    by (simp add: transform_row_def Let_def r1_def r2_def r3_def r4_def r5_def)
  then show ?thesis
    using k5 k3 keys_distinct by (auto simp: keys_put K_def)
qed

lemma wf_transform_row: "wf_row row \<Longrightarrow> wf_row (transform_row row mins ce covid)"
  by (simp add: transform_row_def Let_def wf_put)

subsection \<open>The handler's outcomes\<close>

lemma on_data_Some_cases:
  "on_data tz row = Inr (Some row') \<Longrightarrow>
   \<exists>ce dc mins. cleanEmail (get row k_teacherEmail) = Some ce \<and> ce \<noteq> []
     \<and> get row k_zam = Some (VStr (js ''0''))
     \<and> parseCzechDate tz (get row k_dateCreated) = Inr dc
     \<and> convertToMinutes (get row k_timeSpent) = Inr mins
     \<and> row' = transform_row row mins ce (covid_flag dc)"
  by (auto simp: on_data_def split: option.splits if_splits sum.splits)

lemma on_data_keeps:
  "cleanEmail (get row k_teacherEmail) = Some ce \<Longrightarrow> ce \<noteq> [] \<Longrightarrow>
   get row k_zam = Some (VStr (js ''0'')) \<Longrightarrow>
   parseCzechDate tz (get row k_dateCreated) = Inr dc \<Longrightarrow>
   convertToMinutes (get row k_timeSpent) = Inr mins \<Longrightarrow>
   on_data tz row = Inr (Some (transform_row row mins ce (covid_flag dc)))"
  by (simp add: on_data_def)

text \<open>Whether the handler keeps a record: the cleaned e-mail is truthy and
  \<open>zam\<close> is the string \<open>'0'\<close> (line 56).\<close>

definition retained :: "row \<Rightarrow> bool" where
  "retained row \<longleftrightarrow>
     (case cleanEmail (get row k_teacherEmail) of
        None \<Rightarrow> False
      | Some ce \<Rightarrow> ce \<noteq> [] \<and> get row k_zam = Some (VStr (js ''0'')))"

lemma on_data_not_retained: "\<not> retained row \<Longrightarrow> on_data tz row = Inr None"
  by (auto simp: on_data_def retained_def split: option.splits)

lemma on_data_retained_not_None: "retained row \<Longrightarrow> on_data tz row \<noteq> Inr None"
  by (auto simp: on_data_def retained_def split: option.splits sum.splits)

text \<open>C12: a record whose \<open>zam\<close> is not the string \<open>'0'\<close> is dropped, whatever its
  other fields.\<close>

theorem on_data_drops_zam:
  "get row k_zam \<noteq> Some (VStr (js ''0'')) \<Longrightarrow> on_data tz row = Inr None"
  by (simp add: on_data_not_retained retained_def split: option.splits)

text \<open>C13: a record whose \<open>teacherEmail\<close> is missing, is a number, or does not clean
  into the shape \<open>a@b.c\<close> is dropped.\<close>

theorem on_data_drops_email:
  "(\<forall>e. get row k_teacherEmail = Some (VStr e) \<longrightarrow> \<not> email_shape (normalise_email e)) \<Longrightarrow>
   on_data tz row = Inr None"
proof (rule on_data_not_retained)
  assume h: "\<forall>e. get row k_teacherEmail = Some (VStr e) \<longrightarrow> \<not> email_shape (normalise_email e)"
  have "cleanEmail (get row k_teacherEmail) = None"
  proof (cases "get row k_teacherEmail")
    case (Some v)
    with h show ?thesis by (cases v) (simp_all add: cleanEmail_def email_regex_language)
  qed (simp add: cleanEmail_def)
  then show "\<not> retained row" by (simp add: retained_def)
qed

text \<open>Every record the handler keeps carries a \<open>cleanedEmail\<close> of the pattern's
  shape and has \<open>zam = '0'\<close> (the invariant of the output data set, spec section 3).\<close>

theorem on_data_kept_invariant:
  "on_data tz row = Inr (Some row') \<Longrightarrow>
   (\<exists>ce. get row' k_cleanedEmail = Some (VStr ce) \<and> email_shape ce)
   \<and> get row' k_zam = Some (VStr (js ''0''))"
proof -
  assume "on_data tz row = Inr (Some row')"
  then obtain ce dc mins where ce: "cleanEmail (get row k_teacherEmail) = Some ce"
    and zam: "get row k_zam = Some (VStr (js ''0''))"
    and r: "row' = transform_row row mins ce (covid_flag dc)"
    by (blast dest: on_data_Some_cases)
  from ce have "email_shape ce" by (blast dest: cleanEmail_Some)
  moreover have "k_zam \<notin> set written_keys" using keys_distinct by (auto simp: written_keys_def)
  ultimately show ?thesis
    using zam keys_distinct by (simp add: r get_transform_row transform_row_frame)
qed

text \<open>C14: a kept record carries the minutes, the cleaned e-mail and the COVID flag
  the helpers compute, the remapped \<open>exerciseDescription\<close> and \<open>from\<close>, \<open>b4\<close>
  with the link appended (a missing or empty \<open>b4\<close> read as the empty string), and
  every other field unchanged.\<close>

theorem on_data_output_fields:
  "on_data tz row = Inr (Some row') \<Longrightarrow>
   \<exists>ce dc mins. cleanEmail (get row k_teacherEmail) = Some ce
     \<and> parseCzechDate tz (get row k_dateCreated) = Inr dc
     \<and> convertToMinutes (get row k_timeSpent) = Inr mins
     \<and> get row' k_timeSpentMinutes = Some (VNum mins)
     \<and> get row' k_cleanedEmail = Some (VStr ce)
     \<and> get row' k_COVID = Some (VNum (covid_flag dc))
     \<and> get row' k_exerciseDescription =
         (if get row k_exerciseDescription = Some (VStr exercise_cz) then Some (VStr exercise_en)
          else get row k_exerciseDescription)
     \<and> get row' k_from =
         (if get row k_from = Some (VStr (js ''free'')) then Some (VStr (js ''Fred''))
          else get row k_from)
     \<and> get row' k_b4 = Some (VStr (or_empty_concat (get row k_b4) b4_suffix))
     \<and> (\<forall>k. k \<notin> set written_keys \<longrightarrow> get row' k = get row k)"
proof -
  assume "on_data tz row = Inr (Some row')"
  then obtain ce dc mins where c: "cleanEmail (get row k_teacherEmail) = Some ce"
    and p: "parseCzechDate tz (get row k_dateCreated) = Inr dc"
    and t: "convertToMinutes (get row k_timeSpent) = Inr mins"
    and r: "row' = transform_row row mins ce (covid_flag dc)"
    by (blast dest: on_data_Some_cases)
  show ?thesis
    using c p t keys_distinct transform_row_frame
    by (intro exI [of _ ce] exI [of _ dc] exI [of _ mins]) (simp add: r get_transform_row)
qed

text \<open>C17: a record that passes both filters but has no \<open>dateCreated\<close> makes the
  handler throw (\<open>undefined.split\<close>): the silent degradation of spec section 7
  covers malformed dates, not a missing one.\<close>

theorem on_data_missing_date:
  "cleanEmail (get row k_teacherEmail) = Some ce \<Longrightarrow> ce \<noteq> [] \<Longrightarrow>
   get row k_zam = Some (VStr (js ''0'')) \<Longrightarrow> get row k_dateCreated = None \<Longrightarrow>
   on_data tz row = Inl (TypeError ''Cannot read properties of undefined (reading split)'')"
  by (simp add: on_data_def parseCzechDate_def)

text \<open>C15: a kept record with a well-formed \<open>DD.MM.YYYY H:MM\<close> date and a string
  \<open>timeSpent\<close> gets \<open>COVID = 1\<close> exactly when the date, read as local time and
  converted to UTC with the zone's offset, lies between 2020-03-13T00:00Z and
  2021-05-30T00:00Z.\<close>

theorem on_data_covid:
  assumes keep: "retained row"
    and dc: "get row k_dateCreated = Some (VStr (czech_date_string d m y h mi))"
    and ts: "get row k_timeSpent = Some (VStr s)"
    and v: "valid_date (int y) m d" and y: "1000 \<le> y" "y \<le> 9999" and t: "h \<le> 23" "mi \<le> 59"
    and z: "\<bar>tz (local_time (int y) m d h mi)\<bar> \<le> 86400000"
  shows "\<exists>row'. on_data tz row = Inr (Some row')
     \<and> get row' k_COVID =
         Some (VNum (let u = local_time (int y) m d h mi - tz (local_time (int y) m d h mi) in
                     if 1584057600000 \<le> u \<and> u \<le> 1622332800000 then Fin 1 else Fin 0))"
proof -
  from keep obtain ce where ce: "cleanEmail (get row k_teacherEmail) = Some ce" "ce \<noteq> []"
    and zam: "get row k_zam = Some (VStr (js ''0''))"
    by (auto simp: retained_def split: option.splits)
  obtain tv where p: "parseCzechDate tz (get row k_dateCreated) = Inr (Some tv)"
    and f: "covid_flag (Some tv) =
      (let u = local_time (int y) m d h mi - tz (local_time (int y) m d h mi) in
       if 1584057600000 \<le> u \<and> u \<le> 1622332800000 then Fin 1 else Fin 0)"
    using covid_flag_digits [of y m d h mi tz] v y t z dc by auto
  obtain mins where mn: "convertToMinutes (get row k_timeSpent) = Inr mins"
    using ts by (simp add: convertToMinutes_VStr)
  show ?thesis
    using on_data_keeps [OF ce zam p mn] f keys_distinct
    by (simp add: get_transform_row)
qed

text \<open>C16: a retained record whose \<open>dateCreated\<close> writes the day or the month
  with one digit, as spec section 4.1 writes \<open>13.3.2020 14:30\<close>, is kept with
  \<open>COVID\<close> 0 whatever the date: \<open>new Date\<close> gets \<open>2020-3-13T14:30:00\<close>, an
  invalid date, and no comparison with it holds.\<close>

theorem on_data_covid_unpadded:
  assumes keep: "retained row"
    and dc: "get row k_dateCreated = Some (VStr (czech_date_short d m y h mi))"
    and ts: "get row k_timeSpent = Some (VStr s)"
    and short: "d < 10 \<or> m < 10" and t: "h < 100" "mi < 100"
  shows "\<exists>row'. on_data tz row = Inr (Some row') \<and> get row' k_COVID = Some (VNum (Fin 0))"
proof -
  from keep obtain ce where ce: "cleanEmail (get row k_teacherEmail) = Some ce" "ce \<noteq> []"
    and zam: "get row k_zam = Some (VStr (js ''0''))"
    by (auto simp: retained_def split: option.splits)
  have p: "parseCzechDate tz (get row k_dateCreated) = Inr (Some NaN)"
    using parseCzechDate_short [OF short t] dc by simp
  obtain mins where mn: "convertToMinutes (get row k_timeSpent) = Inr mins"
    using ts by (simp add: convertToMinutes_VStr)
  show ?thesis
    using on_data_keeps [OF ce zam p mn] covid_flag_NaN keys_distinct
    by (simp add: get_transform_row)
qed

end
