(* ===== verification/Objects.thy ===== *)
theory Objects
  imports Row
begin

text \<open>
  The two places where the program depends on how a JavaScript object lists its
  keys. \<open>csv-parser\<close> (called at line 53 of \<^verbatim>\<open>src/cleaner.js\<close>) builds each
  record by assigning \<open>o[header] = cell\<close> for the cells of a line in order, and a
  cell past the last header under the key \<open>_i\<close> (\<open>i\<close> its index); \<open>fast-csv\<close>
  (line 80) takes its columns from \<open>Object.keys\<close> of the first record. By
  ECMA-262 (OrdinaryOwnPropertyKeys) \<open>Object.keys\<close> lists the array indices
  first, in ascending numeric order, then the other string keys in the order they
  were created; an array index is the canonical decimal string of an integer below
  \<open>2^32 - 1\<close>. Lemmas: the keys are the record's keys, each once and in another order, equal to them
  when no key is an array index; a line with one cell per distinct header makes a
  record with exactly the headers as keys, in order, each with its cell.
\<close>

subsection \<open>Object.keys\<close>

definition is_array_index :: "jstr \<Rightarrow> bool" where
  "is_array_index k \<longleftrightarrow>
     k \<noteq> [] \<and> list_all is_dec_digit k \<and> nat_digits (digval k) = k \<and> digval k < 4294967295"

definition own_keys :: "row \<Rightarrow> jstr list" where
  "own_keys r =
     sort_key digval (filter is_array_index (map fst r)) @ filter (\<lambda>k. \<not> is_array_index k) (map fst r)"

declare is_array_index_def [js_eval] own_keys_def [js_eval]

lemma set_own_keys [simp]: "set (own_keys r) = set (map fst r)"
  by (auto simp: own_keys_def)

lemma length_own_keys: "length (own_keys r) = length r"
  using sum_length_filter_compl [of is_array_index "map fst r"] by (simp add: own_keys_def)

lemma distinct_own_keys: "distinct (map fst r) \<Longrightarrow> distinct (own_keys r)"
  by (auto simp: own_keys_def distinct_sort)

lemma own_keys_no_index:
  "\<forall>k\<in>set (map fst r). \<not> is_array_index k \<Longrightarrow> own_keys r = map fst r"
proof -
  assume h: "\<forall>k\<in>set (map fst r). \<not> is_array_index k"
  then have "filter is_array_index (map fst r) = []" by (simp add: filter_empty_conv)
  moreover have "filter (\<lambda>k. \<not> is_array_index k) (map fst r) = map fst r"
    using h by (simp add: filter_id_conv)
  ultimately show ?thesis by (simp add: own_keys_def)
qed

text \<open>A name with a letter in it is no array index.\<close>

lemma not_index_letter: "u \<in> set k \<Longrightarrow> \<not> is_dec_digit u \<Longrightarrow> \<not> is_array_index k"
  by (auto simp: is_array_index_def list_all_iff)

subsection \<open>The records of csv-parser\<close>

text \<open>The key of the \<open>i\<close>-th cell: its header, or \<open>_i\<close> past the headers (95 is
  \<open>_\<close>).\<close>

definition csv_key :: "jstr list \<Rightarrow> nat \<Rightarrow> jstr" where
  "csv_key hs i = (if i < length hs then hs ! i else 95 # nat_digits i)"

text \<open>\<open>cells.reduce((o, cell, index) => { o[key] = cell; return o }, {})\<close>.\<close>

fun csv_fill :: "jstr list \<Rightarrow> nat \<Rightarrow> jstr list \<Rightarrow> row \<Rightarrow> row" where
  "csv_fill hs i [] r = r"
| "csv_fill hs i (c # cs) r = csv_fill hs (Suc i) cs (put r (csv_key hs i) (VStr c))"

definition csv_row :: "jstr list \<Rightarrow> jstr list \<Rightarrow> row" where
  "csv_row hs cells = csv_fill hs 0 cells []"

declare csv_key_def [js_eval] csv_row_def [js_eval]

lemma csv_fill_keys:
  "distinct hs \<Longrightarrow> map fst r = take i hs \<Longrightarrow> i + length cs = length hs \<Longrightarrow>
   map fst (csv_fill hs i cs r) = hs"
proof (induction hs i cs r rule: csv_fill.induct)
  case (1 hs i r)
  then show ?case by simp
next
  case (2 hs i c cs r)
  then have i: "i < length hs" by simp
  have "hs ! i \<notin> set (take i hs)"
    using 2(2) i by (simp add: distinct_conv_nth in_set_conv_nth)
  then have "map fst (put r (csv_key hs i) (VStr c)) = take (Suc i) hs"
    using 2(3) i by (simp add: keys_put csv_key_def take_Suc_conv_app_nth)
  with 2 show ?case by simp
qed

lemma csv_fill_frame:
  "\<forall>j<length cs. csv_key hs (i + j) \<noteq> k \<Longrightarrow> get (csv_fill hs i cs r) k = get r k"
proof (induction hs i cs r rule: csv_fill.induct)
  case (2 hs i c cs r)
  have "\<forall>j<length cs. csv_key hs (Suc i + j) \<noteq> k"
    using 2(2) by (metis add_Suc_shift length_Cons Suc_less_eq add_Suc_right)
  with 2(1) have "get (csv_fill hs (Suc i) cs (put r (csv_key hs i) (VStr c))) k =
                  get (put r (csv_key hs i) (VStr c)) k" by blast
  moreover have "csv_key hs i \<noteq> k" using 2(2) by (metis add_0_right length_Cons zero_less_Suc)
  ultimately show ?case by (simp add: get_put)
qed simp

lemma csv_fill_get:
  "distinct hs \<Longrightarrow> i + length cs = length hs \<Longrightarrow> j < length cs \<Longrightarrow>
   get (csv_fill hs i cs r) (hs ! (i + j)) = Some (VStr (cs ! j))"
proof (induction hs i cs r arbitrary: j rule: csv_fill.induct)
  case (2 hs i c cs r)
  show ?case
  proof (cases j)
    case 0
    have "\<forall>j'<length cs. csv_key hs (Suc i + j') \<noteq> hs ! i"
      using 2(2,3) by (auto simp: csv_key_def nth_eq_iff_index_eq)
    then have "get (csv_fill hs (Suc i) cs (put r (csv_key hs i) (VStr c))) (hs ! i) =
               get (put r (csv_key hs i) (VStr c)) (hs ! i)"
      by (rule csv_fill_frame)
    then show ?thesis using 0 2(3) by (simp add: get_put csv_key_def)
  next
    case (Suc j')
    with 2 show ?thesis by simp
  qed
qed simp

lemma csv_row_keys:
  "distinct hs \<Longrightarrow> length cells = length hs \<Longrightarrow> map fst (csv_row hs cells) = hs"
  by (simp add: csv_row_def csv_fill_keys)

lemma csv_row_get:
  "distinct hs \<Longrightarrow> length cells = length hs \<Longrightarrow> j < length hs \<Longrightarrow>
   get (csv_row hs cells) (hs ! j) = Some (VStr (cells ! j))"
  using csv_fill_get [of hs 0 cells j "[]"] by (simp add: csv_row_def)

end
