(* ===== verification/Writer.thy ===== *)
theory Writer
  imports Objects
begin

text \<open>
  The TSV text of \<open>fastCsv.write(results, { headers: true, delimiter: '\t' })\<close>
  (\<^verbatim>\<open>src/cleaner.js\<close>, line 80), with the library's defaults: quote and escape
  character \<open>"\<close>, row delimiter \<open>\n\<close>, no delimiter after the last row. With
  \<open>headers: true\<close> the columns are \<open>Object.keys\<close> of the first record, written
  first as the header line; each record is then written as its values under those
  columns, \<open>undefined\<close> as the empty field and a number by \<open>String\<close>. The
  library's \<open>FieldFormatter.format\<close> first deletes every NUL character; a field
  then holding a quote is quoted with its quotes doubled; one matching its
  \<open>ESCAPE_REGEXP\<close> \<open>[\t\n|\r|\n]\<close> (a tab, a newline, a carriage return or a
  \<open>|\<close>) is quoted; any other field is written as it is. Header names are
  formatted the same way. No record, no text: the columns are never found. A
  reader of such text (\<open>rd_tsv\<close>, quoted fields, tabs between fields, newlines
  between lines) is the reference against which the writer is proved: reading the
  text gives back the header and every record's values with their NULs deleted,
  and every line has one field per column.
\<close>

subsection \<open>The writer\<close>

text \<open>\<open>`${field ?? ''}`\<close>: the text of a value.\<close>

definition field_text :: "jsval option \<Rightarrow> jstr" where
  "field_text v = (case v of None \<Rightarrow> [] | Some (VStr s) \<Rightarrow> s | Some (VNum n) \<Rightarrow> js_number_to_string n)"

definition escape_quotes :: "jstr \<Rightarrow> jstr" where
  "escape_quotes s = concat (map (\<lambda>u. if u = 34 then [34, 34] else [u]) s)"

text \<open>\<open>.replace(/\0/g, '')\<close>.\<close>

definition strip_nul :: "jstr \<Rightarrow> jstr" where
  "strip_nul s = filter (\<lambda>u. u \<noteq> 0) s"

text \<open>34 is \<open>"\<close>, 9 the tab, 10 the newline, 13 the carriage return, 124 \<open>|\<close>.\<close>

definition format_field :: "jstr \<Rightarrow> jstr" where
  "format_field field =
     (let s = strip_nul field in
      if 34 \<in> set s then 34 # escape_quotes s @ [34]
      else if 9 \<in> set s \<or> 10 \<in> set s \<or> 13 \<in> set s \<or> 124 \<in> set s then 34 # s @ [34]
      else s)"

definition format_line :: "jstr list \<Rightarrow> jstr" where
  "format_line fs = js_join 9 (map format_field fs)"

definition row_fields :: "jstr list \<Rightarrow> row \<Rightarrow> jstr list" where
  "row_fields hs r = map (\<lambda>h. field_text (get r h)) hs"

definition tsv_text :: "row list \<Rightarrow> jstr" where
  "tsv_text rows =
     (case rows of
        [] \<Rightarrow> []
      | r # _ \<Rightarrow> js_join 10 (map format_line (own_keys r # map (row_fields (own_keys r)) rows)))"

declare field_text_def [js_eval] strip_nul_def [js_eval] escape_quotes_def [js_eval] format_field_def [js_eval]
  format_line_def [js_eval] row_fields_def [js_eval] tsv_text_def [js_eval]

subsection \<open>A reader of the text\<close>

fun rd_plain :: "jstr \<Rightarrow> jstr \<times> jstr" where
  "rd_plain [] = ([], [])"
| "rd_plain (u # s) =
     (if u = 9 \<or> u = 10 then ([], u # s) else (let (f, r) = rd_plain s in (u # f, r)))"

fun rd_quoted :: "jstr \<Rightarrow> jstr \<times> jstr" where
  "rd_quoted [] = ([], [])"
| "rd_quoted (u # s) =
     (if u = 34 then
        (case s of
           v # s' \<Rightarrow> if v = 34 then (let (f, r) = rd_quoted s' in (34 # f, r)) else ([], s)
         | [] \<Rightarrow> ([], []))
      else (let (f, r) = rd_quoted s in (u # f, r)))"

definition rd_field :: "jstr \<Rightarrow> jstr \<times> jstr" where
  "rd_field s = (case s of [] \<Rightarrow> ([], []) | u # s' \<Rightarrow> if u = 34 then rd_quoted s' else rd_plain s)"

lemma rd_plain_len: "rd_plain s = (f, r) \<Longrightarrow> length r \<le> length s"
  by (induction s arbitrary: f r) (auto split: if_splits prod.splits)

lemma rd_quoted_len: "rd_quoted s = (f, r) \<Longrightarrow> length r \<le> length s"
proof (induction s arbitrary: f r rule: rd_quoted.induct)
  case (2 u s)
  then show ?case
    by (cases s) (auto split: if_splits prod.splits, fastforce+)
qed simp

lemma rd_field_len:
  assumes "rd_field s = (f, r)"
  shows "length r \<le> length s"
proof (cases s)
  case Nil
  with assms show ?thesis by (simp add: rd_field_def)
next
  case (Cons u s')
  show ?thesis
  proof (cases "u = 34")
    case True
    with Cons assms have "rd_quoted s' = (f, r)" by (simp add: rd_field_def)
    then show ?thesis using Cons by (auto dest: rd_quoted_len)
  next
    case False
    with Cons assms have "rd_plain s = (f, r)" by (simp add: rd_field_def del: rd_plain.simps)
    then show ?thesis by (rule rd_plain_len)
  qed
qed

text \<open>One line: its fields, and the text after its newline (\<open>None\<close> at the end).\<close>

function rd_line :: "jstr \<Rightarrow> jstr list \<times> jstr option" where
  "rd_line s =
     (case rd_field s of
        (f, u # r) \<Rightarrow>
          if u = 9 then (case rd_line r of (fs, rest) \<Rightarrow> (f # fs, rest))
          else if u = 10 then ([f], Some r) else ([f], None)
      | (f, []) \<Rightarrow> ([f], None))"
  by pat_completeness auto
termination
  by (relation "measure length") (auto dest!: rd_field_len [OF sym])

declare rd_line.simps [simp del]

lemma rd_line_len: "rd_line s = (fs, Some r) \<Longrightarrow> length r < length s"
proof (induction s arbitrary: fs rule: rd_line.induct)
  case (1 s)
  obtain f t where ft: "rd_field s = (f, t)" by fastforce
  then have le: "length t \<le> length s" by (rule rd_field_len)
  from 1(2) ft obtain u t' where t: "t = u # t'"
    by (cases t) (simp_all add: rd_line.simps)
  show ?case
  proof (cases "u = 9")
    case True
    obtain fs' rest where l: "rd_line t' = (fs', rest)" by fastforce
    with 1(2) ft t True have "rest = Some r" by (simp add: rd_line.simps)
    with 1(1) [OF ft [symmetric] t True, of fs'] l have "length r < length t'" by simp
    with le t show ?thesis by simp
  next
    case False
    with 1(2) ft t have "u = 10 \<and> r = t'" by (simp add: rd_line.simps split: if_splits)
    with le t show ?thesis by simp
  qed
qed

function rd_tsv :: "jstr \<Rightarrow> jstr list list" where
  "rd_tsv s = (case rd_line s of (fs, None) \<Rightarrow> [fs] | (fs, Some r) \<Rightarrow> fs # rd_tsv r)"
  by pat_completeness auto
termination
  by (relation "measure length") (auto dest!: rd_line_len [OF sym])

declare rd_tsv.simps [simp del]


subsection \<open>Reading the text back\<close>

text \<open>What may follow a field: the end of the text, a tab or a newline.\<close>

definition field_end :: "jstr \<Rightarrow> bool" where
  "field_end rest \<longleftrightarrow> rest = [] \<or> hd rest = 9 \<or> hd rest = 10"

lemma escape_quotes_id: "34 \<notin> set s \<Longrightarrow> escape_quotes s = s"
  by (induction s) (auto simp: escape_quotes_def)

lemma escape_quotes_Cons:
  "escape_quotes (u # s) = (if u = 34 then [34, 34] else [u]) @ escape_quotes s"
  by (simp add: escape_quotes_def)

lemma rd_plain_append:
  "9 \<notin> set f \<Longrightarrow> 10 \<notin> set f \<Longrightarrow> field_end rest \<Longrightarrow> rd_plain (f @ rest) = (f, rest)"
proof (induction f)
  case Nil
  then show ?case by (cases rest) (auto simp: field_end_def)
qed auto

lemma rd_quoted_append:
  "field_end rest \<Longrightarrow> rd_quoted (escape_quotes f @ 34 # rest) = (f, rest)"
proof (induction f)
  case Nil
  then show ?case by (cases rest) (auto simp: field_end_def escape_quotes_def)
next
  case (Cons u f)
  then show ?case by (simp add: escape_quotes_Cons)
qed

text \<open>The three ways a field is written, each read back by \<open>rd_field\<close>.\<close>

lemma rd_field_cases:
  assumes e: "field_end rest"
  shows "rd_field ((if 34 \<in> set s then 34 # escape_quotes s @ [34]
      else if 9 \<in> set s \<or> 10 \<in> set s \<or> 13 \<in> set s \<or> 124 \<in> set s then 34 # s @ [34]
      else s) @ rest) = (s, rest)"
proof (cases "34 \<in> set s")
  case True
  then show ?thesis using rd_quoted_append [OF e, of s] by (simp add: rd_field_def)
next
  case q: False
  show ?thesis
  proof (cases "9 \<in> set s \<or> 10 \<in> set s \<or> 13 \<in> set s \<or> 124 \<in> set s")
    case True
    then show ?thesis using q rd_quoted_append [OF e, of s]
      by (simp add: rd_field_def escape_quotes_id)
  next
    case False
    then have p: "rd_plain (s @ rest) = (s, rest)" using e by (simp add: rd_plain_append)
    show ?thesis
    proof (cases s)
      case Nil
      with e p show ?thesis by (cases rest) (auto simp: rd_field_def field_end_def)
    next
      case (Cons u s')
      with q False p show ?thesis by (simp add: rd_field_def del: rd_plain.simps)
    qed
  qed
qed

lemma rd_field_format:
  assumes e: "field_end rest"
  shows "rd_field (format_field f @ rest) = (strip_nul f, rest)"
  unfolding format_field_def Let_def by (rule rd_field_cases [OF e])

lemma rd_line_format:
  "fs \<noteq> [] \<Longrightarrow> rest = [] \<or> hd rest = 10 \<Longrightarrow>
   rd_line (format_line fs @ rest) = (map strip_nul fs, if rest = [] then None else Some (tl rest))"
proof (induction fs rule: induct_list012)
  case (2 f)
  have "field_end rest" using 2(2) by (auto simp: field_end_def)
  with 2(2) show ?case
    by (subst rd_line.simps) (auto simp: format_line_def rd_field_format neq_Nil_conv)
next
  case (3 f g gs)
  have "field_end (9 # format_line (g # gs) @ rest)" by (simp add: field_end_def)
  then have "rd_field (format_field f @ 9 # format_line (g # gs) @ rest) =
             (strip_nul f, 9 # format_line (g # gs) @ rest)" by (rule rd_field_format)
  with 3 show ?case
    by (subst rd_line.simps) (simp add: format_line_def)
qed simp

text \<open>Lines of at least one field each, written and read back.\<close>

lemma rd_tsv_lines:
  "ls \<noteq> [] \<Longrightarrow> \<forall>fs\<in>set ls. fs \<noteq> [] \<Longrightarrow>
   rd_tsv (js_join 10 (map format_line ls)) = map (map strip_nul) ls"
proof (induction ls rule: induct_list012)
  case (2 fs)
  then show ?case using rd_line_format [of fs "[]"] by (subst rd_tsv.simps) simp
next
  case (3 fs gs ls)
  have "fs \<noteq> []" using 3 by simp
  then have "rd_line (format_line fs @ 10 # js_join 10 (map format_line (gs # ls))) =
        (map strip_nul fs, Some (js_join 10 (map format_line (gs # ls))))"
    using rd_line_format [of fs "10 # js_join 10 (map format_line (gs # ls))"] by simp
  with 3 show ?case by (subst rd_tsv.simps) simp
qed simp


lemma row_fields_Nil_iff [simp]: "row_fields hs r = [] \<longleftrightarrow> hs = []"
  by (simp add: row_fields_def)

lemma rd_tsv_text:
  "rows \<noteq> [] \<Longrightarrow> own_keys (hd rows) \<noteq> [] \<Longrightarrow>
   rd_tsv (tsv_text rows) = map (map strip_nul) (own_keys (hd rows) # map (row_fields (own_keys (hd rows))) rows)"
proof (cases rows)
  case (Cons r rs)
  assume k: "own_keys (hd rows) \<noteq> []"
  then show ?thesis
    using Cons rd_tsv_lines [of "own_keys r # map (row_fields (own_keys r)) rows"]
    by (simp add: tsv_text_def)
qed simp

lemma row_fields_keys:
  "distinct (map fst r) \<Longrightarrow> row_fields (map fst r) r = map (\<lambda>(k, v). field_text (Some v)) r"
proof (induction r)
  case (Cons p r)
  obtain k v where p: "p = (k, v)" by fastforce
  have "map (\<lambda>h. field_text (get ((k, v) # r) h)) (map fst r) = map (\<lambda>h. field_text (get r h)) (map fst r)"
    using Cons.prems p by (auto simp: get_def)
  with Cons p show ?case by (simp add: row_fields_def get_def)
qed (simp add: row_fields_def)

text \<open>C10: nothing but NUL characters is lost in the TSV text of records that share
  their keys (none an array index): reading it back gives the keys as the header
  and, for every record in order, the texts of all its values in the order of its
  keys, each with its NULs deleted.\<close>

theorem tsv_text_lossless:
  assumes "rows \<noteq> []" "K \<noteq> []" "distinct K" "\<forall>k\<in>set K. \<not> is_array_index k"
    and "\<forall>r\<in>set rows. map fst r = K"
  shows "rd_tsv (tsv_text rows) =
           map strip_nul K # map (map (\<lambda>(k, v). strip_nul (field_text (Some v)))) rows"
proof -
  have keys: "own_keys r = K" if "r \<in> set rows" for r
    using that assms(4,5) own_keys_no_index [of r] by simp
  have "own_keys (hd rows) = K" using assms(1) keys by simp
  moreover have "row_fields K r = map (\<lambda>(k, v). field_text (Some v)) r" if "r \<in> set rows" for r
    using that assms(3,5) row_fields_keys [of r] by simp
  ultimately show ?thesis
    using rd_tsv_text [of rows] assms(1,2) by (simp add: case_prod_unfold)
qed


end
