(* ===== verification/Pipeline.thy ===== *)
theory Pipeline
  imports Row
begin

text \<open>
  The stream of \<^verbatim>\<open>src/cleaner.js\<close> (lines 50 to 85): \<open>results\<close> starts empty
  (line 50); each \<open>'data'\<close> event runs the handler on one record and pushes a kept
  record (line 75); the \<open>'end'\<close> event hands \<open>results\<close> to the TSV writer (line 80).
  The state is a record of the accumulator and the data set handed to the writer;
  the events are a datatype; a step is a function, and a run over the events stops
  at the first exception, as an exception thrown by a \<open>'data'\<close> listener ends the
  process before \<open>'end'\<close>. The abstract specification \<open>clean_rows\<close> maps the
  handler over the records, keeping the kept ones in order. Lemmas: the event loop
  refines the specification; without exceptions the output is the transformed
  retained records in input order; every state reached keeps the output invariant;
  one failing record means nothing is written.
\<close>

record pstate =
  results :: "row list"
  written :: "row list option"

datatype stream_event = Data row | End

definition init_state :: pstate where
  "init_state = \<lparr>results = [], written = None\<rparr>"

fun pipeline_step :: "(int \<Rightarrow> int) \<Rightarrow> pstate \<Rightarrow> stream_event \<Rightarrow> js_error + pstate" where
  "pipeline_step tz s (Data row) =
     (case on_data tz row of
        Inl e \<Rightarrow> Inl e
      | Inr None \<Rightarrow> Inr s
      | Inr (Some r) \<Rightarrow> Inr (s\<lparr>results := results s @ [r]\<rparr>))"
| "pipeline_step tz s End = Inr (s\<lparr>written := Some (results s)\<rparr>)"

fun run_events :: "(int \<Rightarrow> int) \<Rightarrow> pstate \<Rightarrow> stream_event list \<Rightarrow> js_error + pstate" where
  "run_events tz s [] = Inr s"
| "run_events tz s (ev # evs) =
     (case pipeline_step tz s ev of Inl e \<Rightarrow> Inl e | Inr s' \<Rightarrow> run_events tz s' evs)"

text \<open>The whole run: one \<open>'data'\<close> event per record of the file, then \<open>'end'\<close>.\<close>

definition run_pipeline :: "(int \<Rightarrow> int) \<Rightarrow> row list \<Rightarrow> js_error + pstate" where
  "run_pipeline tz rows = run_events tz init_state (map Data rows @ [End])"

subsection \<open>Abstract specification\<close>

fun clean_rows :: "(int \<Rightarrow> int) \<Rightarrow> row list \<Rightarrow> js_error + row list" where
  "clean_rows tz [] = Inr []"
| "clean_rows tz (r # rs) =
     (case on_data tz r of
        Inl e \<Rightarrow> Inl e
      | Inr x \<Rightarrow> (case clean_rows tz rs of
                    Inl e \<Rightarrow> Inl e
                  | Inr out \<Rightarrow> Inr (case x of None \<Rightarrow> out | Some r' \<Rightarrow> r' # out)))"

declare init_state_def [js_eval] run_pipeline_def [js_eval]

subsection \<open>Refinement\<close>

lemma run_events_data:
  "run_events tz s (map Data rows @ evs) =
     (case clean_rows tz rows of
        Inl e \<Rightarrow> Inl e
      | Inr out \<Rightarrow> run_events tz (s\<lparr>results := results s @ out\<rparr>) evs)"
proof (induction rows arbitrary: s)
  case Nil
  then show ?case by simp
next
  case (Cons r rs)
  then show ?case
    by (auto split: sum.splits option.splits)
qed

text \<open>C1: the event loop (push on \<open>'data'\<close>, hand over on \<open>'end'\<close>, stop at the first
  exception) computes the abstract specification: it fails exactly when
  \<open>clean_rows\<close> fails, and otherwise writes the list \<open>clean_rows\<close> returns.\<close>

theorem run_pipeline_refines:
  "run_pipeline tz rows =
     (case clean_rows tz rows of
        Inl e \<Rightarrow> Inl e
      | Inr out \<Rightarrow> Inr \<lparr>results = out, written = Some out\<rparr>)"
  by (simp add: run_pipeline_def run_events_data init_state_def split: sum.splits)

subsection \<open>Order and selection\<close>

text \<open>The record the handler makes of a kept record.\<close>

definition row_result :: "(int \<Rightarrow> int) \<Rightarrow> row \<Rightarrow> row" where
  "row_result tz r = (case on_data tz r of Inr (Some r') \<Rightarrow> r' | _ \<Rightarrow> r)"

lemma clean_rows_filter_map:
  "\<forall>r\<in>set rows. \<not> isl (on_data tz r) \<Longrightarrow>
   clean_rows tz rows = Inr (map (row_result tz) (filter retained rows))"
proof (induction rows)
  case (Cons r rs)
  then obtain x where x: "on_data tz r = Inr x" by (cases "on_data tz r") auto
  show ?case
  proof (cases "retained r")
    case True
    with x on_data_retained_not_None [of r tz] obtain r' where "x = Some r'" by (cases x) auto
    with Cons x True show ?thesis by (simp add: row_result_def)
  next
    case False
    with x on_data_not_retained [of r tz] have "x = None" by simp
    with Cons x False show ?thesis by simp
  qed
qed simp

text \<open>C2: when no record throws, the run ends and writes exactly the retained records
  (truthy cleaned e-mail and \<open>zam = '0'\<close>), each transformed by the handler, in
  the order of the input.\<close>

theorem run_pipeline_output:
  "\<forall>r\<in>set rows. \<not> isl (on_data tz r) \<Longrightarrow>
   \<exists>s. run_pipeline tz rows = Inr s \<and> written s = Some (map (row_result tz) (filter retained rows))"
  by (simp add: run_pipeline_def run_events_data init_state_def clean_rows_filter_map)

subsection \<open>The output invariant, step by step\<close>

definition good_row :: "row \<Rightarrow> bool" where
  "good_row r \<longleftrightarrow>
     (\<exists>ce. get r k_cleanedEmail = Some (VStr ce) \<and> email_shape ce)
     \<and> get r k_zam = Some (VStr (js ''0''))"

definition pipeline_inv :: "pstate \<Rightarrow> bool" where
  "pipeline_inv s \<longleftrightarrow>
     list_all good_row (results s) \<and> (case written s of None \<Rightarrow> True | Some out \<Rightarrow> list_all good_row out)"

lemma pipeline_inv_init: "pipeline_inv init_state"
  by (simp add: pipeline_inv_def init_state_def)

lemma pipeline_step_inv:
  "pipeline_inv s \<Longrightarrow> pipeline_step tz s ev = Inr s' \<Longrightarrow> pipeline_inv s'"
proof (cases ev)
  case (Data row)
  assume inv: "pipeline_inv s" and st: "pipeline_step tz s ev = Inr s'"
  show ?thesis
  proof (cases "on_data tz row")
    case (Inr x)
    show ?thesis
    proof (cases x)
      case (Some r)
      with Inr have "good_row r"
        using on_data_kept_invariant [of tz row r] by (simp add: good_row_def)
      with inv st Data Inr Some show ?thesis by (auto simp: pipeline_inv_def)
    qed (use inv st Data Inr in simp)
  qed (use st Data in simp)
qed (auto simp: pipeline_inv_def)

lemma run_events_inv:
  "pipeline_inv s \<Longrightarrow> run_events tz s evs = Inr s' \<Longrightarrow> pipeline_inv s'"
proof (induction evs arbitrary: s)
  case (Cons ev evs)
  then show ?case
    by (auto split: sum.splits intro: pipeline_step_inv)
qed simp

text \<open>C3: the data set the run hands to the writer satisfies the invariant of spec
  section 3: every record has a \<open>cleanedEmail\<close> of the shape \<open>a@b.c\<close> and
  \<open>zam = '0'\<close>.\<close>

theorem run_pipeline_written_good:
  "run_pipeline tz rows = Inr s \<Longrightarrow> written s = Some out \<Longrightarrow> \<forall>r\<in>set out. good_row r"
proof -
  assume run: "run_pipeline tz rows = Inr s" and w: "written s = Some out"
  have "pipeline_inv s"
    using pipeline_inv_init run unfolding run_pipeline_def by (rule run_events_inv)
  with w show ?thesis by (simp add: pipeline_inv_def list_all_iff)
qed

subsection \<open>Exceptions\<close>

lemma clean_rows_isl:
  "r \<in> set rows \<Longrightarrow> isl (on_data tz r) \<Longrightarrow> isl (clean_rows tz rows)"
  by (induction rows) (auto split: sum.splits)

text \<open>C4: one record whose handler throws ends the run with the exception, and
  nothing is written.\<close>

theorem run_pipeline_error:
  "r \<in> set rows \<Longrightarrow> isl (on_data tz r) \<Longrightarrow> \<exists>e. run_pipeline tz rows = Inl e"
  using clean_rows_isl [of r rows tz]
  by (auto simp: run_pipeline_def run_events_data split: sum.splits)

subsection \<open>Well-formed records\<close>

lemma clean_rows_from:
  "clean_rows tz rows = Inr out \<Longrightarrow> r' \<in> set out \<Longrightarrow> \<exists>r\<in>set rows. on_data tz r = Inr (Some r')"
proof (induction rows arbitrary: out)
  case (Cons r rs)
  then show ?case by (auto split: sum.splits option.splits)
qed simp

text \<open>If every input record has distinct keys, so has every written record.\<close>

lemma run_pipeline_wf:
  "\<forall>r\<in>set rows. wf_row r \<Longrightarrow> run_pipeline tz rows = Inr s \<Longrightarrow> written s = Some out \<Longrightarrow>
   \<forall>r'\<in>set out. wf_row r'"
proof
  fix r' assume wf: "\<forall>r\<in>set rows. wf_row r" and run: "run_pipeline tz rows = Inr s"
    and w: "written s = Some out" and r': "r' \<in> set out"
  from run w have "clean_rows tz rows = Inr out"
    by (auto simp: run_pipeline_def run_events_data init_state_def split: sum.splits)
  with r' obtain r where "r \<in> set rows" "on_data tz r = Inr (Some r')"
    by (blast dest: clean_rows_from)
  with wf show "wf_row r'"
    by (auto dest!: on_data_Some_cases intro: wf_transform_row)
qed

end
