(* ===== verification/Program.thy ===== *)
theory Program
  imports Writer Pipeline
begin

text \<open>
  The program as a whole (\<^verbatim>\<open>src/cleaner.js\<close>): the records \<open>csv-parser\<close> makes of
  the cells of the input's lines (line 53), the stream of \<open>Pipeline\<close> over them
  (lines 52 to 76), and the \<open>'end'\<close> listener (lines 77 to 85), which opens
  \<open>outputFilePath\<close> (line 8, \<open>path.join(__dirname, 'processed_done_total.csv')\<close>),
  writes the TSV text of \<open>results\<close> into it and, on \<open>'finish'\<close>, prints the
  confirmation. The effects are a record: the file written (its path and text) and
  the lines printed. \<open>__dirname\<close> is a parameter, a normalised absolute directory
  as Node gives it. Lemmas: the program prints its confirmation exactly when no
  record throws, and has then written the TSV of the retained records; nothing
  retained means an empty file; on a CSV whose lines have one cell per distinct
  header, reading the file back gives the input's columns followed by the new ones,
  and every output record has exactly those columns.
\<close>

definition path_join :: "jstr \<Rightarrow> jstr \<Rightarrow> jstr" where
  "path_join dir name = (if dir \<noteq> [] \<and> last dir = 47 then dir @ name else dir @ 47 # name)"

definition outputFilePath :: "jstr \<Rightarrow> jstr" where
  "outputFilePath dir = path_join dir (js ''processed_done_total.csv'')"

text \<open>9989 is the check mark U+2705.\<close>

definition finish_message :: "jstr \<Rightarrow> jstr" where
  "finish_message dir = 9989 # js '' Cleaned dataset saved to: '' @ outputFilePath dir"

record program_output =
  out_file :: "(jstr \<times> jstr) option"
  console :: "jstr list"

definition on_end :: "jstr \<Rightarrow> row list \<Rightarrow> program_output" where
  "on_end dir out =
     \<lparr>out_file = Some (outputFilePath dir, tsv_text out), console = [finish_message dir]\<rparr>"

text \<open>A run that never saw \<open>'end'\<close> writes nothing and prints nothing.\<close>

definition run_program :: "jstr \<Rightarrow> (int \<Rightarrow> int) \<Rightarrow> row list \<Rightarrow> js_error + program_output" where
  "run_program dir tz rows =
     (case run_pipeline tz rows of
        Inl e \<Rightarrow> Inl e
      | Inr s \<Rightarrow> Inr (case written s of
                       Some out \<Rightarrow> on_end dir out
                     | None \<Rightarrow> \<lparr>out_file = None, console = []\<rparr>))"

definition run_cleaner ::
  "jstr \<Rightarrow> (int \<Rightarrow> int) \<Rightarrow> jstr list \<Rightarrow> jstr list list \<Rightarrow> js_error + program_output" where
  "run_cleaner dir tz hs cellss = run_program dir tz (map (csv_row hs) cellss)"

declare path_join_def [js_eval] outputFilePath_def [js_eval] finish_message_def [js_eval]
  on_end_def [js_eval] run_program_def [js_eval] run_cleaner_def [js_eval]

text \<open>The columns of the output of a CSV with the headers \<open>hs\<close>.\<close>

definition out_columns :: "jstr list \<Rightarrow> jstr list" where
  "out_columns hs = hs @ filter (\<lambda>k. k \<notin> set hs) [k_timeSpentMinutes, k_cleanedEmail, k_COVID, k_b4]"

subsection \<open>The program and the abstract specification\<close>

lemma run_program_eq:
  "run_program dir tz rows =
     (case clean_rows tz rows of Inl e \<Rightarrow> Inl e | Inr out \<Rightarrow> Inr (on_end dir out))"
  by (simp add: run_program_def run_pipeline_def run_events_data init_state_def split: sum.splits)


lemma new_keys_not_index:
  "\<forall>k\<in>set [k_timeSpentMinutes, k_cleanedEmail, k_COVID, k_b4]. \<not> is_array_index k"
  by (simp add: is_array_index_def column_names is_dec_digit_def)

lemma out_columns_not_Nil: "out_columns hs \<noteq> []"
  by (cases hs) (simp_all add: out_columns_def)

text \<open>The keys of the record the handler makes of a retained record that does not
  throw.\<close>

lemma row_result_keys:
  assumes "\<not> isl (on_data tz r)" "retained r"
  shows "map fst (row_result tz r) =
           map fst r @ filter (\<lambda>k. k \<notin> set (map fst r))
                              [k_timeSpentMinutes, k_cleanedEmail, k_COVID, k_b4]"
proof -
  obtain x where x: "on_data tz r = Inr x" using assms(1) by (cases "on_data tz r") auto
  with assms(2) on_data_retained_not_None [of r tz] obtain r' where r': "x = Some r'"
    by (cases x) auto
  with x obtain ce dc mins where "r' = transform_row r mins ce (covid_flag dc)"
    by (blast dest: on_data_Some_cases)
  with x r' show ?thesis by (simp add: row_result_def keys_transform_row)
qed

subsection \<open>What the program prints and writes\<close>

text \<open>C5: the program reaches its \<open>'end'\<close> listener, writes the output file and
  prints the confirmation exactly when no record makes the handler throw; the file
  then holds the TSV text of the retained records, transformed, in input order.\<close>

theorem run_program_confirms:
  "(\<exists>out. run_program dir tz rows = Inr out \<and> console out = [finish_message dir]
      \<and> out_file out = Some (outputFilePath dir, tsv_text (map (row_result tz) (filter retained rows))))
   \<longleftrightarrow> (\<forall>r\<in>set rows. \<not> isl (on_data tz r))"
proof
  assume ok: "\<forall>r\<in>set rows. \<not> isl (on_data tz r)"
  then show "\<exists>out. run_program dir tz rows = Inr out \<and> console out = [finish_message dir]
      \<and> out_file out = Some (outputFilePath dir, tsv_text (map (row_result tz) (filter retained rows)))"
    by (simp add: run_program_eq clean_rows_filter_map on_end_def)
next
  assume "\<exists>out. run_program dir tz rows = Inr out \<and> console out = [finish_message dir]
      \<and> out_file out = Some (outputFilePath dir, tsv_text (map (row_result tz) (filter retained rows)))"
  then have "\<not> isl (clean_rows tz rows)"
    by (auto simp: run_program_eq split: sum.splits)
  then show "\<forall>r\<in>set rows. \<not> isl (on_data tz r)"
    using clean_rows_isl by blast
qed

text \<open>C28: when no record is retained, the program still writes the output file,
  empty: without a first record \<open>fast-csv\<close> finds no columns and writes no
  header line, though spec section 6 promises one.\<close>

theorem run_program_nothing_retained:
  "\<forall>r\<in>set rows. \<not> retained r \<Longrightarrow>
   run_program dir tz rows =
     Inr \<lparr>out_file = Some (outputFilePath dir, []), console = [finish_message dir]\<rparr>"
proof -
  assume none: "\<forall>r\<in>set rows. \<not> retained r"
  then have "\<forall>r\<in>set rows. \<not> isl (on_data tz r)" by (simp add: on_data_not_retained)
  then have "clean_rows tz rows = Inr []"
    using none by (simp add: clean_rows_filter_map filter_empty_conv)
  then show ?thesis by (simp add: run_program_eq on_end_def tsv_text_def)
qed

subsection \<open>From the input's cells to the output's columns\<close>

text \<open>C9: on a CSV whose header names are distinct (none an array index) and whose
  lines have one cell per header, if no record throws and one is retained, then
  every output record has exactly the columns of the input followed by the new
  ones, and reading the file back gives those columns as the header and every
  output record's values under them, in input order, with their NUL characters
  deleted.\<close>

theorem run_cleaner_columns:
  assumes hs: "distinct hs" "\<forall>h\<in>set hs. \<not> is_array_index h"
    and cells: "\<forall>cs\<in>set cellss. length cs = length hs"
    and ok: "\<forall>r\<in>set (map (csv_row hs) cellss). \<not> isl (on_data tz r)"
    and kept: "\<exists>r\<in>set (map (csv_row hs) cellss). retained r"
  shows "\<exists>out text. run_cleaner dir tz hs cellss = Inr out
     \<and> out_file out = Some (outputFilePath dir, text)
     \<and> rd_tsv text = map (map strip_nul) (out_columns hs # map (row_fields (out_columns hs))
                      (map (row_result tz) (filter retained (map (csv_row hs) cellss))))
     \<and> (\<forall>r\<in>set (map (row_result tz) (filter retained (map (csv_row hs) cellss))).
          map fst r = out_columns hs)"
proof -
  define R where "R = map (csv_row hs) cellss"
  define W where "W = map (row_result tz) (filter retained R)"
  have keys: "map fst r = out_columns hs" if "r \<in> set W" for r
  proof -
    from that obtain x where x: "x \<in> set R" "retained x" "r = row_result tz x"
      by (auto simp: W_def)
    then obtain cs where "cs \<in> set cellss" "x = csv_row hs cs" by (auto simp: R_def)
    with cells hs(1) have k: "map fst x = hs" by (simp add: csv_row_keys)
    have "\<not> isl (on_data tz x)" using ok x(1) unfolding R_def by blast
    from row_result_keys [OF this x(2)] k x(3) show ?thesis by (simp add: out_columns_def)
  qed
  have own: "own_keys r = out_columns hs" if "r \<in> set W" for r
  proof -
    have "\<forall>k\<in>set (out_columns hs). \<not> is_array_index k"
      using hs(2) new_keys_not_index by (auto simp: out_columns_def)
    with keys [OF that] show ?thesis using own_keys_no_index [of r] by simp
  qed
  have W: "W \<noteq> []" using kept by (auto simp: W_def R_def filter_empty_conv)
  then have "own_keys (hd W) = out_columns hs" using own by simp
  then have rd: "rd_tsv (tsv_text W) = map (map strip_nul) (out_columns hs # map (row_fields (out_columns hs)) W)"
    using rd_tsv_text [OF W] out_columns_not_Nil by simp
  have "run_cleaner dir tz hs cellss = Inr (on_end dir W)"
    using ok by (simp add: run_cleaner_def run_program_eq clean_rows_filter_map R_def W_def)
  with rd keys show ?thesis by (simp add: on_end_def W_def R_def)
qed

end
