(* ===== verification/Files.thy ===== *)
theory Files
  imports Program
begin

text \<open>
  The script of \<^verbatim>\<open>src/cleaner.js\<close> run against a file system. The world is a
  record of the files (a map from paths to their text) and the lines printed on
  standard output. \<open>inputFilePath\<close> (line 7) and \<open>outputFilePath\<close> (line 8) are
  joined to \<open>__dirname\<close>, a parameter. The script opens the input with
  \<open>fs.createReadStream\<close> (line 52); a missing input makes the read stream emit
  \<open>'error'\<close>, which has no listener, so the process ends with \<open>ENOENT\<close> before any
  record is read. Otherwise the text is tokenized by \<open>csv-parser\<close>, whose tokenizer
  is a parameter \<open>rd\<close> (the header line and the cells of the other lines; the
  records are built from them by \<open>csv_row\<close>), and the program of \<open>Program\<close> runs on
  the records: an exception of the \<open>'data'\<close> listener ends the process, and the
  \<open>'end'\<close> listener replaces the output file (line 78) and prints the confirmation
  (line 83). Lemmas: the effect of a successful run, exactly the output file and
  the one line printed; a failed run changes nothing, so the output of an earlier
  run stays in place; the input file is never changed; a second run on the world
  the first left behind succeeds again and leaves the same files.
\<close>

definition inputFilePath :: "jstr \<Rightarrow> jstr" where
  "inputFilePath dir = path_join dir (js ''EDIT_THIS_NAME.csv'')"

record world =
  files :: "jstr \<rightharpoonup> jstr"
  stdout :: "jstr list"

datatype failure = ENOENT jstr | Uncaught js_error

type_synonym csv_tokens = "jstr \<Rightarrow> jstr list \<times> jstr list list"

text \<open>The records \<open>csv-parser\<close> makes of a text, from its header and cells.\<close>

definition csv_rows :: "csv_tokens \<Rightarrow> jstr \<Rightarrow> row list" where
  "csv_rows rd content = map (csv_row (fst (rd content))) (snd (rd content))"

definition apply_output :: "program_output \<Rightarrow> world \<Rightarrow> world" where
  "apply_output out w =
     w\<lparr>files := (case out_file out of None \<Rightarrow> files w | Some (p, t) \<Rightarrow> (files w)(p \<mapsto> t)),
       stdout := stdout w @ console out\<rparr>"

text \<open>The whole script: the failure it ends with, if any, and the world it leaves.\<close>

definition run_script ::
  "jstr \<Rightarrow> (int \<Rightarrow> int) \<Rightarrow> csv_tokens \<Rightarrow> world \<Rightarrow> failure option \<times> world" where
  "run_script dir tz rd w =
     (case files w (inputFilePath dir) of
        None \<Rightarrow> (Some (ENOENT (inputFilePath dir)), w)
      | Some content \<Rightarrow>
          (case run_program dir tz (csv_rows rd content) of
             Inl e \<Rightarrow> (Some (Uncaught e), w)
           | Inr out \<Rightarrow> (None, apply_output out w)))"

declare inputFilePath_def [js_eval] csv_rows_def [js_eval] apply_output_def [js_eval]
  run_script_def [js_eval]

lemma path_join_inj: "path_join dir a = path_join dir b \<longleftrightarrow> a = b"
  by (simp add: path_join_def)

lemma input_not_output: "inputFilePath dir \<noteq> outputFilePath dir"
  by (simp add: inputFilePath_def outputFilePath_def path_join_inj)

text \<open>A run that gets past the input: its outcome is that of \<open>run_program\<close>.\<close>

lemma run_script_Some:
  "files w (inputFilePath dir) = Some content \<Longrightarrow>
   run_script dir tz rd w =
     (case run_program dir tz (csv_rows rd content) of
        Inl e \<Rightarrow> (Some (Uncaught e), w) | Inr out \<Rightarrow> (None, apply_output out w))"
  by (simp add: run_script_def)

lemma run_script_frame:
  "p \<noteq> outputFilePath dir \<Longrightarrow> files (snd (run_script dir tz rd w)) p = files w p"
  by (auto simp: run_script_def run_program_eq on_end_def apply_output_def
           split: option.splits sum.splits)

lemma run_script_ok:
  "run_script dir tz rd w = (None, w') \<Longrightarrow>
   \<exists>content out. files w (inputFilePath dir) = Some content
     \<and> clean_rows tz (csv_rows rd content) = Inr out
     \<and> w' = apply_output (on_end dir out) w"
  by (auto simp: run_script_def run_program_eq split: option.splits sum.splits)

subsection \<open>Properties\<close>

text \<open>C6: a run on an existing input whose records make no handler throw ends
  normally, having replaced the output file with the TSV text of the retained
  records, transformed, in input order, and printed the one confirmation line;
  no other file changes.\<close>

theorem run_script_success:
  "files w (inputFilePath dir) = Some content \<Longrightarrow> \<forall>r\<in>set (csv_rows rd content). \<not> isl (on_data tz r) \<Longrightarrow>
   run_script dir tz rd w =
     (None, w\<lparr>files := (files w)(outputFilePath dir \<mapsto>
                  tsv_text (map (row_result tz) (filter retained (csv_rows rd content)))),
              stdout := stdout w @ [finish_message dir]\<rparr>)"
  by (simp add: run_script_Some run_program_eq clean_rows_filter_map on_end_def apply_output_def)

text \<open>C7: a run that fails, for a missing input (\<open>ENOENT\<close>, exactly when there is no
  input file) or an uncaught exception of the handler, leaves the world as it
  was: no line is printed and the output file of an earlier run, if any, stays in
  place, though spec section 7 only says the run fails outright.\<close>

theorem run_script_failure:
  "run_script dir tz rd w = (Some f, w') \<Longrightarrow>
   w' = w \<and> (f = ENOENT (inputFilePath dir) \<longleftrightarrow> files w (inputFilePath dir) = None)"
  by (auto simp: run_script_def split: option.splits sum.splits)

text \<open>C27: the script never changes its input file, whatever happens.\<close>

theorem run_script_input_kept:
  "files (snd (run_script dir tz rd w)) (inputFilePath dir) = files w (inputFilePath dir)"
  using input_not_output by (rule run_script_frame)

text \<open>C26: spec section 8.7: a second run on the world the first successful run left
  behind succeeds too and leaves the same files, byte for byte; only the
  confirmation is printed once more.\<close>

theorem run_script_rerun:
  "run_script dir tz rd w = (None, w') \<Longrightarrow>
   \<exists>w''. run_script dir tz rd w' = (None, w'') \<and> files w'' = files w'
     \<and> stdout w'' = stdout w' @ [finish_message dir]"
proof -
  assume first: "run_script dir tz rd w = (None, w')"
  then obtain content out where
    c: "files w (inputFilePath dir) = Some content" and
    o: "clean_rows tz (csv_rows rd content) = Inr out" and
    w': "w' = apply_output (on_end dir out) w"
    by (blast dest: run_script_ok)
  have "files w' (inputFilePath dir) = Some content"
    using run_script_frame [OF input_not_output, of dir tz rd w] first c by simp
  then have "run_script dir tz rd w' = (None, apply_output (on_end dir out) w')"
    by (simp add: run_script_Some run_program_eq o)
  moreover have "files (apply_output (on_end dir out) w') = files w'"
    by (simp add: w' apply_output_def on_end_def)
  ultimately show ?thesis
    by (auto simp: apply_output_def on_end_def)
qed

end
