(* ===== verification/StreamSteps.thy ===== *)
theory StreamSteps
  imports Pipeline
begin

text \<open>
  The stream of \<^verbatim>\<open>src/cleaner.js\<close> (lines 52 to 85) as a small-step semantics.
  A configuration is a running stream (the state of \<open>Pipeline\<close> and the events
  still to come), a process ended by an uncaught exception of the \<open>'data'\<close>
  listener, or a stream that has delivered its last event. One step delivers one
  event to its listener (\<open>pipeline_step\<close>); the stream of \<open>fs.createReadStream\<close>
  emits its events one after another and never re-delivers one. Lemmas: the step
  relation is deterministic, has no step out of a final configuration and is
  well-founded; the final configuration reached is the one the big-step run
  \<open>run_events\<close> computes, so the properties of \<open>Pipeline\<close> hold of the small
  steps; and, by rule induction over the steps, from the start of a run the
  records are delivered in input order, \<open>results\<close> is the cleaned output of
  those delivered so far, and the writer gets nothing before the last record
  (\<open>in_order\<close>).
\<close>

datatype config = Running pstate "stream_event list" | Crashed js_error | Finished pstate

inductive stream_step :: "(int \<Rightarrow> int) \<Rightarrow> config \<Rightarrow> config \<Rightarrow> bool" for tz where
  step_ok: "pipeline_step tz s ev = Inr s' \<Longrightarrow> stream_step tz (Running s (ev # evs)) (Running s' evs)"
| step_crash: "pipeline_step tz s ev = Inl e \<Longrightarrow> stream_step tz (Running s (ev # evs)) (Crashed e)"
| step_done: "stream_step tz (Running s []) (Finished s)"

code_pred stream_step .

fun final :: "config \<Rightarrow> bool" where
  "final (Running _ _) = False"
| "final _ = True"

text \<open>The configuration a big-step run ends in.\<close>

definition outcome :: "js_error + pstate \<Rightarrow> config" where
  "outcome r = (case r of Inl e \<Rightarrow> Crashed e | Inr s \<Rightarrow> Finished s)"

text \<open>Events still to deliver, plus one for the close of the stream.\<close>

definition pending :: "config \<Rightarrow> nat" where
  "pending c = (case c of Running _ evs \<Rightarrow> Suc (length evs) | _ \<Rightarrow> 0)"

text \<open>The order of a run over \<open>rows\<close>: while the stream runs, the records delivered
  are a prefix of the input, \<open>results\<close> is the cleaned output of that prefix and
  nothing has been handed to the writer, until \<open>'end'\<close> hands over the whole
  output.\<close>

definition in_order :: "(int \<Rightarrow> int) \<Rightarrow> row list \<Rightarrow> config \<Rightarrow> bool" where
  "in_order tz rows c =
     (case c of
        Running s evs \<Rightarrow>
          (\<exists>k\<le>length rows. evs = map Data (drop k rows) @ [End]
              \<and> clean_rows tz (take k rows) = Inr (results s) \<and> written s = None)
          \<or> (evs = [] \<and> clean_rows tz rows = Inr (results s) \<and> written s = Some (results s))
      | Crashed _ \<Rightarrow> True
      | Finished s \<Rightarrow> clean_rows tz rows = Inr (results s) \<and> written s = Some (results s))"

inductive_cases step_RunningE [elim!]: "stream_step tz (Running s evs) c"
inductive_cases step_CrashedE [elim!]: "stream_step tz (Crashed e) c"
inductive_cases step_FinishedE [elim!]: "stream_step tz (Finished s) c"

inductive_simps step_Running_simp: "stream_step tz (Running s evs) c"

subsection \<open>Determinism and normal forms\<close>

lemma final_no_step: "final c \<Longrightarrow> \<not> stream_step tz c c'"
  by (cases c) auto

lemma stream_step_det: "stream_step tz c c1 \<Longrightarrow> stream_step tz c c2 \<Longrightarrow> c1 = c2"
  by (induction rule: stream_step.induct) auto

lemma pending_step: "stream_step tz c c' \<Longrightarrow> pending c' < pending c"
  by (induction rule: stream_step.induct) (simp_all add: pending_def)

lemma final_unique:
  assumes "(stream_step tz)\<^sup>*\<^sup>* c c1" "final c1" "(stream_step tz)\<^sup>*\<^sup>* c c2" "final c2"
  shows "c1 = c2"
  using assms
proof (induction arbitrary: c2 rule: converse_rtranclp_induct)
  case base
  then show ?case by (auto elim: converse_rtranclpE dest: final_no_step)
next
  case (step y z)
  note yz = step.hyps(1) and IH = step.IH and prems = step.prems
  from prems(2) show ?case
  proof (cases rule: converse_rtranclpE)
    case base
    with prems(3) yz show ?thesis by (auto dest: final_no_step)
  next
    case (step z')
    with yz have "z' = z" by (blast dest: stream_step_det)
    with step IH prems(1,3) show ?thesis by blast
  qed
qed

subsection \<open>Small steps and the big-step run\<close>

lemma run_events_steps: "(stream_step tz)\<^sup>*\<^sup>* (Running s evs) (outcome (run_events tz s evs))"
proof (induction evs arbitrary: s)
  case Nil
  then show ?case by (simp add: outcome_def step_done r_into_rtranclp)
next
  case (Cons ev evs)
  show ?case
  proof (cases "pipeline_step tz s ev")
    case (Inl e)
    then show ?thesis by (simp add: outcome_def step_crash r_into_rtranclp)
  next
    case (Inr s')
    then have "stream_step tz (Running s (ev # evs)) (Running s' evs)" by (rule step_ok)
    with Cons.IH [of s'] Inr show ?thesis by (simp add: converse_rtranclp_into_rtranclp)
  qed
qed

lemma final_outcome [simp]: "final (outcome r)"
  by (cases r) (simp_all add: outcome_def)

subsection \<open>Order of delivery\<close>

lemma clean_rows_snoc:
  "clean_rows tz xs = Inr out \<Longrightarrow> on_data tz x = Inr y \<Longrightarrow>
   clean_rows tz (xs @ [x]) = Inr (out @ (case y of None \<Rightarrow> [] | Some r \<Rightarrow> [r]))"
  by (induction xs arbitrary: out) (auto split: sum.splits option.splits)

lemma pipeline_step_Data:
  "pipeline_step tz s (Data r) = Inr s' \<Longrightarrow>
   \<exists>y. on_data tz r = Inr y \<and> written s' = written s
     \<and> results s' = results s @ (case y of None \<Rightarrow> [] | Some r' \<Rightarrow> [r'])"
  by (auto split: sum.splits option.splits)

lemma in_order_step:
  assumes st: "stream_step tz c c'" and inv: "in_order tz rows c"
  shows "in_order tz rows c'"
  using st inv
proof (induction rule: stream_step.induct)
  case (step_ok s ev s' evs)
  from step_ok.prems obtain k where k: "k \<le> length rows" "ev # evs = map Data (drop k rows) @ [End]"
    "clean_rows tz (take k rows) = Inr (results s)" "written s = None"
    by (auto simp: in_order_def)
  show ?case
  proof (cases "k < length rows")
    case True
    then have d: "drop k rows = rows ! k # drop (Suc k) rows" by (simp add: Cons_nth_drop_Suc)
    with k(2) have ev: "ev = Data (rows ! k)" "evs = map Data (drop (Suc k) rows) @ [End]" by simp_all
    from step_ok.hyps ev obtain y where y: "on_data tz (rows ! k) = Inr y" "written s' = written s"
      "results s' = results s @ (case y of None \<Rightarrow> [] | Some r' \<Rightarrow> [r'])"
      by (blast dest: pipeline_step_Data)
    have "clean_rows tz (take (Suc k) rows) = Inr (results s')"
      using clean_rows_snoc [OF k(3) y(1)] y(3) True by (simp add: take_Suc_conv_app_nth)
    moreover have "Suc k \<le> length rows" using True by simp
    ultimately show ?thesis using ev y(2) k(4) unfolding in_order_def by auto
  next
    case False
    with k have "k = length rows" "ev = End" "evs = []" by simp_all
    with step_ok.hyps k(3) show ?thesis by (auto simp: in_order_def)
  qed
next
  case (step_crash s ev e evs)
  then show ?case by (simp add: in_order_def)
next
  case (step_done s)
  then show ?case by (simp add: in_order_def)
qed

lemma in_order_reach:
  "(stream_step tz)\<^sup>*\<^sup>* (Running init_state (map Data rows @ [End])) c \<Longrightarrow> in_order tz rows c"
proof (induction rule: rtranclp_induct)
  case base
  then show ?case by (auto simp: in_order_def init_state_def intro!: exI [of _ 0])
next
  case (step c c')
  then show ?case using in_order_step by blast
qed

text \<open>The stream terminates: there is no infinite sequence of deliveries.\<close>

lemma stream_step_wf: "wf {(c', c). stream_step tz c c'}"
proof (rule wf_subset [OF wf_measure [of pending]])
  show "{(c', c). stream_step tz c c'} \<subseteq> measure pending"
    by (auto dest: pending_step)
qed

text \<open>The small steps agree with the big-step run: from a running stream, the final
  configuration reached is exactly the one \<open>run_events\<close> computes.\<close>

lemma stream_steps_run_events:
  "((stream_step tz)\<^sup>*\<^sup>* (Running s evs) c \<and> final c) \<longleftrightarrow> c = outcome (run_events tz s evs)"
  using final_unique [OF _ _ run_events_steps final_outcome] run_events_steps by auto

subsection \<open>Properties\<close>

text \<open>C8: spec section 5, serialization happens once, after the entire input has
  been consumed: in every configuration the stream reaches while running, the
  records delivered are a prefix of the input, \<open>results\<close> is the cleaned output
  of exactly that prefix, in order, and nothing has been handed to the writer;
  only once every record is delivered does \<open>'end'\<close> hand over the whole output.\<close>

theorem stream_delivers_in_order:
  "(stream_step tz)\<^sup>*\<^sup>* (Running init_state (map Data rows @ [End])) (Running s evs) \<Longrightarrow>
   (\<exists>k\<le>length rows. evs = map Data (drop k rows) @ [End]
       \<and> clean_rows tz (take k rows) = Inr (results s) \<and> written s = None)
   \<or> (evs = [] \<and> clean_rows tz rows = Inr (results s) \<and> written s = Some (results s))"
  using in_order_reach [of tz rows "Running s evs"] by (simp add: in_order_def)

end
