(* ===== verification/Double.thy ===== *)
theory Double
  imports Minutes
begin

text \<open>
  The arithmetic of \<open>convertToMinutes\<close> (\<^verbatim>\<open>src/cleaner.js\<close>, lines 11 to 25) as
  the engine performs it, on IEEE 754 binary64 values. \<open>Number(s)\<close> is the
  mathematical value of the literal rounded to the nearest double, ties to even,
  and \<open>+\<close>, \<open>*\<close>, \<open>/\<close> round their exact result the same way; a result
  at or above the overflow threshold \<open>2^1024 - 2^970\<close> is \<open>Infinity\<close>. A positive
  rational \<open>q\<close> with \<open>2^k \<le> q < 2^(k+1)\<close> is rounded at the exponent
  \<open>max (-1074) (k - 52)\<close>: 53 significant bits, subnormals below \<open>2^-1022\<close>.
  \<open>Math.floor\<close> and \<open>Math.min\<close> of doubles are doubles and need no rounding. The rest
  of the development computes with exact rationals (\<open>JS_Number\<close>); this theory
  shows where that is faithful. Lemmas: rounding is exact on the integers up to
  \<open>2^53\<close>, never falls below a smaller such integer, and errs by at most
  \<open>2^-48\<close> below 64; with these, the double \<open>convertToMinutes\<close> meets the
  reference \<open>spec_minutes\<close> on every string of decimal digit fields, however long
  the fields (a field of 400 digits is \<open>Infinity\<close>, and the cap still gives 60).
  Off that domain the two models can differ: \<open>59.99999999999999999:0\<close> is 60 in
  the engine, its exact value in the rational model.
\<close>

subsection \<open>Rounding to binary64\<close>

text \<open>\<open>nlog2 n\<close> is the \<open>k\<close> with \<open>2^k \<le> n < 2^(k+1)\<close>, for \<open>n \<ge> 1\<close>.\<close>

fun nlog2 :: "nat \<Rightarrow> nat" where
  "nlog2 n = (if n < 2 then 0 else Suc (nlog2 (n div 2)))"

declare nlog2.simps [simp del]

text \<open>The binary exponent of a positive rational: \<open>2^(flog2 q) \<le> q < 2^(flog2 q + 1)\<close>.\<close>

definition flog2 :: "rat \<Rightarrow> int" where
  "flog2 q =
     (if 1 \<le> q then int (nlog2 (nat \<lfloor>q\<rfloor>)) else - int (Suc (nlog2 (nat \<lceil>1 / q\<rceil> - 1))))"

text \<open>Round to the nearest integer, ties to even.\<close>

definition rne :: "rat \<Rightarrow> int" where
  "rne x =
     (let f = \<lfloor>x\<rfloor>; d = x - of_int f
      in if d < 1 / 2 then f else if 1 / 2 < d then f + 1 else if even f then f else f + 1)"

text \<open>The exponent of the last significant bit of the double nearest to \<open>q > 0\<close>.\<close>

definition dexp :: "rat \<Rightarrow> int" where
  "dexp q = max (- 1074) (flog2 q - 52)"

definition dround_pos :: "rat \<Rightarrow> jsnum" where
  "dround_pos q =
     (let e = dexp q; v = of_int (rne (q / 2 powi e)) * 2 powi e
      in if 2 ^ 1024 \<le> v then PosInf else Fin v)"

definition dround :: "rat \<Rightarrow> jsnum" where
  "dround q = (if q = 0 then Fin 0 else if 0 < q then dround_pos q else js_neg (dround_pos (- q)))"

fun dnum :: "jsnum \<Rightarrow> jsnum" where
  "dnum (Fin r) = dround r"
| "dnum v = v"

subsection \<open>The operations of convertToMinutes on doubles\<close>

definition d_add :: "jsnum \<Rightarrow> jsnum \<Rightarrow> jsnum" where
  "d_add x y = dnum (js_add x y)"

definition d_mul :: "jsnum \<Rightarrow> jsnum \<Rightarrow> jsnum" where
  "d_mul x y = dnum (js_mul x y)"

definition d_div :: "jsnum \<Rightarrow> jsnum \<Rightarrow> jsnum" where
  "d_div x y = dnum (js_div x y)"

definition d_number :: "jstr \<Rightarrow> jsnum" where
  "d_number s = dnum (js_string_to_number s)"

definition minutes_of_parts_dbl :: "jsnum list \<Rightarrow> jsnum" where
  "minutes_of_parts_dbl parts =
     (if length parts = 3 then
        d_add (d_add (d_mul (parts ! 0) (Fin 60)) (parts ! 1))
              (js_floor (d_div (parts ! 2) (Fin 60)))
      else if length parts = 2 then
        d_add (parts ! 0) (js_floor (d_div (parts ! 1) (Fin 60)))
      else Fin 0)"

definition convertToMinutes_dbl :: "jsval option \<Rightarrow> js_error + jsnum" where
  "convertToMinutes_dbl timeString =
     (if \<not> truthy timeString then Inr (Fin 0)
      else case timeString of
        Some (VStr s) \<Rightarrow> Inr (js_min (minutes_of_parts_dbl (map d_number (js_split 58 s))) (Fin 60))
      | _ \<Rightarrow> Inl (TypeError ''timeString.split is not a function''))"

text \<open>A lower bound on a non-negative result: \<open>Infinity\<close> or a value at least \<open>a\<close>.\<close>

definition num_ge :: "rat \<Rightarrow> jsnum \<Rightarrow> bool" where
  "num_ge a v \<longleftrightarrow> v = PosInf \<or> (\<exists>r. v = Fin r \<and> a \<le> r)"

lemma nlog2_eval [js_eval]:
  "nlog2 0 = 0"
  "nlog2 (Suc 0) = 0"
  "nlog2 (numeral k) = (if numeral k < (2::nat) then 0 else Suc (nlog2 (numeral k div 2)))"
  by (subst nlog2.simps; simp)+

declare flog2_def [js_eval] rne_def [js_eval] dexp_def [js_eval] dround_pos_def [js_eval]
  dround_def [js_eval] d_add_def [js_eval] d_mul_def [js_eval] d_div_def [js_eval]
  d_number_def [js_eval] minutes_of_parts_dbl_def [js_eval] convertToMinutes_dbl_def [js_eval]

subsection \<open>Lemmas on rounding\<close>

lemma nlog2_bounds: "0 < n \<Longrightarrow> 2 ^ nlog2 n \<le> n \<and> n < 2 ^ Suc (nlog2 n)"
proof (induction n rule: nlog2.induct)
  case (1 n)
  show ?case
  proof (cases "n < 2")
    case True
    then have "nlog2 n = 0" by (subst nlog2.simps) simp
    with True 1(2) show ?thesis by simp
  next
    case False
    then have "0 < n div 2" by simp
    with 1(1) False have IH: "2 ^ nlog2 (n div 2) \<le> n div 2" "n div 2 < 2 ^ Suc (nlog2 (n div 2))"
      by simp_all
    have n: "n = 2 * (n div 2) + n mod 2" "n mod 2 < 2" by simp_all
    have "nlog2 n = Suc (nlog2 (n div 2))" using False by (subst nlog2.simps) simp
    moreover have "2 * 2 ^ nlog2 (n div 2) \<le> n" using IH(1) n by linarith
    moreover have "n div 2 < 2 * 2 ^ nlog2 (n div 2)" using IH(2) by simp
    then have "n < 4 * 2 ^ nlog2 (n div 2)" using n by linarith
    ultimately show ?thesis by simp
  qed
qed

lemma nlog2_bounds_rat:
  assumes "0 < n"
  shows "(2::rat) ^ nlog2 n \<le> of_nat n \<and> of_nat n + 1 \<le> (2::rat) ^ Suc (nlog2 n)"
proof -
  have "2 ^ nlog2 n \<le> n" "n + 1 \<le> 2 ^ Suc (nlog2 n)" using nlog2_bounds [OF assms] by simp_all
  then have "(of_nat (2 ^ nlog2 n) :: rat) \<le> of_nat n" "(of_nat (n + 1) :: rat) \<le> of_nat (2 ^ Suc (nlog2 n))"
    by (simp_all only: of_nat_le_iff)
  then show ?thesis by simp
qed

lemma flog2_bounds:
  assumes "0 < q"
  shows "2 powi flog2 q \<le> q \<and> q < 2 powi (flog2 q + 1)"
proof (cases "1 \<le> q")
  case True
  define n where "n = nat \<lfloor>q\<rfloor>"
  have n0: "0 < n" using True by (simp add: n_def)
  have qn: "of_nat n \<le> q" "q < of_nat n + 1"
    using True by (simp_all add: n_def) linarith
  define k where "k = nlog2 n"
  have b: "(2::rat) ^ k \<le> of_nat n" "of_nat n + 1 \<le> (2::rat) ^ Suc k"
    using nlog2_bounds_rat [OF n0] by (simp_all add: k_def)
  have fl: "flog2 q = int k" using True by (simp add: flog2_def k_def n_def)
  have p: "(2::rat) powi (int k + 1) = 2 ^ Suc k" by (simp add: power_int_add_1 power_int_of_nat)
  have "(2::rat) ^ k \<le> q" using b(1) qn(1) by (rule order_trans)
  moreover have "q < 2 ^ Suc k" using qn(2) b(2) by (rule less_le_trans)
  ultimately show ?thesis by (simp only: fl p power_int_of_nat)
next
  case False
  define c where "c = \<lceil>1 / q\<rceil>"
  define n where "n = nat c - 1"
  have p1: "1 < 1 / q" using False assms by simp
  then have c2: "2 \<le> c" unfolding c_def by linarith
  then have n0: "0 < n" by (simp add: n_def)
  have cn: "of_int c = (of_nat n + 1 :: rat)" using c2 by (simp add: n_def of_nat_diff)
  have pc: "1 / q \<le> of_int c" "of_int c - 1 < 1 / q" unfolding c_def by linarith+
  define k where "k = nlog2 n"
  have b: "(2::rat) ^ k \<le> of_nat n" "of_nat n + 1 \<le> (2::rat) ^ Suc k"
    using nlog2_bounds_rat [OF n0] by (simp_all add: k_def)
  have fl: "flog2 q = - int (Suc k)"
    using False by (simp add: flog2_def k_def n_def c_def)
  have lo: "1 / q \<le> 2 ^ Suc k" using pc(1) cn b(2) by simp
  have "of_nat n < 1 / q" using pc(2) cn by simp
  with b(1) have hi: "2 ^ k < 1 / q" by (rule le_less_trans)
  have "1 / 2 ^ Suc k \<le> q" using lo assms by (simp add: field_simps)
  moreover have "q < 1 / 2 ^ k" using hi assms by (simp add: field_simps)
  moreover have "- int (Suc k) + 1 = - int k" by simp
  ultimately show ?thesis
    by (simp only: fl power_int_minus_divide power_int_of_nat)
qed

lemma rne_int [simp]: "rne (of_int k) = k"
  by (simp add: rne_def)

lemma rne_floor: "\<lfloor>x\<rfloor> \<le> rne x"
  by (simp add: rne_def Let_def)

lemma rne_ge: "of_int k \<le> x \<Longrightarrow> k \<le> rne x"
  using rne_floor [of x] le_floor_iff [of k x] by simp

lemma rne_err: "\<bar>of_int (rne x) - x\<bar> \<le> 1 / 2"
proof -
  define f where "f = \<lfloor>x\<rfloor>"
  have d: "of_int f \<le> x" "x < of_int f + 1" unfolding f_def by linarith+
  have "(rne x = f \<and> x - of_int f \<le> 1 / 2) \<or> (rne x = f + 1 \<and> 1 / 2 \<le> x - of_int f)"
    unfolding rne_def Let_def f_def [symmetric] by (auto split: if_splits)
  with d show ?thesis by (auto simp: abs_if)
qed

lemma powi2_pos [simp]: "0 < (2::rat) powi e"
  by simp

lemma dround_pos_exact:
  assumes "q / 2 powi dexp q = of_int a" "q < 2 ^ 1024"
  shows "dround_pos q = Fin q"
proof -
  have "of_int a * 2 powi dexp q = q" using assms(1) by (simp add: field_simps)
  with assms show ?thesis by (simp add: dround_pos_def Let_def)
qed

text \<open>Every integer up to \<open>2^53\<close> is a double.\<close>

lemma dround_nat:
  assumes "n \<le> 2 ^ 53"
  shows "dround (of_nat n) = Fin (of_nat n)"
proof (cases "n = 0")
  case False
  define k where "k = nlog2 n"
  have fl: "flog2 (of_nat n) = int k" using False by (simp add: flog2_def k_def)
  have "2 ^ k \<le> n" using nlog2_bounds [of n] False by (simp add: k_def)
  then have "(2::nat) ^ k \<le> 2 ^ 53" using assms by linarith
  from power_le_imp_le_exp [OF _ this] have k53: "k \<le> 53" by simp
  have big: "(of_nat n :: rat) < 2 ^ 1024"
  proof -
    have "(of_nat n :: rat) \<le> 2 ^ 53" using assms by (metis of_nat_le_iff of_nat_numeral of_nat_power)
    then show ?thesis by simp
  qed
  have "of_nat n / 2 powi dexp (of_nat n) = (of_int (if k = 53 then 2 ^ 52 else int n * 2 ^ (52 - k)) :: rat)"
  proof (cases "k = 53")
    case True
    then have "n = 2 ^ 53" using \<open>2 ^ k \<le> n\<close> assms by simp
    with True fl show ?thesis by (simp add: dexp_def)
  next
    case False
    then have "dexp (of_nat n) = - int (52 - k)" using fl k53 by (simp add: dexp_def)
    with False show ?thesis by (simp add: power_int_minus_divide power_int_of_nat)
  qed
  then have "dround_pos (of_nat n) = Fin (of_nat n)" using big by (rule dround_pos_exact)
  with False show ?thesis by (simp add: dround_def)
qed (simp add: dround_def)

text \<open>Rounding never goes below an integer up to \<open>2^53\<close> that the value reaches.\<close>

lemma dround_pos_ge:
  assumes "0 < q" "of_nat N \<le> q" "N \<le> 2 ^ 53"
  shows "num_ge (of_nat N) (dround_pos q)"
proof -
  define e where "e = dexp q"
  define m where "m = rne (q / 2 powi e)"
  have "(of_nat N :: rat) \<le> of_int m * 2 powi e"
  proof (cases "e \<le> 0")
    case True
    define j where "j = nat (- e)"
    have j: "e = - int j" using True by (simp add: j_def)
    define K where "K = int N * 2 ^ j"
    have pe: "(2::rat) powi e = 1 / 2 ^ j" by (simp add: j power_int_minus_divide power_int_of_nat)
    have "(of_int K :: rat) = of_nat N / 2 powi e" by (simp add: K_def pe)
    also have "\<dots> \<le> q / 2 powi e" using assms(2) by (simp add: divide_right_mono)
    finally have "K \<le> m" unfolding m_def by (rule rne_ge)
    then have "(of_int K :: rat) * 2 powi e \<le> of_int m * 2 powi e" by simp
    moreover have "(of_int K :: rat) * 2 powi e = of_nat N" by (simp add: K_def pe)
    ultimately show ?thesis by simp
  next
    case False
    then have e: "flog2 q = e + 52" by (simp add: e_def dexp_def)
    have "2 powi (e + 52) \<le> q" using flog2_bounds [OF assms(1)] e by simp
    then have "2 powi e * 2 ^ 52 \<le> q" by (simp add: power_int_add)
    then have "of_int (2 ^ 52) \<le> q / 2 powi e" by (simp add: field_simps)
    then have "2 ^ 52 \<le> m" unfolding m_def by (rule rne_ge)
    then have "(2::rat) ^ 52 * 2 powi e \<le> of_int m * 2 powi e"
      by (metis mult_right_mono of_int_le_iff of_int_numeral of_int_power less_imp_le powi2_pos)
    moreover have "(2::rat) ^ 52 * 2 \<le> 2 ^ 52 * 2 powi e"
      using power_int_increasing [of 1 e "2::rat"] False by (intro mult_left_mono) simp_all
    moreover have "(of_nat N :: rat) \<le> 2 ^ 53" using assms(3) by (metis of_nat_le_iff of_nat_numeral of_nat_power)
    moreover have "(2::rat) ^ 53 = 2 ^ 52 * 2" by simp
    ultimately show ?thesis by linarith
  qed
  then show ?thesis by (simp add: num_ge_def dround_pos_def Let_def e_def m_def)
qed

text \<open>Below 64 the rounding error is at most \<open>2^-48\<close> (half a unit in the last place).\<close>

lemma dround_pos_err:
  assumes "0 < q" "q < 64"
  shows "\<exists>v. dround_pos q = Fin v \<and> \<bar>v - q\<bar> \<le> 1 / 2 ^ 48"
proof -
  define e where "e = dexp q"
  define x where "x = q / 2 powi e"
  have "2 powi flog2 q < (2::rat) powi 6" using flog2_bounds [OF assms(1)] assms(2) by simp
  then have "flog2 q < 6" using power_int_le_imp_less_exp [of "2::rat" "flog2 q" 6] by simp
  then have "e \<le> - 47" by (simp add: e_def dexp_def)
  then have pe: "(2::rat) powi e \<le> 2 powi (- 47)" by (rule power_int_increasing) simp
  have q: "q = x * 2 powi e" by (simp add: x_def)
  have "\<bar>of_int (rne x) * 2 powi e - q\<bar> = \<bar>of_int (rne x) - x\<bar> * 2 powi e"
    by (simp add: q abs_mult left_diff_distrib [symmetric])
  also have "\<dots> \<le> 1 / 2 * 2 powi e" using rne_err [of x] by (simp add: mult_right_mono)
  also have "\<dots> \<le> 1 / 2 * 2 powi (- 47)" using pe by simp
  also have "\<dots> = 1 / 2 ^ 48" by (simp add: power_int_minus_divide)
  finally have err: "\<bar>of_int (rne x) * 2 powi e - q\<bar> \<le> 1 / 2 ^ 48" .
  then have "of_int (rne x) * 2 powi e - q \<le> 1 / 2 ^ 48" by (rule abs_le_D1)
  moreover have "(1::rat) / 2 ^ 48 < 1" "(65::rat) < 2 ^ 1024" by simp_all
  ultimately have "of_int (rne x) * 2 powi e < (2::rat) ^ 1024" using assms(2) by linarith
  with err show ?thesis by (simp add: dround_pos_def Let_def e_def x_def)
qed

lemma num_ge_dround:
  assumes "0 \<le> q" "of_nat N \<le> q" "N \<le> 2 ^ 53"
  shows "num_ge (of_nat N) (dround q)"
proof (cases "q = 0")
  case True
  with assms(2) show ?thesis by (simp add: dround_def num_ge_def)
next
  case False
  with assms dround_pos_ge [of q N] show ?thesis by (simp add: dround_def)
qed

lemma num_ge_mono: "num_ge a v \<Longrightarrow> b \<le> a \<Longrightarrow> num_ge b v"
  by (auto simp: num_ge_def)

lemma num_ge_add:
  assumes "num_ge (of_nat a) x" "num_ge (of_nat b) y" "a + b \<le> 2 ^ 53"
  shows "num_ge (of_nat (a + b)) (d_add x y)"
proof -
  consider "x = PosInf" | r where "x = Fin r" "of_nat a \<le> r" using assms(1) by (auto simp: num_ge_def)
  then show ?thesis
  proof cases
    case 1
    with assms(2) show ?thesis by (auto simp: num_ge_def d_add_def)
  next
    case (2 r)
    consider "y = PosInf" | t where "y = Fin t" "of_nat b \<le> t" using assms(2) by (auto simp: num_ge_def)
    then show ?thesis
    proof cases
      case 1
      with 2 show ?thesis by (simp add: num_ge_def d_add_def)
    next
      case (2 t)
      have "num_ge (of_nat (a + b)) (dround (r + t))"
        using \<open>of_nat a \<le> r\<close> 2 assms(3) by (intro num_ge_dround) simp_all
      with \<open>x = Fin r\<close> 2 show ?thesis by (simp add: d_add_def)
    qed
  qed
qed

lemma num_ge_mul60:
  assumes "num_ge (of_nat a) x" "a * 60 \<le> 2 ^ 53"
  shows "num_ge (of_nat (a * 60)) (d_mul x (Fin 60))"
proof -
  consider "x = PosInf" | r where "x = Fin r" "of_nat a \<le> r" using assms(1) by (auto simp: num_ge_def)
  then show ?thesis
  proof cases
    case 1
    then show ?thesis by (simp add: num_ge_def d_mul_def)
  next
    case (2 r)
    have "num_ge (of_nat (a * 60)) (dround (r * 60))"
      using 2 assms(2) by (intro num_ge_dround) simp_all
    with 2 show ?thesis by (simp add: d_mul_def)
  qed
qed

lemma nat_le_floor: "of_nat n \<le> (x::rat) \<Longrightarrow> of_nat n \<le> (of_int \<lfloor>x\<rfloor> :: rat)"
  by (metis le_floor_iff of_int_of_nat_eq of_int_le_iff)

lemma num_ge_div60_floor:
  assumes "num_ge (of_nat a) x" "a \<le> 2 ^ 53"
  shows "num_ge (of_nat (a div 60)) (js_floor (d_div x (Fin 60)))"
proof -
  consider "x = PosInf" | r where "x = Fin r" "of_nat a \<le> r" using assms(1) by (auto simp: num_ge_def)
  then show ?thesis
  proof cases
    case 1
    then show ?thesis by (simp add: num_ge_def d_div_def)
  next
    case (2 r)
    have "60 * (a div 60) \<le> a" by simp
    then have "of_nat (60 * (a div 60)) \<le> (of_nat a :: rat)" by (simp only: of_nat_le_iff)
    with 2 have "of_nat (a div 60) \<le> r / 60" by simp
    moreover have "a div 60 \<le> 2 ^ 53" using assms(2) by simp
    ultimately have "num_ge (of_nat (a div 60)) (dround (r / 60))"
      using 2 by (intro num_ge_dround) (simp_all add: order_trans [OF _ \<open>of_nat a \<le> r\<close>])
    with 2 show ?thesis by (auto simp: num_ge_def d_div_def intro: nat_le_floor)
  qed
qed

lemma num_ge_min60: "num_ge 60 x \<Longrightarrow> js_min x (Fin 60) = Fin 60"
  by (auto simp: num_ge_def js_min_def)

text \<open>\<open>Math.floor(s / 60)\<close> is exact on the seconds of an hour.\<close>

lemma floor_div60_small:
  assumes "s < 3600"
  shows "js_floor (d_div (Fin (of_nat s)) (Fin 60)) = Fin (of_nat (s div 60))"
proof (cases "s = 0")
  case False
  have q: "0 < (of_nat s / 60 :: rat)" "(of_nat s / 60 :: rat) < 64" using False assms by simp_all
  obtain v where v: "dround_pos (of_nat s / 60) = Fin v" "\<bar>v - of_nat s / 60\<bar> \<le> 1 / 2 ^ 48"
    using dround_pos_err [OF q] by blast
  have "60 * (s div 60) \<le> s" by simp
  then have "of_nat (60 * (s div 60)) \<le> (of_nat s :: rat)" by (simp only: of_nat_le_iff)
  then have "of_nat (s div 60) \<le> (of_nat s / 60 :: rat)" by simp
  then have "num_ge (of_nat (s div 60)) (dround_pos (of_nat s / 60))"
    using q(1) assms by (intro dround_pos_ge) simp_all
  with v have lo: "of_nat (s div 60) \<le> v" by (simp add: num_ge_def)
  have "s \<le> 60 * (s div 60) + 59" by simp
  then have "(of_nat s :: rat) \<le> of_nat (60 * (s div 60) + 59)" by (simp only: of_nat_le_iff)
  moreover have "v - of_nat s / 60 \<le> 1 / 2 ^ 48" using v(2) by (rule abs_le_D1)
  moreover have "(1::rat) / 2 ^ 48 < 1 / 60" by simp
  ultimately have "v < of_nat (s div 60) + 1" by simp
  with lo have "\<lfloor>v\<rfloor> = int (s div 60)" by (simp add: floor_eq_iff)
  with v q show ?thesis by (simp add: d_div_def dround_def)
qed (simp add: d_div_def dround_def)

lemma dround_nat_add:
  "a + b \<le> 2 ^ 53 \<Longrightarrow> dround (of_nat a + of_nat b) = Fin (of_nat a + of_nat b)"
  using dround_nat [of "a + b"] by simp

lemma min_div60: "min s 3600 div 60 = min (s div 60) (60::nat)"
  by (cases "s < 3600") (auto simp: min_def less_mult_imp_div_less div_le_mono)

text \<open>The caps 1, 60 and 3600 keep every bound below \<open>2^53\<close>, and one of them is
  reached as soon as the reference is 60.\<close>

lemma capped_sum:
  "\<not> h * 60 + m + s div 60 < 60 \<Longrightarrow> 60 \<le> min h 1 * 60 + min m 60 + min s 3600 div (60::nat)"
  by (simp add: min_div60 min_def split: if_splits)

lemma dbl_hms:
  "js_min (d_add (d_add (d_mul (dround (of_nat h)) (Fin 60)) (dround (of_nat m)))
                 (js_floor (d_div (dround (of_nat s)) (Fin 60)))) (Fin 60)
   = Fin (of_nat (min (h * 60 + m + s div 60) 60))"
proof (cases "h * 60 + m + s div 60 < 60")
  case True
  then have h: "h = 0" and m: "m < 60" and s: "s < 3600" by auto
  have "d_mul (dround (of_nat h)) (Fin 60) = Fin 0" using h by (simp add: d_mul_def dround_def)
  moreover have "d_add (Fin 0) (dround (of_nat m)) = Fin (of_nat m)"
    using m dround_nat [of m] by (simp add: d_add_def)
  moreover have "js_floor (d_div (dround (of_nat s)) (Fin 60)) = Fin (of_nat (s div 60))"
    using s dround_nat [of s] floor_div60_small [OF s] by simp
  moreover have "d_add (Fin (of_nat m)) (Fin (of_nat (s div 60))) = Fin (of_nat (m + s div 60))"
    using True h dround_nat_add [of m "s div 60"] by (simp add: d_add_def)
  ultimately show ?thesis using True h by simp
next
  case False
  have H: "num_ge (of_nat (min h 1)) (dround (of_nat h))" by (rule num_ge_dround) simp_all
  have M: "num_ge (of_nat (min m 60)) (dround (of_nat m))" by (rule num_ge_dround) simp_all
  have S: "num_ge (of_nat (min s 3600)) (dround (of_nat s))" by (rule num_ge_dround) simp_all
  have "num_ge (of_nat (min h 1 * 60 + min m 60 + min s 3600 div 60))
          (d_add (d_add (d_mul (dround (of_nat h)) (Fin 60)) (dround (of_nat m)))
                 (js_floor (d_div (dround (of_nat s)) (Fin 60))))"
    by (intro num_ge_add num_ge_mul60 num_ge_div60_floor H M S) simp_all
  then have "num_ge 60 (d_add (d_add (d_mul (dround (of_nat h)) (Fin 60)) (dround (of_nat m)))
                 (js_floor (d_div (dround (of_nat s)) (Fin 60))))"
    by (rule num_ge_mono) (use capped_sum [OF False] in simp)
  with False show ?thesis by (simp add: num_ge_min60)
qed

lemma dbl_ms:
  "js_min (d_add (dround (of_nat m)) (js_floor (d_div (dround (of_nat s)) (Fin 60)))) (Fin 60)
   = Fin (of_nat (min (m + s div 60) 60))"
proof (cases "m + s div 60 < 60")
  case True
  then have m: "m < 60" and s: "s < 3600" by auto
  have "js_floor (d_div (dround (of_nat s)) (Fin 60)) = Fin (of_nat (s div 60))"
    using s dround_nat [of s] floor_div60_small [OF s] by simp
  moreover have "d_add (dround (of_nat m)) (Fin (of_nat (s div 60))) = Fin (of_nat (m + s div 60))"
    using True m dround_nat [of m] dround_nat_add [of m "s div 60"] by (simp add: d_add_def)
  ultimately show ?thesis using True by simp
next
  case False
  have M: "num_ge (of_nat (min m 60)) (dround (of_nat m))" by (rule num_ge_dround) simp_all
  have S: "num_ge (of_nat (min s 3600)) (dround (of_nat s))" by (rule num_ge_dround) simp_all
  have "num_ge (of_nat (min m 60 + min s 3600 div 60))
          (d_add (dround (of_nat m)) (js_floor (d_div (dround (of_nat s)) (Fin 60))))"
    by (intro num_ge_add num_ge_div60_floor M S) simp_all
  then have "num_ge 60 (d_add (dround (of_nat m)) (js_floor (d_div (dround (of_nat s)) (Fin 60))))"
    by (rule num_ge_mono) (use capped_sum [of 0 m s] False in simp)
  with False show ?thesis by (simp add: num_ge_min60)
qed

lemma minutes_of_parts_dbl_nat:
  "js_min (minutes_of_parts_dbl (map (\<lambda>n. dround (of_nat n)) ns)) (Fin 60) = Fin (of_nat (spec_minutes ns))"
proof (cases ns)
  case (Cons a t)
  show ?thesis
  proof (cases t)
    case (Cons b u)
    show ?thesis
    proof (cases u)
      case (Cons c v)
      with \<open>ns = a # t\<close> \<open>t = b # u\<close> show ?thesis
        using dbl_hms [of a b c] by (cases v) (simp_all add: minutes_of_parts_dbl_def spec_minutes_def)
    qed (use \<open>ns = a # t\<close> \<open>t = b # u\<close> dbl_ms [of a b] in \<open>simp add: minutes_of_parts_dbl_def spec_minutes_def\<close>)
  qed (use \<open>ns = a # t\<close> in \<open>simp add: minutes_of_parts_dbl_def spec_minutes_def\<close>)
qed (simp add: minutes_of_parts_dbl_def spec_minutes_def)

lemma convertToMinutes_dbl_VStr:
  "convertToMinutes_dbl (Some (VStr s)) =
     Inr (if s = [] then Fin 0 else js_min (minutes_of_parts_dbl (map d_number (js_split 58 s))) (Fin 60))"
  by (simp add: convertToMinutes_dbl_def)

lemma map_d_number_digits:
  "\<forall>f\<in>set fs. f \<noteq> [] \<and> (\<forall>u\<in>set f. is_dec_digit u) \<Longrightarrow>
   map d_number fs = map (\<lambda>n. dround (of_nat n)) (map digval fs)"
  by (simp add: d_number_def js_string_to_number_digits)

text \<open>The bound \<open>2^53\<close> is tight: the next integer is not a double.\<close>

lemma d_number_beyond_2p53: "d_number (js ''9007199254740993'') = Fin 9007199254740992"
  by (simp add: js_eval)

text \<open>Off the digit strings: an over-precise field rounds to 60 in the engine.\<close>

lemma convertToMinutes_dbl_rounds:
  "convertToMinutes_dbl (Some (VStr (js ''59.99999999999999999:0''))) = Inr (Fin 60)"
  by (simp add: js_eval)

subsection \<open>Properties\<close>

text \<open>C22: the exact rationals are faithful on the domain of spec section 4.1: on every
  string of colon-separated non-empty decimal digit fields, however many digits,
  the double arithmetic of the engine gives the reference \<open>spec_minutes\<close> too
  (a field beyond \<open>2^53\<close> is rounded, one beyond \<open>2^1024\<close> is \<open>Infinity\<close>, and the
  cap at 60 absorbs both).\<close>

theorem convertToMinutes_dbl_spec:
  assumes "fs \<noteq> []" "\<forall>f\<in>set fs. f \<noteq> [] \<and> (\<forall>u\<in>set f. is_dec_digit u)"
  shows "convertToMinutes_dbl (Some (VStr (js_join 58 fs))) =
           Inr (Fin (of_nat (spec_minutes (map digval fs))))"
proof -
  have split: "js_split 58 (js_join 58 fs) = fs"
    using assms by (intro js_split_join) (auto simp: digits_no_colon)
  obtain f fs' where f: "fs = f # fs'" "f \<noteq> []" using assms by (cases fs) auto
  then have "js_join 58 fs \<noteq> []" by (cases fs') auto
  moreover have "js_min (minutes_of_parts_dbl (map d_number fs)) (Fin 60) =
      Fin (of_nat (spec_minutes (map digval fs)))"
    unfolding map_d_number_digits [OF assms(2)] by (rule minutes_of_parts_dbl_nat)
  ultimately show ?thesis by (simp add: convertToMinutes_dbl_VStr split)
qed

end
