(* ===== verification/Spec2Isabelle.thy ===== *)
theory Spec2Isabelle
  imports Files StreamSteps Double
begin

text \<open>
  A verification development of \<^verbatim>\<open>src/cleaner.js\<close>, the whole program of the
  repository: a Node script that streams a CSV file through \<open>csv-parser\<close>, runs a
  handler on every record (\<open>'data'\<close>, lines 54 to 76) that drops or enriches it,
  collects the kept records in the array \<open>results\<close> (line 50) and, on \<open>'end'\<close>,
  writes them as TSV with \<open>fast-csv\<close> (lines 77 to 85). The handler calls three
  helpers: \<open>convertToMinutes\<close> (lines 11 to 25), \<open>cleanEmail\<close> (lines 28 to 33)
  and \<open>parseCzechDate\<close> (lines 36 to 45), and compares the date with the constants
  \<open>covidStart\<close> and \<open>covidEnd\<close> (lines 47, 48).

  \<^bold>\<open>Theories and what they model.\<close>
  \<^item> \<open>JS_Prelude\<close>: the JavaScript values the program touches. A string is its list of
    UTF-16 code units (\<open>jstr\<close>, \<open>js ''abc''\<close> for an ASCII literal); a number is
    \<open>jsnum\<close>, an exact rational or one of the infinities or NaN; \<open>jsval\<close> is a cell
    value, \<open>None\<close> stands for \<open>undefined\<close>; \<open>js_error\<close> is a thrown TypeError, and
    a function that may throw returns \<open>js_error + 'a\<close>. Truthiness and array
    indexing out of range (\<open>undefined\<close>) are written out.
  \<^item> \<open>JS_String\<close>: the ECMA-262 string builtins the program calls, each as a function
    on code units: \<open>split\<close> with a one-unit separator (\<open>js_split\<close>), \<open>trim\<close>
    (\<open>js_trim\<close>, over WhiteSpace and LineTerminator), \<open>replace\<close> with a string
    pattern (\<open>js_replace_first\<close>), \<open>toLowerCase\<close> (\<open>js_toLowerCase\<close>, the
    Unicode mapping on U+0000 to U+017F, U+0130 to two units) and \<open>padStart\<close>.
    Lemmas: split and join are inverse, trim is idempotent and leaves no white
    space at either end, lower-casing is idempotent.
  \<^item> \<open>JS_Number\<close>: \<open>Number(s)\<close> (\<open>js_string_to_number\<close>: StringToNumber with
    decimal, exponent, \<open>Infinity\<close>, \<open>0x\<close>/\<open>0o\<close>/\<open>0b\<close> literals, white space),
    \<open>String(n)\<close> (\<open>js_number_to_string\<close>: Number::toString, exact on every value
    with a finite decimal expansion), the arithmetic, \<open>Math.floor\<close>, \<open>Math.min\<close>
    and the relational operators, false on NaN. Lemmas: \<open>String\<close> of a natural
    below \<open>10^21\<close> is its decimal digits, and \<open>Number\<close> reads them back.
  \<^item> \<open>Minutes\<close>: \<open>convertToMinutes\<close>, one function of the argument. Lemmas: on
    every string of colon-separated digit fields it equals the reference
    \<open>spec_minutes\<close> of spec section 4.1; the cap at 60, the examples of spec section
    8.3 and the inputs where the result leaves 0..60.
  \<^item> \<open>Double\<close>: the same function on IEEE 754 binary64 values, as the engine runs
    it (\<open>convertToMinutes_dbl\<close>): \<open>Number\<close>, \<open>+\<close>, \<open>*\<close> and \<open>/\<close> round their
    exact result to the nearest double, ties to even, with subnormals and overflow
    to \<open>Infinity\<close> (\<open>dround\<close>). Lemmas: rounding is exact on the integers up to
    \<open>2^53\<close> and not beyond, never falls below such an integer that the value
    reaches, and errs by at most \<open>2^-48\<close> below 64; the double function meets
    \<open>spec_minutes\<close> on every string of digit fields, however long.
  \<^item> \<open>Email\<close>: \<open>cleanEmail\<close> and its regular expression, as data (\<open>email_regex\<close>)
    with a backtracking matcher. Lemmas: the matcher decides the language
    \<open>email_shape\<close>; the result has one \<open>@\<close>, is lower case, trimmed, and stable
    under a second cleaning when no comma is left.
  \<^item> \<open>Calendar\<close>: the ECMA-262 date arithmetic (\<open>Day\<close>, \<open>DayFromYear\<close>,
    \<open>MakeDay\<close>, \<open>MakeTime\<close>, \<open>MakeDate\<close>, \<open>TimeClip\<close>) and \<open>new Date(str)\<close> on the
    strings \<open>Y-M-DTHH:MM:SS\<close> the cleaner builds, read as local time in a zone
    \<open>tz\<close> (\<open>tz t\<close> is LocalTZA in milliseconds; UTC is \<open>\<lambda>_. 0\<close>). V8 reads
    such a string only with a four-digit year and two-digit month and day (its
    ECMA-262 Date Time String Format parser); its legacy fallback rejects a
    \<open>T\<close> after a number, so every other such string is Invalid Date. Lemmas:
    day numbers are strictly monotone in the calendar order, run on across years,
    and let day 31 overflow into the next month.
  \<^item> \<open>CzechDate\<close>: \<open>parseCzechDate\<close>, \<open>covidStart\<close>, \<open>covidEnd\<close> and the flag of
    line 59 (\<open>covid_flag\<close>). Lemmas: on \<open>DD.MM.YYYY H:MM\<close> the parse is the
    time value of that local time; a one-digit day or month, as spec section 4.1
    writes dates (\<open>13.3.2020 14:30\<close>), gives Invalid Date; a day past the end
    of its month is read in the next month (\<open>31.02.2021\<close> is 3 March); in UTC
    the flag is the lexicographic window of the dates.
  \<^item> \<open>Row\<close>: a record as \<open>csv-parser\<close> makes it, an association list from column
    names to values in insertion order (\<open>get\<close> reads a property, \<open>put\<close> assigns it,
    appending a new key at the end as a JavaScript object does); \<open>transform_row\<close>
    (lines 61 to 73) and the whole handler \<open>on_data\<close> (lines 54 to 76), whose
    result is \<open>Inr None\<close> for the early \<open>return\<close>, \<open>Inr (Some r)\<close> for a pushed
    record, \<open>Inl e\<close> for an exception. Lemmas: the two filters, the fields of a
    kept record, the COVID flag of a kept record (and \<open>COVID = 0\<close> for every date
    with a one-digit day or month), the exception on a missing date, the keys of
    the output record.
  \<^item> \<open>Pipeline\<close>: the stream, as a state record \<open>pstate\<close> (\<open>results\<close>, and the data
    set handed to the writer) and events \<open>Data row | End\<close>, one step function and a
    run that stops at the first exception (an exception thrown in a \<open>'data'\<close>
    listener ends the process). \<open>clean_rows\<close> is the abstract specification: the
    handler mapped over the records. Lemmas: the run refines it; the output is the
    retained records, transformed, in input order; the invariant of spec section 3
    (cleaned e-mail of the right shape, \<open>zam = '0'\<close>) holds in every state
    reached; one throwing record means nothing is written.
  \<^item> \<open>Objects\<close>: the order of \<open>Object.keys\<close> (\<open>own_keys\<close>: array indices first, in
    numeric order, then the other keys in creation order) and the record
    \<open>csv-parser\<close> makes of the cells of a line (\<open>csv_row\<close>: \<open>o[header] = cell\<close> in
    order, \<open>_i\<close> past the headers). Lemmas: a line with one cell per distinct
    header gives exactly the headers as keys, in order, each with its cell.
  \<^item> \<open>Writer\<close>: the text of \<open>fastCsv.write(results, { headers: true, delimiter:
    '\t' })\<close> (\<open>tsv_text\<close>: the columns are \<open>Object.keys\<close> of the first record,
    NUL characters are deleted from every field, fields holding a quote are quoted
    with the quotes doubled, fields holding a tab, newline, carriage return or
    \<open>|\<close> are quoted, lines are joined by newlines), and a reader of such text
    (\<open>rd_tsv\<close>, a \<open>function\<close> with a termination proof by the length of the rest).
    Lemmas: reading the text back gives the header and every record's values,
    NULs deleted; every line has one field per column of the first record.
  \<^item> \<open>Program\<close>: the program's effects: the output file (\<open>outputFilePath\<close>, line 8,
    with \<open>__dirname\<close> a parameter) with its text and the confirmation of line 83,
    as \<open>run_program\<close> over the records and \<open>run_cleaner\<close> over the CSV cells.
    Lemmas: the confirmation is printed exactly when no record throws; nothing
    retained gives an empty file; from CSV lines with one cell per header, the
    output has the input's columns followed by the new ones and loses no value
    but NUL characters.
  \<^item> \<open>StreamSteps\<close>: the stream again, as an \<open>inductive\<close> small-step relation
    \<open>stream_step\<close> on configurations (\<open>Running\<close> state and events to come,
    \<open>Crashed\<close> by an uncaught exception, \<open>Finished\<close>), one event delivered per step.
    Lemmas: the relation is deterministic and well-founded (a measure of the events
    left), so every stream ends; the final configuration it reaches is the one of
    the big-step \<open>run_events\<close>; and, by rule induction from the start of a run,
    the records are delivered in input order, \<open>results\<close> is always the cleaned
    output of the records delivered so far, and the writer gets nothing before the
    last record (spec section 5).
  \<^item> \<open>Files\<close>: the script against a world of files and printed lines
    (\<open>run_script\<close>): \<open>inputFilePath\<close> (line 7) read by \<open>fs.createReadStream\<close>
    (line 52), \<open>ENOENT\<close> when it is missing, the tokens of \<open>csv-parser\<close> as a
    parameter, the program of \<open>Program\<close> on the records, and on success the output
    file replaced (line 78) and the confirmation printed (line 83). Lemmas: the
    exact effect of a successful run; a failed run changes nothing, so an earlier
    output stays; the input file is never changed; a second run leaves the same
    files (spec section 8.7).
  \<^item> This theory: the examples of spec section 8 on concrete records, evaluated
    (the end-to-end example of section 8.6 down to the TSV text, where the
    unpadded date \<open>13.3.2020 08:00\<close> gives \<open>COVID = 0\<close> and not the 1 of the
    specification), the time-zone divergence of the COVID window, the order of
    integer-named columns, the fate of extra cells, a file system holding the
    input of section 8.6 and one holding a stale output, and a witness for every
    theorem with hypotheses.

  \<^bold>\<open>Choices.\<close> Numbers are exact rationals in the handler's model: the program
  only adds, multiplies and divides integers read from the input. \<open>Double\<close>
  justifies this: on every string of digit fields, the domain of spec section 4.1,
  the binary64 \<open>convertToMinutes\<close> gives the same reference value as the exact
  one, whatever the length of the fields. Off that domain they can differ (a field
  with more than 17 significant digits, such as \<open>59.99999999999999999:0\<close>, is 60
  on doubles), and the sign of zero is not kept (it never shows in the output). The
  local time zone is a parameter of every theorem about dates, so each one holds
  in every zone it names (the COVID theorems ask for an offset of at most a day,
  which every real zone meets). No loop of the program can run forever; every
  function here is total, with structural recursion or a measure, and the stream
  itself is proved to end (\<open>stream_step_wf\<close>). The tokenizer of \<open>csv-parser\<close>
  is a parameter of \<open>run_script\<close>, so its lemmas hold for every tokenization.

  \<^bold>\<open>Not modelled.\<close> Cutting the file's text into lines and cells (the
  tokenizer of \<open>csv-parser\<close>: quotes, CRLF, a byte order mark), a library the
  program only calls: the model starts from the cells of each line, every cell a
  string, and the header line's names. The streams' buffering and chunking, read
  errors other than a missing file, and errors writing the output file (an
  unwritable directory), which would end the process after the file is opened.
  A header named \<open>__proto__\<close>, which an object assignment does not store as
  a key. \<open>new Date\<close> is modelled on the strings \<open>Y-M-DTHH:MM:SS\<close> the cleaner
  builds, as V8 reads them; other engines' fallback parsers differ on such
  strings (some accept a one-digit month), and the model follows V8, the engine
  of Node. \<open>toLowerCase\<close> above U+017F is the identity here.
  \<open>String(n)\<close> prints the exact decimal expansion of the value, which is the
  shortest round-trip form of Number::toString on the integers the program prints,
  not on every double.
  \<open>fast-csv\<close> is modelled from \<open>FieldFormatter.format\<close> with the options the
  program passes; a column is looked up as a plain key of the record (a version
  that reads a dotted name as a path would differ on such a column).

  \<^bold>\<open>Plan.\<close> What is left is library and engine code the program only calls: the
  tokenizer of \<open>csv-parser\<close> (quoted cells, CRLF) with a round trip against the
  writer, and Number::toString on doubles that are not integers. Each would be modelled from the library's source, which is not
  part of this repository.
\<close>

section \<open>Worked examples of the specification\<close>

text \<open>Lines 58 and 59 of the handler on their own: the COVID flag a date string
  gets, or the exception \<open>parseCzechDate\<close> throws.\<close>

definition date_flag :: "(int \<Rightarrow> int) \<Rightarrow> jsval option \<Rightarrow> js_error + jsnum" where
  "date_flag tz v = (case parseCzechDate tz v of Inl e \<Rightarrow> Inl e | Inr dc \<Rightarrow> Inr (covid_flag dc))"

text \<open>The three records of spec section 8.6, differing in \<open>teacherEmail\<close>,
  \<open>zam\<close> and \<open>dateCreated\<close>; the values are what \<open>csv-parser\<close> hands over:
  every cell a string.\<close>

definition example_row :: "jstr \<Rightarrow> jstr \<Rightarrow> jstr \<Rightarrow> row" where
  "example_row email zam date =
     [(k_teacherEmail, VStr email), (k_zam, VStr zam), (k_timeSpent, VStr (js ''00:10:00'')),
      (k_dateCreated, VStr date), (k_exerciseDescription, VStr exercise_cz),
      (k_from, VStr (js ''free'')), (k_b4, VStr (js ''Q1''))]"

definition row_kept :: row where
  "row_kept = example_row (js ''Foo,Bar@Example.com'') (js ''0'') (js ''13.3.2020 08:00'')"

definition row_zam :: row where
  "row_zam = example_row (js ''Foo,Bar@Example.com'') (js ''1'') (js ''13.3.2020 08:00'')"

definition row_bad_email :: row where
  "row_bad_email = example_row (js ''nobody'') (js ''0'') (js ''13.3.2020 08:00'')"

definition example_rows :: "row list" where
  "example_rows = [row_kept, row_zam, row_bad_email]"

text \<open>The record the handler makes of \<open>row_kept\<close>: the input's fields in their
  order with the three remaps, then the three new fields. The date is written as
  spec section 8.6 writes it, \<open>13.3.2020 08:00\<close>, which \<open>new Date\<close> does not read,
  so \<open>COVID\<close> is 0 where the specification expects 1.\<close>

definition expected_row :: row where
  "expected_row =
     [(k_teacherEmail, VStr (js ''Foo,Bar@Example.com'')), (k_zam, VStr (js ''0'')),
      (k_timeSpent, VStr (js ''00:10:00'')), (k_dateCreated, VStr (js ''13.3.2020 08:00'')),
      (k_exerciseDescription, VStr exercise_en), (k_from, VStr (js ''Fred'')),
      (k_b4, VStr (js ''Q1'' @ b4_suffix)),
      (k_timeSpentMinutes, VNum (Fin 10)), (k_cleanedEmail, VStr (js ''foo.bar@example.com'')),
      (k_COVID, VNum (Fin 0))]"

text \<open>A retained record without \<open>dateCreated\<close>, one whose date is written
  without padding (\<open>13.3.2020 8:0\<close>), and one whose day and month have two digits
  (\<open>13.03.2020 8:0\<close>).\<close>

definition row_no_date :: row where
  "row_no_date =
     [(k_teacherEmail, VStr (js ''a@b.cz'')), (k_zam, VStr (js ''0'')),
      (k_timeSpent, VStr (js ''5:30''))]"

definition row_unpadded :: row where
  "row_unpadded = example_row (js ''a@b.cz'') (js ''0'') (js ''13.3.2020 8:0'')"

definition row_padded :: row where
  "row_padded = example_row (js ''a@b.cz'') (js ''0'') (js ''13.03.2020 8:0'')"

text \<open>The same records as the cells of a CSV line under the header of the example.\<close>

definition example_header :: "jstr list" where
  "example_header = [k_teacherEmail, k_zam, k_timeSpent, k_dateCreated, k_exerciseDescription, k_from, k_b4]"

definition example_cells :: "jstr \<Rightarrow> jstr \<Rightarrow> jstr \<Rightarrow> jstr list" where
  "example_cells email zam date =
     [email, zam, js ''00:10:00'', date, exercise_cz, js ''free'', js ''Q1'']"

text \<open>Lines of tab-separated ASCII fields, to write expected TSV text.\<close>

definition tab_lines :: "string list list \<Rightarrow> jstr" where
  "tab_lines ls = js_join 10 (map (\<lambda>l. js_join 9 (map js l)) ls)"

text \<open>A file system for the script: the input of spec section 8.6 in \<open>/srv\<close>, and the
  tokens \<open>csv-parser\<close> reads from it (its header and the cells of its three lines;
  the tokenizer itself is not modelled, so this one is given for the file's text).
  \<open>stale_world\<close> also holds the output of an earlier run, and its input has a
  retained line without \<open>dateCreated\<close>.\<close>

definition example_tokens :: csv_tokens where
  "example_tokens content =
     (example_header,
      [example_cells (js ''Foo,Bar@Example.com'') (js ''0'') (js ''13.3.2020 08:00''),
       example_cells (js ''Foo,Bar@Example.com'') (js ''1'') (js ''13.3.2020 08:00''),
       example_cells (js ''nobody'') (js ''0'') (js ''13.3.2020 08:00'')])"

definition example_world :: world where
  "example_world = \<lparr>files = [inputFilePath (js ''/srv'') \<mapsto> js ''teacherEmail,zam,...''], stdout = []\<rparr>"

definition crash_tokens :: csv_tokens where
  "crash_tokens content = ([k_teacherEmail, k_zam, k_timeSpent], [[js ''a@b.cz'', js ''0'', js ''5:30'']])"

definition stale_world :: world where
  "stale_world =
     \<lparr>files = [inputFilePath (js ''/srv'') \<mapsto> js ''teacherEmail,zam,timeSpent...'',
               outputFilePath (js ''/srv'') \<mapsto> js ''old'' ], stdout = []\<rparr>"

subsection \<open>Evaluated facts the examples share\<close>

lemma on_data_row_kept: "on_data (\<lambda>_. 0) row_kept = Inr (Some expected_row)"
  by (simp add: js_eval row_kept_def example_row_def expected_row_def)

lemma on_data_row_zam: "on_data tz row_zam = Inr None"
  by (simp add: on_data_def row_zam_def example_row_def column_names get_def
      split: option.splits)

lemma not_email_shape_nobody: "\<not> email_shape (js ''nobody'')"
  by (simp flip: email_regex_language add: js_eval)

lemma on_data_row_bad_email: "on_data tz row_bad_email = Inr None"
  by (simp add: js_eval row_bad_email_def example_row_def)

lemma clean_rows_example: "clean_rows (\<lambda>_. 0) example_rows = Inr [expected_row]"
  by (simp add: example_rows_def on_data_row_kept on_data_row_zam on_data_row_bad_email)

lemma cleanEmail_ab: "cleanEmail (Some (VStr (js ''a@b.cz''))) = Some (js ''a@b.cz'')"
  by (simp add: js_eval)

lemma cleanEmail_foo:
  "cleanEmail (Some (VStr (js ''Foo,Bar@Example.com''))) = Some (js ''foo.bar@example.com'')"
  by (simp add: js_eval)

lemma on_data_row_no_date:
  "on_data tz row_no_date = Inl (TypeError ''Cannot read properties of undefined (reading split)'')"
  by (simp add: js_eval row_no_date_def)

lemma run_pipeline_example:
  "run_pipeline (\<lambda>_. 0) example_rows = Inr \<lparr>results = [expected_row], written = Some [expected_row]\<rparr>"
  by (simp add: run_pipeline_def run_events_data init_state_def clean_rows_example)

lemma csv_row_example:
  "csv_row example_header (example_cells e z d) = example_row e z d"
  by (simp add: js_eval example_header_def example_cells_def example_row_def)

lemma row_result_kept: "row_result (\<lambda>_. 0) row_kept = expected_row"
  by (simp add: row_result_def on_data_row_kept)

lemma retained_kept: "retained row_kept"
  using cleanEmail_foo by (simp add: retained_def row_kept_def example_row_def column_names get_def)

lemma not_retained_zam: "\<not> retained row_zam"
  using cleanEmail_foo by (simp add: retained_def row_zam_def example_row_def column_names get_def)

lemma not_retained_bad_email: "\<not> retained row_bad_email"
proof -
  have "cleanEmail (Some (VStr (js ''nobody''))) = None" by (simp add: js_eval)
  then show ?thesis by (simp add: retained_def row_bad_email_def example_row_def column_names get_def)
qed

lemma example_header_keys:
  "distinct example_header" "\<forall>h\<in>set example_header. \<not> is_array_index h"
  by (simp_all add: example_header_def column_names is_array_index_def is_dec_digit_def)

lemma csv_rows_example: "csv_rows example_tokens c = example_rows"
  by (simp only: csv_rows_def example_tokens_def fst_conv snd_conv list.map csv_row_example
      example_rows_def row_kept_def row_zam_def row_bad_email_def)

lemma example_world_input: "files example_world (inputFilePath (js ''/srv'')) = Some (js ''teacherEmail,zam,...'')"
  by (simp add: example_world_def)

lemma filter_retained_example: "map (row_result (\<lambda>_. 0)) (filter retained example_rows) = [expected_row]"
  by (simp add: example_rows_def retained_kept not_retained_zam not_retained_bad_email row_result_kept)

lemma run_script_example:
  "run_script (js ''/srv'') (\<lambda>_. 0) example_tokens example_world =
     (None, apply_output (on_end (js ''/srv'') [expected_row]) example_world)"
  unfolding run_script_Some [OF example_world_input] csv_rows_example run_program_eq
    clean_rows_example by simp

subsection \<open>The examples of spec section 8\<close>

text \<open>The end-to-end example of spec section 8.6. Of a record that passes every
  filter, one with \<open>zam = '1'\<close> and one with an invalid e-mail, the run writes
  exactly the first, with \<open>exerciseDescription\<close>, \<open>from\<close> and \<open>b4\<close> remapped and
  the three new fields appended; its \<open>COVID\<close> is 0, not the 1 of the
  specification.\<close>

lemma spec_example_pipeline:
  "run_pipeline (\<lambda>_. 0) example_rows =
     Inr \<lparr>results = [expected_row], written = Some [expected_row]\<rparr>"
  by (simp add: run_pipeline_def run_events_data init_state_def clean_rows_example)

text \<open>The date examples of spec section 8.5, in the zone of Prague at those dates
  (UTC+1 in March 2020, UTC+2 in June 2021): \<open>13.3.2020 08:00\<close> gets
  \<open>COVID = 0\<close>, not the 1 the specification gives it, while \<open>13.03.2020 08:00\<close>
  gets 1; \<open>01.6.2021 08:00\<close> and \<open>01.06.2021 08:00\<close> get 0; and \<open>garbage\<close>
  gets 0 in every zone without an exception.\<close>

lemma date_flag_spec_examples:
  "date_flag (\<lambda>_. 3600000) (Some (VStr (js ''13.3.2020 08:00''))) = Inr (Fin 0)
   \<and> date_flag (\<lambda>_. 3600000) (Some (VStr (js ''13.03.2020 08:00''))) = Inr (Fin 1)
   \<and> date_flag (\<lambda>_. 7200000) (Some (VStr (js ''01.6.2021 08:00''))) = Inr (Fin 0)
   \<and> date_flag (\<lambda>_. 7200000) (Some (VStr (js ''01.06.2021 08:00''))) = Inr (Fin 0)
   \<and> date_flag tz (Some (VStr (js ''garbage''))) = Inr (Fin 0)"
  by (simp add: date_flag_def js_eval)

text \<open>The window is not the one of spec section 4, which compares local dates with
  2020-03-13T00:00 and 2021-05-30T00:00: \<open>covidStart\<close> and \<open>covidEnd\<close> are UTC
  midnight while the parsed date is local time. In Prague (UTC+1 in March 2020)
  \<open>13.03.2020 00:30\<close> gets 0; in May 2021 (UTC+2) \<open>30.05.2021 01:30\<close> gets 1.
  In UTC the two get 1 and 0.\<close>

lemma covid_timezone_shift:
  "date_flag (\<lambda>_. 3600000) (Some (VStr (js ''13.03.2020 00:30''))) = Inr (Fin 0)
   \<and> date_flag (\<lambda>_. 0) (Some (VStr (js ''13.03.2020 00:30''))) = Inr (Fin 1)
   \<and> date_flag (\<lambda>_. 7200000) (Some (VStr (js ''30.05.2021 01:30''))) = Inr (Fin 1)
   \<and> date_flag (\<lambda>_. 0) (Some (VStr (js ''30.05.2021 01:30''))) = Inr (Fin 0)"
  by (simp add: date_flag_def js_eval)

text \<open>The e-mail examples of spec section 8.4, and two more: a second \<open>@\<close>
  rejects, and only the first comma becomes a period.\<close>

lemma cleanEmail_spec_examples:
  "cleanEmail (Some (VStr (js ''Foo,Bar@Example.com''))) = Some (js ''foo.bar@example.com'')
   \<and> cleanEmail (Some (VNum (Fin 123))) = None
   \<and> cleanEmail (Some (VStr (js ''a@b@c.cz''))) = None
   \<and> cleanEmail (Some (VStr (js '' A,B,C@X.CZ '')))  = Some (js ''a.b,c@x.cz'')"
  by (simp add: js_eval)

text \<open>A record whose \<open>dateCreated\<close> is not a date is kept, with
  \<open>COVID = 0\<close>, as spec section 7 says; one without the field throws.\<close>

lemma on_data_date_degrades:
  "on_data (\<lambda>_. 0) (example_row (js ''a@b.cz'') (js ''0'') (js ''garbage'')) =
     Inr (Some (transform_row (example_row (js ''a@b.cz'') (js ''0'') (js ''garbage''))
                 (Fin 10) (js ''a@b.cz'') (Fin 0)))
   \<and> isl (on_data (\<lambda>_. 0) row_no_date)"
  using on_data_row_no_date [of "\<lambda>_. 0"]
  by (simp add: js_eval example_row_def del: transform_row_def)

subsection \<open>The whole program\<close>

text \<open>The end-to-end example of spec section 8.6 from the CSV cells to the TSV file:
  the header line lists the input's columns then \<open>timeSpentMinutes\<close>,
  \<open>cleanedEmail\<close> and \<open>COVID\<close>; the one data line carries the remapped and new
  values, separated by tabs (\<open>COVID\<close> 0, the date being unpadded); the
  confirmation names the output file.\<close>

lemma spec_example_tsv:
  "run_cleaner dir (\<lambda>_. 0) example_header
     [example_cells (js ''Foo,Bar@Example.com'') (js ''0'') (js ''13.3.2020 08:00''),
      example_cells (js ''Foo,Bar@Example.com'') (js ''1'') (js ''13.3.2020 08:00''),
      example_cells (js ''nobody'') (js ''0'') (js ''13.3.2020 08:00'')] =
   Inr \<lparr>out_file = Some (outputFilePath dir, tab_lines
          [[''teacherEmail'', ''zam'', ''timeSpent'', ''dateCreated'', ''exerciseDescription'',
            ''from'', ''b4'', ''timeSpentMinutes'', ''cleanedEmail'', ''COVID''],
           [''Foo,Bar@Example.com'', ''0'', ''00:10:00'', ''13.3.2020 08:00'',
            ''Modes of the work with the activity'', ''Fred'',
            ''Q1 [https://dejepisplus.npi.cz/historicka-gramotnost/]'', ''10'',
            ''foo.bar@example.com'', ''0'']]),
        console = [finish_message dir]\<rparr>"
proof -
  have rows: "map (csv_row example_header)
     [example_cells (js ''Foo,Bar@Example.com'') (js ''0'') (js ''13.3.2020 08:00''),
      example_cells (js ''Foo,Bar@Example.com'') (js ''1'') (js ''13.3.2020 08:00''),
      example_cells (js ''nobody'') (js ''0'') (js ''13.3.2020 08:00'')] = example_rows"
    by (simp only: list.map csv_row_example example_rows_def row_kept_def row_zam_def
        row_bad_email_def)
  have tsv: "tsv_text [expected_row] = tab_lines
          [[''teacherEmail'', ''zam'', ''timeSpent'', ''dateCreated'', ''exerciseDescription'',
            ''from'', ''b4'', ''timeSpentMinutes'', ''cleanedEmail'', ''COVID''],
           [''Foo,Bar@Example.com'', ''0'', ''00:10:00'', ''13.3.2020 08:00'',
            ''Modes of the work with the activity'', ''Fred'',
            ''Q1 [https://dejepisplus.npi.cz/historicka-gramotnost/]'', ''10'',
            ''foo.bar@example.com'', ''0'']]"
    by (simp add: js_eval expected_row_def tab_lines_def)
  show ?thesis
    unfolding run_cleaner_def rows run_program_eq clean_rows_example
    by (simp add: on_end_def tsv)
qed

text \<open>The columns of the output are \<open>Object.keys\<close> of the first record, so a
  column whose name is an array index (a year, say) comes first in the output,
  before the columns the input lists ahead of it.\<close>

lemma integer_column_first:
  "tsv_text [csv_row [js ''teacher'', js ''2020''] [js ''a'', js ''b'']] =
     tab_lines [[''2020'', ''teacher''], [''b'', ''a'']]"
  by (simp add: js_eval tab_lines_def)

text \<open>A line with more cells than the header gives a record with a column
  \<open>_2\<close>; the output keeps it only when that record is the first, and otherwise
  drops the cell; when the first record has it, later records get an empty field.\<close>

lemma csv_extra_cells:
  "tsv_text (map (csv_row [js ''a'', js ''b'']) [[js ''x'', js ''y''], [js ''u'', js ''v'', js ''w'']]) =
     tab_lines [[''a'', ''b''], [''x'', ''y''], [''u'', ''v'']]
   \<and> tsv_text (map (csv_row [js ''a'', js ''b'']) [[js ''u'', js ''v'', js ''w''], [js ''x'', js ''y'']]) =
     tab_lines [[''a'', ''b'', ''_2''], [''u'', ''v'', ''w''], [''x'', ''y'', '''']]"
  by (simp add: js_eval tab_lines_def)

section \<open>Witnesses\<close>

text \<open>Each theorem with hypotheses, applied where they hold.\<close>

theorem run_pipeline_output_witness:
  "\<exists>s. run_pipeline (\<lambda>_. 0) example_rows = Inr s
     \<and> written s = Some (map (row_result (\<lambda>_. 0)) (filter retained example_rows))"
  using run_pipeline_output [of example_rows "\<lambda>_. 0"]
  by (simp add: example_rows_def on_data_row_kept on_data_row_zam on_data_row_bad_email)

theorem run_pipeline_written_good_witness:
  "run_pipeline (\<lambda>_. 0) example_rows = Inr \<lparr>results = [expected_row], written = Some [expected_row]\<rparr>
   \<and> good_row expected_row"
  using run_pipeline_example
    run_pipeline_written_good [OF run_pipeline_example, of "[expected_row]"] by simp

theorem run_pipeline_error_witness:
  "row_no_date \<in> set [row_kept, row_no_date] \<and> isl (on_data (\<lambda>_. 0) row_no_date)
   \<and> (\<exists>e. run_pipeline (\<lambda>_. 0) [row_kept, row_no_date] = Inl e)"
  using run_pipeline_error [of row_no_date "[row_kept, row_no_date]" "\<lambda>_. 0"]
  by (simp add: on_data_row_no_date)

theorem on_data_drops_zam_witness:
  "get row_zam k_zam = Some (VStr (js ''1'')) \<and> on_data (\<lambda>_. 0) row_zam = Inr None"
  using on_data_drops_zam [of row_zam "\<lambda>_. 0"]
  by (simp add: row_zam_def example_row_def column_names get_def)

theorem on_data_drops_email_witness:
  "get row_bad_email k_teacherEmail = Some (VStr (js ''nobody''))
   \<and> on_data (\<lambda>_. 0) row_bad_email = Inr None"
proof -
  have g: "get row_bad_email k_teacherEmail = Some (VStr (js ''nobody''))"
    by (simp add: row_bad_email_def example_row_def column_names get_def)
  have "normalise_email (js ''nobody'') = js ''nobody''"
    by (simp add: js_eval)
  then have "\<forall>e. get row_bad_email k_teacherEmail = Some (VStr e) \<longrightarrow>
                 \<not> email_shape (normalise_email e)"
    using g not_email_shape_nobody by simp
  with g show ?thesis using on_data_drops_email [of row_bad_email "\<lambda>_. 0"] by simp
qed

theorem on_data_output_fields_witness:
  "on_data (\<lambda>_. 0) row_kept = Inr (Some expected_row)
   \<and> (\<exists>ce. cleanEmail (get row_kept k_teacherEmail) = Some ce
          \<and> get expected_row k_cleanedEmail = Some (VStr ce))
   \<and> get expected_row k_zam = get row_kept k_zam"
proof -
  have "k_zam \<notin> set written_keys"
    by (simp add: written_keys_def column_names)
  then show ?thesis
    using on_data_output_fields [OF on_data_row_kept] on_data_row_kept by auto
qed

theorem on_data_covid_witness:
  "retained row_padded
   \<and> get row_padded k_dateCreated = Some (VStr (czech_date_string 13 3 2020 8 0))
   \<and> valid_date 2020 3 13
   \<and> (\<exists>row'. on_data (\<lambda>_. 3600000) row_padded = Inr (Some row')
        \<and> get row' k_COVID = Some (VNum (Fin 1)))"
proof -
  have r: "retained row_padded"
    using cleanEmail_ab
    by (simp add: retained_def row_padded_def example_row_def column_names get_def)
  have dc: "get row_padded k_dateCreated = Some (VStr (czech_date_string 13 3 2020 8 0))"
    by (simp add: row_padded_def example_row_def column_names get_def czech_date_string_def
        js_eval)
  have ts: "get row_padded k_timeSpent = Some (VStr (js ''00:10:00''))"
    by (simp add: row_padded_def example_row_def column_names get_def)
  have v: "valid_date (int 2020) 3 13"
    by (simp add: valid_date_def js_eval days_in_month_def)
  have lt: "local_time (int 2020) 3 13 8 0 = 1584086400000"
    by (simp add: local_time_def civil_day_def js_eval)
  show ?thesis
    using on_data_covid [OF r dc ts v, where tz = "\<lambda>_. 3600000"] r dc v lt by simp
qed

theorem on_data_covid_unpadded_witness:
  "retained row_unpadded
   \<and> get row_unpadded k_dateCreated = Some (VStr (czech_date_short 13 3 2020 8 0))
   \<and> (\<exists>row'. on_data (\<lambda>_. 3600000) row_unpadded = Inr (Some row')
        \<and> get row' k_COVID = Some (VNum (Fin 0)))"
proof -
  have r: "retained row_unpadded"
    using cleanEmail_ab
    by (simp add: retained_def row_unpadded_def example_row_def column_names get_def)
  have dc: "get row_unpadded k_dateCreated = Some (VStr (czech_date_short 13 3 2020 8 0))"
    by (simp add: row_unpadded_def example_row_def column_names get_def czech_date_short_def
        js_eval)
  have ts: "get row_unpadded k_timeSpent = Some (VStr (js ''00:10:00''))"
    by (simp add: row_unpadded_def example_row_def column_names get_def)
  show ?thesis
    using on_data_covid_unpadded [OF r dc ts, where tz = "\<lambda>_. 3600000"] r dc by simp
qed


theorem on_data_missing_date_witness:
  "cleanEmail (get row_no_date k_teacherEmail) = Some (js ''a@b.cz'')
   \<and> get row_no_date k_dateCreated = None
   \<and> on_data (\<lambda>_. 0) row_no_date =
       Inl (TypeError ''Cannot read properties of undefined (reading split)'')"
proof -
  have c: "cleanEmail (get row_no_date k_teacherEmail) = Some (js ''a@b.cz'')"
    using cleanEmail_ab by (simp add: row_no_date_def column_names get_def)
  have d: "get row_no_date k_dateCreated = None"
    by (simp add: row_no_date_def column_names get_def)
  have z: "get row_no_date k_zam = Some (VStr (js ''0''))"
    by (simp add: row_no_date_def column_names get_def)
  show ?thesis
    using c d on_data_missing_date [OF c _ z d, of "\<lambda>_. 0"] by simp
qed

theorem cleanEmail_result_witness:
  "cleanEmail (Some (VStr (js ''Foo,Bar@Example.com''))) = Some (js ''foo.bar@example.com'')
   \<and> email_shape (js ''foo.bar@example.com'')
   \<and> count_list (js ''foo.bar@example.com'') 64 = 1"
  using cleanEmail_foo cleanEmail_result [OF cleanEmail_foo] by simp

theorem cleanEmail_idem_witness:
  "cleanEmail (Some (VStr (js ''foo.bar@example.com''))) = Some (js ''foo.bar@example.com'')"
  using cleanEmail_idem [OF cleanEmail_foo] by simp

theorem covid_window_utc_witness:
  "valid_date 2020 3 13
   \<and> (\<exists>tv. parseCzechDate (\<lambda>_. 0) (Some (VStr (czech_date_string 13 3 2020 8 0))) = Inr (Some tv)
        \<and> covid_flag (Some tv) = Fin 1)"
proof -
  have v: "valid_date (int 2020) 3 13"
    by (simp add: valid_date_def js_eval days_in_month_def)
  show ?thesis
    using covid_window_utc [OF v, of 8 0] v by (simp add: less_eq_prod_def less_prod_def)
qed

theorem run_program_confirms_witness:
  "\<exists>out. run_program (js ''/srv'') (\<lambda>_. 0) example_rows = Inr out
     \<and> console out = [finish_message (js ''/srv'')]"
proof -
  have "\<forall>r\<in>set example_rows. \<not> isl (on_data (\<lambda>_. 0) r)"
    by (simp add: example_rows_def on_data_row_kept on_data_row_zam on_data_row_bad_email)
  with run_program_confirms [of "js ''/srv''" "\<lambda>_. 0" example_rows] show ?thesis by blast
qed

theorem run_program_nothing_retained_witness:
  "run_program (js ''/srv'') (\<lambda>_. 0) [row_zam, row_bad_email] =
     Inr \<lparr>out_file = Some (outputFilePath (js ''/srv''), []), console = [finish_message (js ''/srv'')]\<rparr>"
  using run_program_nothing_retained [of "[row_zam, row_bad_email]" "js ''/srv''" "\<lambda>_. 0"]
    not_retained_zam not_retained_bad_email by simp

theorem run_cleaner_columns_witness:
  "\<exists>out text. run_cleaner (js ''/srv'') (\<lambda>_. 0) example_header
       [example_cells (js ''Foo,Bar@Example.com'') (js ''0'') (js ''13.3.2020 08:00'')] = Inr out
     \<and> out_file out = Some (outputFilePath (js ''/srv''), text)
     \<and> rd_tsv text = map (map strip_nul) (out_columns example_header # [row_fields (out_columns example_header) expected_row])"
proof -
  have r: "csv_row example_header (example_cells (js ''Foo,Bar@Example.com'') (js ''0'') (js ''13.3.2020 08:00'')) = row_kept"
    by (simp only: csv_row_example row_kept_def)
  have c: "\<forall>cs\<in>set [example_cells (js ''Foo,Bar@Example.com'') (js ''0'') (js ''13.3.2020 08:00'')].
             length cs = length example_header"
    by (simp add: example_cells_def example_header_def)
  show ?thesis
    using run_cleaner_columns [OF example_header_keys c, of "\<lambda>_. 0" "js ''/srv''",
        unfolded list.map r]
    by (simp add: on_data_row_kept retained_kept row_result_kept) blast
qed

theorem tsv_text_lossless_witness:
  "rd_tsv (tsv_text [expected_row]) =
     map strip_nul (map fst expected_row) # [map (\<lambda>(k, v). strip_nul (field_text (Some v))) expected_row]"
proof -
  have k: "map fst expected_row \<noteq> []" "distinct (map fst expected_row)"
    "\<forall>k\<in>set (map fst expected_row). \<not> is_array_index k"
    by (simp_all add: expected_row_def column_names is_array_index_def is_dec_digit_def)
  show ?thesis using tsv_text_lossless [of "[expected_row]", OF _ k] by simp
qed


theorem convertToMinutes_spec_witness:
  "convertToMinutes (Some (VStr (js ''1:2:3:4''))) = Inr (Fin 0)"
  using convertToMinutes_spec [of "[js ''1'', js ''2'', js ''3'', js ''4'']"]
  by (simp add: is_dec_digit_def spec_minutes_def js_eval)

theorem run_script_success_witness:
  "run_script (js ''/srv'') (\<lambda>_. 0) example_tokens example_world =
     (None, example_world\<lparr>files := (files example_world)(outputFilePath (js ''/srv'') \<mapsto>
                 tsv_text [expected_row]), stdout := [finish_message (js ''/srv'')]\<rparr>)"
proof -
  have "\<forall>r\<in>set (csv_rows example_tokens (js ''teacherEmail,zam,...'')). \<not> isl (on_data (\<lambda>_. 0) r)"
    by (simp add: csv_rows_example example_rows_def on_data_row_kept on_data_row_zam on_data_row_bad_email)
  from run_script_success [OF example_world_input this] show ?thesis
    by (simp add: csv_rows_example filter_retained_example example_world_def)
qed

theorem run_script_failure_witness:
  "run_script (js ''/srv'') (\<lambda>_. 0) crash_tokens stale_world =
     (Some (Uncaught (TypeError ''Cannot read properties of undefined (reading split)'')), stale_world)
   \<and> files stale_world (outputFilePath (js ''/srv'')) = Some (js ''old'')"
proof -
  have rows: "csv_rows crash_tokens c = [row_no_date]" for c
    by (simp add: js_eval crash_tokens_def row_no_date_def)
  have inp: "files stale_world (inputFilePath (js ''/srv'')) = Some (js ''teacherEmail,zam,timeSpent...'')"
    by (simp add: stale_world_def js_eval)
  have run: "run_script (js ''/srv'') (\<lambda>_. 0) crash_tokens stale_world =
     (Some (Uncaught (TypeError ''Cannot read properties of undefined (reading split)'')), stale_world)"
    unfolding run_script_Some [OF inp] rows run_program_eq by (simp add: on_data_row_no_date)
  have out: "files stale_world (outputFilePath (js ''/srv'')) = Some (js ''old'')"
    by (simp add: stale_world_def)
  from run_script_failure [OF run] run out show ?thesis by simp
qed

theorem run_script_rerun_witness:
  "run_script (js ''/srv'') (\<lambda>_. 0) example_tokens example_world =
     (None, apply_output (on_end (js ''/srv'') [expected_row]) example_world)
   \<and> (\<exists>w''. run_script (js ''/srv'') (\<lambda>_. 0) example_tokens
              (apply_output (on_end (js ''/srv'') [expected_row]) example_world) = (None, w'')
        \<and> files w'' = files (apply_output (on_end (js ''/srv'') [expected_row]) example_world))"
  using run_script_rerun [OF run_script_example] run_script_example by blast

theorem convertToMinutes_dbl_spec_witness:
  "convertToMinutes_dbl (Some (VStr (js ''1:99999999999999999999:0''))) = Inr (Fin 60)"
  using convertToMinutes_dbl_spec [of "[js ''1'', js ''99999999999999999999'', js ''0'']"]
  by (simp add: is_dec_digit_def spec_minutes_def js_eval)

theorem stream_delivers_in_order_witness:
  "(stream_step (\<lambda>_. 0))\<^sup>*\<^sup>* (Running init_state (map Data [row_kept, row_zam] @ [End]))
      (Running \<lparr>results = [expected_row], written = None\<rparr> [Data row_zam, End])
   \<and> clean_rows (\<lambda>_. 0) (take 1 [row_kept, row_zam]) = Inr [expected_row]"
proof -
  have "pipeline_step (\<lambda>_. 0) init_state (Data row_kept) = Inr \<lparr>results = [expected_row], written = None\<rparr>"
    by (simp add: init_state_def on_data_row_kept)
  then have "stream_step (\<lambda>_. 0) (Running init_state (Data row_kept # [Data row_zam, End]))
      (Running \<lparr>results = [expected_row], written = None\<rparr> [Data row_zam, End])"
    by (rule step_ok)
  then have reach: "(stream_step (\<lambda>_. 0))\<^sup>*\<^sup>* (Running init_state (map Data [row_kept, row_zam] @ [End]))
      (Running \<lparr>results = [expected_row], written = None\<rparr> [Data row_zam, End])" by simp
  moreover have "clean_rows (\<lambda>_. 0) (take 1 [row_kept, row_zam]) = Inr [expected_row]"
    by (simp add: on_data_row_kept)
  ultimately show ?thesis using stream_delivers_in_order [OF reach] by blast
qed

end
